(* ===== verification/Genl_Prelude.thy ===== *)
theory Genl_Prelude
  imports Main "HOL-Library.Word"
begin

text \<open>
  Shared vocabulary of the development: the C integer types of the sources as
  words (\<open>unsigned int\<close> is \<open>32 word\<close>, \<open>unsigned long\<close> on an LP64 target is
  \<open>64 word\<close>, a netlink length or type field is \<open>16 word\<close>), C character
  buffers as byte lists, reading a NUL-terminated string out of a buffer
  (\<open>cstr\<close>), the libc \<open>strncpy\<close>, the host-order (little-endian) encoding
  of a 16-bit field and the netlink 4-byte alignment.  The lemmas here are
  the generic facts the component theories share.
\<close>

named_theorems genl_consts "definitions of the protocol constants of genl_ex.h"

type_synonym byte = "8 word"
type_synonym u16 = "16 word"
type_synonym u32 = "32 word"
type_synonym u64 = "64 word"

text \<open>A C string literal or an \<open>argv\<close> string as the bytes it occupies.\<close>

abbreviation bytes :: "string \<Rightarrow> byte list" where
  "bytes s \<equiv> map of_char s"

text \<open>The characters of a C string stored in a buffer: everything before the
  first NUL byte.\<close>

definition cstr :: "byte list \<Rightarrow> byte list" where
  "cstr buf = takeWhile (\<lambda>b. b \<noteq> 0) buf"

text \<open>Reading a C string with \<open>%s\<close> from memory whose known bytes are
  \<open>bs\<close>: \<open>None\<close> when no NUL is among them, so that the read runs past
  the object.\<close>

definition read_cstr :: "byte list \<Rightarrow> byte list option" where
  "read_cstr bs = (if 0 \<in> set bs then Some (cstr bs) else None)"

text \<open>\<open>strncpy(dest, src, n)\<close>: copies the bytes of the string \<open>src\<close> up to
  \<open>n\<close>, then pads with NUL bytes up to \<open>n\<close>; bytes of \<open>dest\<close> beyond
  \<open>n\<close> are untouched.  No terminator is written when \<open>src\<close> has \<open>n\<close> or
  more bytes.\<close>

definition strncpy :: "byte list \<Rightarrow> byte list \<Rightarrow> nat \<Rightarrow> byte list" where
  "strncpy dest src n = take n (cstr src @ replicate n 0) @ drop n dest"

text \<open>A 16-bit field in host byte order (the sources run on little-endian
  hosts), and reading it back from the first two bytes of a buffer.\<close>

definition le16 :: "u16 \<Rightarrow> byte list" where
  "le16 w = [word_of_nat (unat w mod 256), word_of_nat (unat w div 256)]"

definition get_le16 :: "byte list \<Rightarrow> u16" where
  "get_le16 bs = word_of_nat (unat (bs ! 0) + 256 * unat (bs ! 1))"

text \<open>\<open>NLA_ALIGN\<close> / \<open>NLMSG_ALIGN\<close>: round up to a multiple of 4.\<close>

definition nl_align :: "nat \<Rightarrow> nat" where
  "nl_align n = (n + 3) div 4 * 4"

subsection \<open>Lemmas\<close>

lemma cstr_no_nul [simp]: "0 \<notin> set s \<Longrightarrow> cstr (s @ 0 # r) = s"
  by (induction s) (auto simp: cstr_def)

lemma cstr_all [simp]: "0 \<notin> set s \<Longrightarrow> cstr s = s"
  by (auto simp: cstr_def takeWhile_eq_all_conv)

lemma cstr_prefix: "\<exists>r. buf = cstr buf @ r"
  by (metis cstr_def takeWhile_dropWhile_id)

lemma cstr_nul_hd [simp]: "cstr (0 # r) = []"
  by (simp add: cstr_def)

lemma cstr_append: "cstr (xs @ ys) = (if 0 \<in> set xs then cstr xs else xs @ cstr ys)"
  by (induction xs) (auto simp: cstr_def)

lemma cstr_nul_free: "0 \<notin> set (cstr buf)"
  by (auto simp: cstr_def dest: set_takeWhileD)

lemma cstr_split: "0 \<in> set buf \<Longrightarrow> \<exists>r. buf = cstr buf @ 0 # r"
  by (induction buf) (auto simp: cstr_def)

lemma cstr_Nil_iff: "cstr buf = [] \<longleftrightarrow> buf = [] \<or> hd buf = 0"
  by (cases buf) (auto simp: cstr_def)

lemma unat_of_char_byte: "unat (of_char c :: byte) = of_char c"
proof -
  have "(of_char c :: byte) = word_of_nat (of_char c)"
    by (simp add: of_nat_of_char)
  then show ?thesis
    by (simp add: unat_of_nat nat_of_char_less_256)
qed

lemma of_char_byte_eq_0 [simp]: "(of_char c :: byte) = 0 \<longleftrightarrow> c = CHR 0x00"
proof -
  have "(of_char c :: byte) = 0 \<longleftrightarrow> unat (of_char c :: byte) = 0"
    by (simp add: unat_eq_zero)
  also have "\<dots> \<longleftrightarrow> (of_char c :: nat) = of_char (CHR 0x00)"
    by (simp add: unat_of_char_byte)
  also have "\<dots> \<longleftrightarrow> c = CHR 0x00"
    by (rule of_char_eq_iff)
  finally show ?thesis .
qed

lemma bytes_nul_free [simp]: "(0::byte) \<in> of_char ` A \<longleftrightarrow> CHR 0x00 \<in> A"
  by (auto simp: image_iff)

lemma cstr_bytes [simp]: "CHR 0x00 \<notin> set s \<Longrightarrow> cstr (bytes s) = bytes s"
  by simp

lemma length_strncpy [simp]: "n \<le> length dest \<Longrightarrow> length (strncpy dest src n) = length dest"
  by (simp add: strncpy_def)

lemma strncpy_prefix: "length (cstr src) < n \<Longrightarrow>
  strncpy dest src n = cstr src @ replicate (n - length (cstr src)) 0 @ drop n dest"
  by (simp add: strncpy_def)

lemma unat_byte_of_nat [simp]: "m < 256 \<Longrightarrow> unat (word_of_nat m :: byte) = m"
  by (simp add: unat_of_nat)

lemma unat_u16_of_nat [simp]: "m < 65536 \<Longrightarrow> unat (word_of_nat m :: u16) = m"
  by (simp add: unat_of_nat)

lemma length_le16 [simp]: "length (le16 w) = 2"
  by (simp add: le16_def)

lemma get_le16_le16 [simp]: "get_le16 (le16 w @ r) = w"
proof -
  have u: "unat w < 65536"
    using unsigned_less [of w] by simp
  then show ?thesis
    by (simp add: get_le16_def le16_def nth_append)
qed

lemma nl_align_ge: "n \<le> nl_align n"
  by (simp add: nl_align_def)

lemma nl_align_dvd: "4 dvd nl_align n"
  by (simp add: nl_align_def)

lemma nl_align_less: "nl_align n < n + 4"
  by (simp add: nl_align_def)

lemma nl_align_aligned [simp]: "4 dvd n \<Longrightarrow> nl_align n = n"
  by (auto simp: nl_align_def)

text \<open>Unsigned 64-bit subtraction and the sign bit, for jiffies arithmetic.\<close>

lemma bit63_unat: "bit (w::u64) 63 \<longleftrightarrow> 2 ^ 63 \<le> unat w"
proof -
  have lt: "unat w < 2 ^ 64"
    using unsigned_less [of w] by simp
  have "bit w 63 \<longleftrightarrow> bit (unat w) 63"
    by (simp add: bit_unsigned_iff)
  also have "\<dots> \<longleftrightarrow> odd (unat w div 2 ^ 63)"
    by (simp add: bit_iff_odd)
  also have "\<dots> \<longleftrightarrow> 2 ^ 63 \<le> unat w"
  proof -
    have "unat w div 2 ^ 63 < 2"
      using lt by (simp add: div_less_iff_less_mult)
    then have "unat w div 2 ^ 63 = 0 \<or> unat w div 2 ^ 63 = 1"
      by linarith
    then have "odd (unat w div 2 ^ 63) \<longleftrightarrow> 0 < unat w div 2 ^ 63"
      by auto
    then show ?thesis
      by (simp add: div_greater_zero_iff)
  qed
  finally show ?thesis .
qed

lemma unat_u64_sub:
  assumes "k < 2 ^ 64" "m < 2 ^ 64"
  shows "unat (word_of_nat k - word_of_nat m :: u64) = (if m \<le> k then k - m else 2 ^ 64 + k - m)"
proof -
  have uk: "uint (word_of_nat k :: u64) = int k" and um: "uint (word_of_nat m :: u64) = int m"
    using assms by (simp_all add: uint_nat unat_of_nat)
  show ?thesis
    by (simp add: unat_eq_nat_uint uint_sub_if' uk um nat_diff_distrib' nat_add_distrib) linarith
qed

end
