(* ===== verification/Genl_Defs.thy ===== *)
theory Genl_Defs
  imports Genl_Prelude
begin

text \<open>
  The wire contract both peers share, \<open>src/genl_ex.h\<close>: the family and group
  names, the command and attribute numbers, the one attribute policy, and the
  netlink attribute-policy vocabulary of the two netlink implementations the
  header is compiled against (libnl's \<open>maxlen\<close> in user space, the kernel's
  \<open>len\<close> under \<open>__KERNEL__\<close>).
\<close>

definition GENL_TEST_FAMILY_NAME :: string where
  [genl_consts]: "GENL_TEST_FAMILY_NAME = ''genl_test''"

definition GENL_TEST_MCGRP0_NAME :: string where
  [genl_consts]: "GENL_TEST_MCGRP0_NAME = ''genl_mcgrp0''"

definition GENL_TEST_MCGRP1_NAME :: string where
  [genl_consts]: "GENL_TEST_MCGRP1_NAME = ''genl_mcgrp1''"

definition GENL_TEST_MCGRP2_NAME :: string where
  [genl_consts]: "GENL_TEST_MCGRP2_NAME = ''genl_mcgrp2''"

definition GENL_TEST_ATTR_MSG_MAX :: nat where
  [genl_consts]: "GENL_TEST_ATTR_MSG_MAX = 256"

definition GENL_TEST_HELLO_INTERVAL :: nat where
  [genl_consts]: "GENL_TEST_HELLO_INTERVAL = 5000"

text \<open>The command enum: element 0 is reserved.\<close>

definition GENL_TEST_C_UNSPEC :: byte where
  [genl_consts]: "GENL_TEST_C_UNSPEC = 0"

definition GENL_TEST_C_MSG :: byte where
  [genl_consts]: "GENL_TEST_C_MSG = 1"

text \<open>The multicast group enum, as the \<open>unsigned int\<close> group numbers the
  kernel module passes around, and the group count.\<close>

definition GENL_TEST_MCGRP0 :: u32 where
  [genl_consts]: "GENL_TEST_MCGRP0 = 0"

definition GENL_TEST_MCGRP1 :: u32 where
  [genl_consts]: "GENL_TEST_MCGRP1 = 1"

definition GENL_TEST_MCGRP2 :: u32 where
  [genl_consts]: "GENL_TEST_MCGRP2 = 2"

definition GENL_TEST_MCGRP_MAX :: nat where
  [genl_consts]: "GENL_TEST_MCGRP_MAX = 3"

definition genl_test_mcgrp_names :: "string list" where
  [genl_consts]: "genl_test_mcgrp_names =
     [GENL_TEST_MCGRP0_NAME, GENL_TEST_MCGRP1_NAME, GENL_TEST_MCGRP2_NAME]"

text \<open>The attribute enum: element 0 is reserved, \<open>GENL_TEST_ATTR_MAX\<close> is the
  largest attribute number.\<close>

definition GENL_TEST_ATTR_UNSPEC :: nat where
  [genl_consts]: "GENL_TEST_ATTR_UNSPEC = 0"

definition GENL_TEST_ATTR_MSG :: nat where
  [genl_consts]: "GENL_TEST_ATTR_MSG = 1"

definition GENL_TEST_ATTR_MAX :: nat where
  [genl_consts]: "GENL_TEST_ATTR_MAX = 1"

text \<open>A \<open>struct nla_policy\<close> entry: its data type and its length bound (the
  field is called \<open>maxlen\<close> in libnl and \<open>len\<close> in the kernel; the header
  fills whichever exists).  An entry the initialiser does not name is all
  zero, that is \<open>NLA_UNSPEC\<close> with no bound.\<close>

datatype nla_data_type = NLA_UNSPEC | NLA_U8 | NLA_U16 | NLA_U32 | NLA_U64
  | NLA_STRING | NLA_FLAG | NLA_MSECS | NLA_NESTED

record nla_policy =
  pol_type :: nla_data_type
  pol_len :: nat

definition nla_policy_zero :: nla_policy where
  "nla_policy_zero = \<lparr>pol_type = NLA_UNSPEC, pol_len = 0\<rparr>"

definition genl_test_policy :: "nla_policy list" where
  [genl_consts]: "genl_test_policy =
     [nla_policy_zero, \<lparr>pol_type = NLA_STRING, pol_len = GENL_TEST_ATTR_MSG_MAX\<rparr>]"

lemmas genl_consts_simps [simp] =
  GENL_TEST_ATTR_MSG_MAX_def GENL_TEST_ATTR_MSG_def GENL_TEST_ATTR_UNSPEC_def
  GENL_TEST_ATTR_MAX_def GENL_TEST_MCGRP_MAX_def GENL_TEST_C_MSG_def GENL_TEST_C_UNSPEC_def

lemma genl_test_policy_length [simp]: "length genl_test_policy = GENL_TEST_ATTR_MAX + 1"
  by (simp add: genl_test_policy_def)

lemma genl_test_mcgrp_names_length [simp]: "length genl_test_mcgrp_names = GENL_TEST_MCGRP_MAX"
  by (simp add: genl_test_mcgrp_names_def)

lemma genl_test_mcgrp_names_distinct: "distinct genl_test_mcgrp_names"
  by (simp add: genl_consts)

end
