(* ===== verification/Client_Cli.thy ===== *)
theory Client_Cli
  imports Genl_Defs
begin

unbundle bit_operations_syntax

text \<open>
  Argument processing of the user-space client, \<open>src/genl_ex.c\<close> lines
  14--97: the three globals \<open>message\<close>, \<open>send_to_kernel\<close> and
  \<open>mcgroups\<close> as a record, \<open>add_group\<close>, the option loop of
  \<open>parse_cmd_line\<close> and its sanity checks.  The libc routines the code calls
  on its input (\<open>strtoul\<close> in base 10 and the \<open>strtok\<close> token walk) are
  modelled after the C standard, since a claim about the group mask depends
  on them.  \<open>getopt\<close> itself is not modelled: the input is the sequence of
  options it returns.
\<close>

subsection \<open>libc: strtoul and strtok\<close>

definition c_isspace :: "char \<Rightarrow> bool" where
  "c_isspace c \<longleftrightarrow> c \<in> {CHR '' '', CHR 0x09, CHR 0x0A, CHR 0x0B, CHR 0x0C, CHR 0x0D}"

definition c_isdigit :: "char \<Rightarrow> bool" where
  "c_isdigit c \<longleftrightarrow> (48::nat) \<le> of_char c \<and> of_char c \<le> (57::nat)"

definition digits_value :: "string \<Rightarrow> nat" where
  "digits_value ds = foldl (\<lambda>acc d. 10 * acc + (of_char d - 48)) 0 ds"

definition ULONG_MAX :: nat where
  "ULONG_MAX = 2 ^ 64 - 1"

text \<open>\<open>strtoul(s, NULL, 10)\<close>: leading white space, an optional sign, the
  longest run of decimal digits; no digits give 0; a value above
  \<open>ULONG_MAX\<close> gives \<open>ULONG_MAX\<close> (either sign); a minus sign negates in
  \<open>unsigned long\<close>.\<close>

definition strtoul :: "string \<Rightarrow> u64" where
  "strtoul s =
     (let s1 = dropWhile c_isspace s;
          neg = (s1 \<noteq> [] \<and> hd s1 = CHR ''-'');
          s2 = (if s1 \<noteq> [] \<and> (hd s1 = CHR ''-'' \<or> hd s1 = CHR ''+'') then tl s1 else s1);
          v = digits_value (takeWhile c_isdigit s2)
      in if ULONG_MAX < v then word_of_nat ULONG_MAX
         else if neg then - word_of_nat v else word_of_nat v)"

text \<open>The fields of a string separated by one delimiter, empty ones included.\<close>

fun split_on :: "char \<Rightarrow> string \<Rightarrow> string list" where
  "split_on d [] = [[]]"
| "split_on d (c # cs) =
     (if c = d then [] # split_on d cs
      else (let r = split_on d cs in (c # hd r) # tl r))"

text \<open>The successive results of \<open>strtok(s, ",")\<close>, \<open>strtok(NULL, ",")\<close>,
  \<dots> up to the first \<open>NULL\<close>: the non-empty fields.\<close>

definition strtok_tokens :: "string \<Rightarrow> string list" where
  "strtok_tokens s = filter (\<lambda>t. t \<noteq> []) (split_on CHR '','' s)"

subsection \<open>The client's globals and the outcome of argument processing\<close>

record client_state =
  message :: "byte list"
  send_to_kernel :: int
  mcgroups :: u32

text \<open>Static storage starts zeroed.\<close>

definition client_init :: client_state where
  "client_init = \<lparr>message = replicate GENL_TEST_ATTR_MSG_MAX 0, send_to_kernel = 0, mcgroups = 0\<rparr>"

text \<open>What the client prints before it exits: each diagnostic line of the
  source, and \<open>usage()\<close>.\<close>

datatype diag = D_usage | D_invalid_group u32 | D_unknown_option char
  | D_send_or_receive | D_nothing_to_do | D_what_message
  | D_no_sock | D_no_connect | D_no_family | D_no_group u32 | D_no_join u32
  | D_no_alloc | D_no_hdr | D_no_put | D_no_send

datatype exit_code = EXIT_SUCCESS | EXIT_FAILURE

text \<open>\<open>Fault\<close> is undefined behaviour that the code reaches (a NULL pointer
  handed to libc); \<open>Exit\<close> is a call of \<open>exit()\<close>; \<open>Cont\<close> is falling
  through to the next statement with the updated globals.\<close>

datatype 'a outcome = Exit exit_code "diag list" | Fault | Cont 'a

subsection \<open>add_group and parse_cmd_line\<close>

text \<open>\<open>add_group(char *group)\<close>: the token is converted with \<open>strtoul\<close>,
  truncated to \<open>unsigned int\<close>, range checked against
  \<open>GENL_TEST_MCGRP_MAX - 1\<close>, and its bit is set in the mask.  A NULL token
  (\<open>None\<close>) reaches \<open>strtoul(NULL, \<dots>)\<close>.\<close>

definition add_group :: "string option \<Rightarrow> client_state \<Rightarrow> client_state outcome" where
  "add_group g st =
     (case g of
        None \<Rightarrow> Fault
      | Some s \<Rightarrow>
          (let grp = (ucast (strtoul s) :: u32)
           in if of_nat (GENL_TEST_MCGRP_MAX - 1) < grp
              then Exit EXIT_FAILURE [D_invalid_group grp]
              else Cont (st\<lparr>mcgroups := mcgroups st OR push_bit (unat grp) 1\<rparr>)))"

text \<open>The \<open>while ((opt_val = strtok(NULL, ",")))\<close> loop.\<close>

fun add_group_list :: "string list \<Rightarrow> client_state \<Rightarrow> client_state outcome" where
  "add_group_list [] st = Cont st"
| "add_group_list (g # gs) st =
     (case add_group (Some g) st of Cont st' \<Rightarrow> add_group_list gs st' | r \<Rightarrow> r)"

text \<open>Option \<open>-l\<close>: the first \<open>strtok\<close> result is passed to \<open>add_group\<close>
  unchecked, then the loop.\<close>

definition opt_listen :: "string \<Rightarrow> client_state \<Rightarrow> client_state outcome" where
  "opt_listen optarg st =
     (case strtok_tokens optarg of
        [] \<Rightarrow> add_group None st
      | t # ts \<Rightarrow> (case add_group (Some t) st of Cont st' \<Rightarrow> add_group_list ts st' | r \<Rightarrow> r))"

text \<open>Option \<open>-m\<close>: \<open>strncpy(message, optarg, GENL_TEST_ATTR_MSG_MAX)\<close>,
  then \<open>message[GENL_TEST_ATTR_MSG_MAX - 1] = '\0'\<close>.\<close>

definition opt_message :: "string \<Rightarrow> client_state \<Rightarrow> client_state" where
  "opt_message optarg st =
     st\<lparr>message := (strncpy (message st) (bytes optarg) GENL_TEST_ATTR_MSG_MAX)
                     [GENL_TEST_ATTR_MSG_MAX - 1 := 0]\<rparr>"

text \<open>The values \<open>getopt(argc, argv, "hl:m:s")\<close> returns; \<open>Opt_other\<close> is
  any other return (\<open>'?'\<close> for an unknown option or a missing argument).\<close>

datatype cli_opt = Opt_h | Opt_l string | Opt_m string | Opt_s | Opt_other char

fun parse_opts :: "cli_opt list \<Rightarrow> client_state \<Rightarrow> client_state outcome" where
  "parse_opts [] st = Cont st"
| "parse_opts (Opt_h # os) st = Exit EXIT_SUCCESS [D_usage]"
| "parse_opts (Opt_l a # os) st =
     (case opt_listen a st of Cont st' \<Rightarrow> parse_opts os st' | r \<Rightarrow> r)"
| "parse_opts (Opt_m a # os) st = parse_opts os (opt_message a st)"
| "parse_opts (Opt_s # os) st = parse_opts os (st\<lparr>send_to_kernel := 1\<rparr>)"
| "parse_opts (Opt_other c # os) st = Exit EXIT_FAILURE [D_unknown_option c]"

text \<open>The three sanity checks after the option loop, in the source's order.\<close>

definition sanity_checks :: "client_state \<Rightarrow> client_state outcome" where
  "sanity_checks st =
     (if send_to_kernel st \<noteq> 0 \<and> mcgroups st \<noteq> 0 then Exit EXIT_FAILURE [D_send_or_receive, D_usage]
      else if send_to_kernel st = 0 \<and> mcgroups st = 0 then Exit EXIT_SUCCESS [D_nothing_to_do, D_usage]
      else if send_to_kernel st \<noteq> 0 \<and> message st ! 0 = 0 then Exit EXIT_FAILURE [D_what_message, D_usage]
      else Cont st)"

definition parse_cmd_line :: "cli_opt list \<Rightarrow> client_state outcome" where
  "parse_cmd_line opts =
     (case parse_opts opts client_init of Cont st \<Rightarrow> sanity_checks st | r \<Rightarrow> r)"

subsection \<open>Specification helpers\<close>

text \<open>The group number \<open>add_group\<close> computes from a token, and the abstract
  view of the mask: the set of group numbers whose bit is set.\<close>

abbreviation group_of :: "string \<Rightarrow> u32" where
  "group_of s \<equiv> ucast (strtoul s)"

definition groups_of_mask :: "u32 \<Rightarrow> nat set" where
  "groups_of_mask w = set (filter (bit w) [0..<32])"

text \<open>The decimal spelling of a number, to state what \<open>add_group\<close> does with
  a numeric token.\<close>

fun dec_string :: "nat \<Rightarrow> string" where
  "dec_string n =
     (if n < 10 then [char_of (48 + n)] else dec_string (n div 10) @ [char_of (48 + n mod 10)])"

declare dec_string.simps [simp del]

text \<open>The invariant of the client's globals during argument processing: the
  message buffer keeps its size and only bits of existing groups are set.\<close>

definition cli_inv :: "client_state \<Rightarrow> bool" where
  "cli_inv st \<longleftrightarrow> length (message st) = GENL_TEST_ATTR_MSG_MAX \<and>
                 groups_of_mask (mcgroups st) \<subseteq> {..<GENL_TEST_MCGRP_MAX}"

subsection \<open>Lemmas: the group mask\<close>

lemma add_group_valid [simp]:
  "group_of s \<le> 2 \<Longrightarrow>
   add_group (Some s) st = Cont (st\<lparr>mcgroups := mcgroups st OR push_bit (unat (group_of s)) 1\<rparr>)"
  by (simp add: add_group_def Let_def not_less)

lemma add_group_invalid [simp]:
  "2 < group_of s \<Longrightarrow> add_group (Some s) st = Exit EXIT_FAILURE [D_invalid_group (group_of s)]"
  by (simp add: add_group_def Let_def)

lemma groups_of_mask_set_bit:
  "k < 32 \<Longrightarrow> groups_of_mask (w OR 2 ^ k) = insert k (groups_of_mask w)"
  by (auto simp: groups_of_mask_def bit_simps)

lemma groups_of_mask_inj: "groups_of_mask v = groups_of_mask w \<Longrightarrow> v = w"
proof (rule bit_word_eqI)
  fix n assume eq: "groups_of_mask v = groups_of_mask w" and n: "n < LENGTH(32)"
  then show "bit v n = bit w n"
    using eq by (auto simp: groups_of_mask_def set_eq_iff)
qed

lemma unat_le2: "(g :: u32) \<le> 2 \<Longrightarrow> unat g < 3"
  by unat_arith

lemma add_group_list_groups:
  assumes "\<forall>g\<in>set gs. group_of g \<le> 2"
  shows "\<exists>st'. add_group_list gs st = Cont st' \<and> st'\<lparr>mcgroups := mcgroups st\<rparr> = st \<and>
           groups_of_mask (mcgroups st') = groups_of_mask (mcgroups st) \<union> (\<lambda>g. unat (group_of g)) ` set gs"
  using assms
proof (induction gs arbitrary: st)
  case Nil
  then show ?case by simp
next
  case (Cons g gs)
  let ?st1 = "st\<lparr>mcgroups := mcgroups st OR 2 ^ unat (group_of g)\<rparr>"
  from Cons.prems have g: "group_of g \<le> 2" and gs: "\<forall>g\<in>set gs. group_of g \<le> 2"
    by auto
  from Cons.IH [OF gs] obtain st' where r: "add_group_list gs ?st1 = Cont st'"
    and f: "st'\<lparr>mcgroups := mcgroups ?st1\<rparr> = ?st1"
    and m: "groups_of_mask (mcgroups st') = groups_of_mask (mcgroups ?st1) \<union> (\<lambda>g. unat (group_of g)) ` set gs"
    by blast
  have "add_group_list (g # gs) st = Cont st'"
    using g r by simp
  moreover have "st'\<lparr>mcgroups := mcgroups st\<rparr> = st"
    using f by (cases st, cases st') simp
  moreover have "groups_of_mask (mcgroups st') = groups_of_mask (mcgroups st) \<union> (\<lambda>g. unat (group_of g)) ` set (g # gs)"
    using m g unat_le2 [OF g] by (simp add: groups_of_mask_set_bit)
  ultimately show ?case by blast
qed

lemma add_group_list_set:
  assumes "\<forall>g\<in>set gs. group_of g \<le> 2" "\<forall>g\<in>set hs. group_of g \<le> 2"
    and "group_of ` set gs = group_of ` set hs"
  shows "add_group_list gs st = add_group_list hs st"
proof -
  obtain s1 where 1: "add_group_list gs st = Cont s1" "s1\<lparr>mcgroups := mcgroups st\<rparr> = st"
    "groups_of_mask (mcgroups s1) = groups_of_mask (mcgroups st) \<union> (\<lambda>g. unat (group_of g)) ` set gs"
    using add_group_list_groups [OF assms(1)] by blast
  obtain s2 where 2: "add_group_list hs st = Cont s2" "s2\<lparr>mcgroups := mcgroups st\<rparr> = st"
    "groups_of_mask (mcgroups s2) = groups_of_mask (mcgroups st) \<union> (\<lambda>g. unat (group_of g)) ` set hs"
    using add_group_list_groups [OF assms(2)] by blast
  have img: "(\<lambda>g. unat (group_of g)) ` set xs = unat ` group_of ` set xs" for xs :: "string list"
    by (simp add: image_image)
  have m: "mcgroups s1 = mcgroups s2"
    using 1(3) 2(3) assms(3) by (intro groups_of_mask_inj) (simp only: img)
  have "s1 = (s1\<lparr>mcgroups := mcgroups st\<rparr>)\<lparr>mcgroups := mcgroups s1\<rparr>"
    by simp
  also have "\<dots> = (s2\<lparr>mcgroups := mcgroups st\<rparr>)\<lparr>mcgroups := mcgroups s2\<rparr>"
    using 1(2) 2(2) m by simp
  also have "\<dots> = s2"
    by simp
  finally show ?thesis
    using 1(1) 2(1) by simp
qed

lemma add_group_list_first_invalid:
  assumes "\<exists>g\<in>set gs. 2 < group_of g"
  shows "\<exists>d. add_group_list gs st = Exit EXIT_FAILURE [D_invalid_group d] \<and> 2 < d"
  using assms
proof (induction gs arbitrary: st)
  case Nil
  then show ?case by simp
next
  case (Cons g gs)
  show ?case
  proof (cases "2 < group_of g")
    case True
    then show ?thesis by simp
  next
    case False
    with Cons.prems have "\<exists>g\<in>set gs. 2 < group_of g" by auto
    with False Cons.IH show ?thesis by (simp add: not_less)
  qed
qed

lemma opt_listen_tokens:
  "strtok_tokens a \<noteq> [] \<Longrightarrow> opt_listen a st = add_group_list (strtok_tokens a) st"
  by (auto simp: opt_listen_def neq_Nil_conv split: outcome.split)

subsection \<open>Lemmas: strtoul on decimal numerals\<close>

lemma dec_string_digits: "\<forall>c\<in>set (dec_string n). c_isdigit c"
  by (induction n rule: dec_string.induct) (subst dec_string.simps, auto simp: c_isdigit_def)

lemma dec_string_value: "digits_value (dec_string n) = n"
proof (induction n rule: dec_string.induct)
  case (1 n)
  show ?case
  proof (cases "n < 10")
    case True
    then show ?thesis by (subst dec_string.simps) (simp add: digits_value_def)
  next
    case False
    then have "digits_value (dec_string (n div 10)) = n div 10"
      using "1.IH" by simp
    with False show ?thesis
      by (subst dec_string.simps) (simp add: digits_value_def)
  qed
qed

lemma c_isdigit_not_space: "c_isdigit c \<Longrightarrow> \<not> c_isspace c"
  by (auto simp: c_isdigit_def c_isspace_def)

lemma c_isdigit_not_sign: "c_isdigit c \<Longrightarrow> c \<noteq> CHR ''-'' \<and> c \<noteq> CHR ''+''"
  by (auto simp: c_isdigit_def)

lemma dec_string_not_Nil: "dec_string n \<noteq> []"
  by (subst dec_string.simps) simp

lemma dec_string_no_space: "dropWhile c_isspace (dec_string n) = dec_string n"
  using dec_string_digits [of n] dec_string_not_Nil [of n]
  by (cases "dec_string n") (auto dest: c_isdigit_not_space)

lemma dec_string_no_sign: "hd (dec_string n) \<noteq> CHR ''-'' \<and> hd (dec_string n) \<noteq> CHR ''+''"
  using dec_string_digits [of n] dec_string_not_Nil [of n]
  by (cases "dec_string n") (auto dest: c_isdigit_not_sign)

lemma strtoul_dec_string:
  assumes "n \<le> ULONG_MAX"
  shows "strtoul (dec_string n) = word_of_nat n"
proof -
  have tw: "takeWhile c_isdigit (dec_string n) = dec_string n"
    using dec_string_digits [of n] by (simp add: takeWhile_eq_all_conv)
  have neg: "\<not> (dec_string n \<noteq> [] \<and> hd (dec_string n) = CHR ''-'')"
    using dec_string_no_sign by blast
  have sg: "\<not> (dec_string n \<noteq> [] \<and> (hd (dec_string n) = CHR ''-'' \<or> hd (dec_string n) = CHR ''+''))"
    using dec_string_no_sign by blast
  show ?thesis
    unfolding strtoul_def Let_def dec_string_no_space
    using assms by (simp only: neg sg if_False tw dec_string_value not_less [symmetric] simp_thms)
qed

lemma ucast_u64_of_nat: "n < 2 ^ 64 \<Longrightarrow> (ucast (word_of_nat n :: u64) :: u32) = word_of_nat n"
  by (simp add: unsigned_of_nat take_bit_nat_eq_self)

subsection \<open>Lemmas: the message buffer and the invariant\<close>

lemma list_update_last: "length ys = Suc n \<Longrightarrow> ys[n := x] = take n ys @ [x]"
  by (cases ys rule: rev_exhaust) (auto simp: list_update_append)

lemma opt_message_buffer:
  assumes "CHR 0x00 \<notin> set a" and "length (message st) = GENL_TEST_ATTR_MSG_MAX"
  shows "message (opt_message a st) = take 255 (bytes a) @ 0 # replicate (255 - length a) 0"
proof -
  let ?xs = "take 256 (bytes a @ replicate 256 (0::byte))"
  have "?xs[255 := 0] = take 255 ?xs @ [0]"
    by (rule list_update_last) simp
  also have "take 255 ?xs = take 255 (bytes a) @ replicate (255 - length a) 0"
    by simp
  finally have "?xs[255 := 0] = take 255 (bytes a) @ 0 # replicate (255 - length a) 0"
    by (simp add: replicate_append_same)
  then show ?thesis
    using assms by (simp add: opt_message_def strncpy_def)
qed

lemma cli_inv_init: "cli_inv client_init"
  by (simp add: cli_inv_def client_init_def groups_of_mask_def)

lemma add_group_inv: "add_group g st = Cont st' \<Longrightarrow> cli_inv st \<Longrightarrow> cli_inv st'"
proof (cases g)
  case (Some s)
  assume r: "add_group g st = Cont st'" and inv: "cli_inv st"
  then have v: "group_of s \<le> 2"
    and st': "st' = st\<lparr>mcgroups := mcgroups st OR 2 ^ unat (group_of s)\<rparr>"
    using Some by (auto simp: add_group_def Let_def not_less split: if_splits)
  then show ?thesis
    using inv unat_le2 [OF v] by (simp add: cli_inv_def groups_of_mask_set_bit)
qed (simp add: add_group_def)

lemma add_group_list_inv: "add_group_list gs st = Cont st' \<Longrightarrow> cli_inv st \<Longrightarrow> cli_inv st'"
  by (induction gs arbitrary: st) (auto split: outcome.splits dest: add_group_inv)

lemma opt_listen_inv: "opt_listen a st = Cont st' \<Longrightarrow> cli_inv st \<Longrightarrow> cli_inv st'"
  by (auto simp: opt_listen_def split: list.splits outcome.splits dest: add_group_inv add_group_list_inv)

lemma opt_message_inv: "cli_inv st \<Longrightarrow> cli_inv (opt_message a st)"
  by (simp add: cli_inv_def opt_message_def)

lemma parse_opts_inv: "parse_opts os st = Cont st' \<Longrightarrow> cli_inv st \<Longrightarrow> cli_inv st'"
proof (induction os st rule: parse_opts.induct)
  case (3 a os st)
  then obtain st1 where l: "opt_listen a st = Cont st1" and r: "parse_opts os st1 = Cont st'"
    by (auto split: outcome.splits)
  from l "3.prems"(2) have "cli_inv st1" by (rule opt_listen_inv)
  with l r show ?case by (rule "3.IH")
next
  case (4 a os st)
  then show ?case by (simp add: opt_message_inv)
next
  case (5 os st)
  then show ?case by (simp add: cli_inv_def)
qed simp_all

lemmas cli_eval = parse_cmd_line_def opt_listen_def strtok_tokens_def add_group_def strtoul_def
  Let_def c_isspace_def c_isdigit_def digits_value_def ULONG_MAX_def sanity_checks_def client_init_def

subsection \<open>Properties of argument processing\<close>

text \<open>C1. Whenever argument processing falls through to the socket setup, the
  client is in exactly one of send mode and listen mode, a message is present
  in send mode, the message buffer keeps its 256 bytes and only the bits of
  the three existing groups are set in the mask.\<close>

theorem parse_cmd_line_mode:
  assumes "parse_cmd_line opts = Cont st"
  shows "cli_inv st \<and> (send_to_kernel st \<noteq> 0 \<longleftrightarrow> mcgroups st = 0) \<and>
         (send_to_kernel st \<noteq> 0 \<longrightarrow> cstr (message st) \<noteq> [])"
proof -
  obtain st0 where p: "parse_opts opts client_init = Cont st0"
    using assms by (cases "parse_opts opts client_init") (auto simp: parse_cmd_line_def)
  then have s: "sanity_checks st0 = Cont st"
    using assms by (simp add: parse_cmd_line_def)
  then have eq: "st = st0"
    by (simp add: sanity_checks_def split: if_splits)
  have inv: "cli_inv st0"
    using p cli_inv_init by (rule parse_opts_inv)
  then have "message st0 \<noteq> []"
    by (auto simp: cli_inv_def)
  then show ?thesis
    using s inv eq by (auto simp: sanity_checks_def cstr_Nil_iff hd_conv_nth split: if_splits)
qed

theorem parse_cmd_line_mode_witness:
  "parse_cmd_line [Opt_l ''0''] = Cont (client_init\<lparr>mcgroups := 1\<rparr>) \<and>
   cli_inv (client_init\<lparr>mcgroups := 1\<rparr>)"
proof -
  have r: "parse_cmd_line [Opt_l ''0''] = Cont (client_init\<lparr>mcgroups := 1\<rparr>)"
    by (simp add: cli_eval)
  then show ?thesis
    using parse_cmd_line_mode [OF r] by simp
qed

text \<open>C2. Option \<open>-l\<close> with a list of valid group numbers (each at most
  2) refines the set-of-groups view: the groups selected afterwards are the
  groups selected before plus exactly the listed ones, and nothing but the
  mask changes.\<close>

theorem opt_listen_groups:
  assumes "strtok_tokens a \<noteq> []" and "\<forall>g\<in>set (strtok_tokens a). group_of g \<le> 2"
  shows "\<exists>st'. opt_listen a st = Cont st' \<and> st'\<lparr>mcgroups := mcgroups st\<rparr> = st \<and>
           groups_of_mask (mcgroups st') =
             groups_of_mask (mcgroups st) \<union> (\<lambda>g. unat (group_of g)) ` set (strtok_tokens a)"
proof -
  obtain t ts where tk: "strtok_tokens a = t # ts"
    using assms(1) by (cases "strtok_tokens a") auto
  have "opt_listen a st = add_group_list (t # ts) st"
    by (simp add: opt_listen_def tk split: outcome.split)
  then show ?thesis
    using add_group_list_groups [OF assms(2)] tk by simp
qed

theorem opt_listen_groups_witness:
  "opt_listen ''0,2'' client_init = Cont (client_init\<lparr>mcgroups := 5\<rparr>) \<and>
   groups_of_mask 5 = {0, 2}"
proof -
  have t: "strtok_tokens ''0,2'' = [''0'', ''2'']"
    by (simp add: strtok_tokens_def)
  have v: "group_of ''0'' = 0" "group_of ''2'' = 2"
    by (simp_all add: cli_eval)
  obtain st' where r1: "opt_listen ''0,2'' client_init = Cont st'"
    and g: "groups_of_mask (mcgroups st') = groups_of_mask (mcgroups client_init) \<union> {0, 2}"
    using opt_listen_groups [of "''0,2''" client_init] t v by auto
  have r2: "opt_listen ''0,2'' client_init = Cont (client_init\<lparr>mcgroups := 5\<rparr>)"
    by (simp add: cli_eval)
  then have "mcgroups st' = 5"
    using r1 by auto
  moreover have "groups_of_mask (mcgroups client_init) = {}"
    by (simp add: client_init_def groups_of_mask_def)
  ultimately show ?thesis
    using r2 g by simp
qed

text \<open>C3. Repeating a group in \<open>-l\<close>, or listing the groups in another
  order, does not change the result: option \<open>-l\<close> depends only on the set
  of group numbers listed.\<close>

theorem opt_listen_idempotent:
  assumes "strtok_tokens a \<noteq> []" "strtok_tokens b \<noteq> []"
    and "\<forall>g\<in>set (strtok_tokens a). group_of g \<le> 2" "\<forall>g\<in>set (strtok_tokens b). group_of g \<le> 2"
    and "group_of ` set (strtok_tokens a) = group_of ` set (strtok_tokens b)"
  shows "opt_listen a st = opt_listen b st"
  using add_group_list_set [OF assms(3-5)] opt_listen_tokens [OF assms(1)] opt_listen_tokens [OF assms(2)]
  by simp

theorem opt_listen_idempotent_witness:
  "opt_listen ''0,2,0,2'' client_init = opt_listen ''2,0'' client_init"
proof -
  have t: "strtok_tokens ''0,2,0,2'' = [''0'', ''2'', ''0'', ''2'']" "strtok_tokens ''2,0'' = [''2'', ''0'']"
    by (simp_all add: strtok_tokens_def)
  have v: "group_of ''0'' = 0" "group_of ''2'' = 2"
    by (simp_all add: cli_eval)
  show ?thesis
    using opt_listen_idempotent [of "''0,2,0,2''" "''2,0''" client_init] t v by auto
qed

text \<open>C4. What \<open>add_group\<close> does with a decimal token of any value \<open>n\<close>
  up to \<open>ULONG_MAX\<close>: the value is truncated to \<open>unsigned int\<close> before the
  range check, so \<open>n\<close> is accepted as group \<open>n mod 2^32\<close> whenever that
  is at most 2 (4294967296 joins group 0), and rejected otherwise.\<close>

theorem add_group_decimal:
  assumes "n \<le> ULONG_MAX"
  shows "add_group (Some (dec_string n)) st =
    (if n mod 2 ^ 32 \<le> 2 then Cont (st\<lparr>mcgroups := mcgroups st OR push_bit (n mod 2 ^ 32) 1\<rparr>)
     else Exit EXIT_FAILURE [D_invalid_group (word_of_nat n)])"
proof -
  have lt: "n < 2 ^ 64"
    using assms by (simp add: ULONG_MAX_def)
  have g: "group_of (dec_string n) = word_of_nat n"
    using assms lt by (simp only: strtoul_dec_string ucast_u64_of_nat)
  have u: "unat (word_of_nat n :: u32) = n mod 2 ^ 32"
    by (simp add: unat_of_nat)
  have le: "(word_of_nat n :: u32) \<le> 2 \<longleftrightarrow> n mod 2 ^ 32 \<le> 2"
    by (simp add: word_le_nat_alt u)
  have lt2: "2 < (word_of_nat n :: u32) \<longleftrightarrow> 2 < n mod 2 ^ 32"
    by (simp add: word_less_nat_alt u)
  show ?thesis
    unfolding add_group_def Let_def option.case g
    using le lt2 u by (simp add: not_less)
qed

theorem add_group_decimal_witness:
  "add_group (Some ''4294967296'') client_init = Cont (client_init\<lparr>mcgroups := 1\<rparr>)"
proof -
  have d: "dec_string 4294967296 = ''4294967296''"
    by (simp add: dec_string.simps char_of_def bit_0)
  show ?thesis
    using add_group_decimal [of 4294967296 client_init] d
    by (simp add: ULONG_MAX_def client_init_def)
qed

text \<open>C5. Option \<open>-m\<close> keeps at most 255 bytes of its argument: the C
  string left in the 256-byte buffer is the first 255 bytes of the argument
  (all of it when shorter), always NUL-terminated inside the buffer.\<close>

theorem opt_message_truncates:
  assumes "CHR 0x00 \<notin> set a" and "length (message st) = GENL_TEST_ATTR_MSG_MAX"
  shows "cstr (message (opt_message a st)) = take 255 (bytes a) \<and>
         length (message (opt_message a st)) = GENL_TEST_ATTR_MSG_MAX"
proof -
  have "0 \<notin> set (bytes a)"
    using assms(1) by simp
  then have "0 \<notin> set (take 255 (bytes a))"
    by (meson in_set_takeD)
  then show ?thesis
    using opt_message_buffer [OF assms] by simp
qed

theorem opt_message_truncates_witness:
  "cstr (message (opt_message (replicate 300 CHR ''x'') client_init)) = replicate 255 (of_char CHR ''x'')"
  using opt_message_truncates [of "replicate 300 CHR ''x''" client_init]
  by (simp add: client_init_def)

text \<open>C6. A \<open>-l\<close> list holding a group number above 2 ends the program
  with \<open>EXIT_FAILURE\<close> and the "Invalid group number" diagnostic.\<close>

theorem opt_listen_invalid:
  assumes "\<exists>g\<in>set (strtok_tokens a). 2 < group_of g"
  shows "\<exists>d. opt_listen a st = Exit EXIT_FAILURE [D_invalid_group d] \<and> 2 < d"
proof -
  have "strtok_tokens a \<noteq> []"
    using assms by auto
  then show ?thesis
    using add_group_list_first_invalid [OF assms] opt_listen_tokens by simp
qed

theorem opt_listen_invalid_witness:
  "opt_listen ''1,7'' client_init = Exit EXIT_FAILURE [D_invalid_group 7]"
proof -
  have t: "strtok_tokens ''1,7'' = [''1'', ''7'']"
    by (simp add: strtok_tokens_def)
  have v: "group_of ''7'' = 7"
    by (simp add: cli_eval)
  obtain d where "opt_listen ''1,7'' client_init = Exit EXIT_FAILURE [D_invalid_group d]"
    using opt_listen_invalid [of "''1,7''" client_init] t v by auto
  moreover have "opt_listen ''1,7'' client_init = Exit EXIT_FAILURE [D_invalid_group 7]"
    by (simp add: cli_eval)
  ultimately show ?thesis by simp
qed

text \<open>C7. An argument of \<open>-l\<close> with no group in it (empty, or only
  commas) makes the first \<open>strtok\<close> return NULL, which \<open>add_group\<close>
  hands to \<open>strtoul\<close>: the client reaches undefined behaviour instead of
  reporting an invalid group.\<close>

theorem opt_listen_no_group:
  assumes "strtok_tokens a = []"
  shows "opt_listen a st = Fault"
  using assms by (simp add: opt_listen_def add_group_def)

theorem opt_listen_no_group_witness: "opt_listen '',,'' client_init = Fault"
  using opt_listen_no_group [of "'',,''" client_init] by (simp add: strtok_tokens_def)

end
