(* ===== verification/Genl_Attr.thy ===== *)
theory Genl_Attr
  imports Genl_Defs
begin

unbundle bit_operations_syntax

text \<open>
  The netlink attribute codec both peers use on the single attribute of
  \<open>src/genl_ex.h\<close>: the bytes \<open>nla_put\<close> / \<open>nla_put_string\<close> append
  (called at \<open>src/genl_ex.c\<close> line 122 and \<open>src/kernel/genl_ex.c\<close> line
  37), the attribute walk \<open>nla_for_each_attr\<close>, and \<open>nla_parse\<close> with its
  policy validation in its two implementations: libnl's, which the client
  runs from \<open>genlmsg_parse\<close> in \<open>print_rx_msg\<close>, and the kernel's (as of
  the 4.x kernels the module's \<open>genl_ops.policy\<close> field targets), which the
  generic-netlink core runs before \<open>genl_test_rx_msg\<close>.  These routines are
  library code, modelled after their sources; what the repository adds is
  the policy table they are run with.
\<close>

subsection \<open>Encoding\<close>

text \<open>\<open>NLA_HDRLEN\<close> is 4: a 16-bit length (header included) and a 16-bit type,
  in host order; the payload follows, padded with zero bytes to 4.\<close>

definition nla_total_size :: "nat \<Rightarrow> nat" where
  "nla_total_size n = nl_align (4 + n)"

definition nla_attr_bytes :: "u16 \<Rightarrow> byte list \<Rightarrow> byte list" where
  "nla_attr_bytes t d =
     le16 (word_of_nat (4 + length d)) @ le16 t @ d @
     replicate (nla_total_size (length d) - (4 + length d)) 0"

text \<open>\<open>nla_put_string(msg, type, str)\<close> is \<open>nla_put(msg, type,
  strlen(str) + 1, str)\<close>: the payload is the string and its terminator.\<close>

definition nla_string_payload :: "byte list \<Rightarrow> byte list" where
  "nla_string_payload buf = cstr buf @ [0]"

subsection \<open>The attribute walk\<close>

text \<open>\<open>nla_type()\<close> masks off \<open>NLA_F_NESTED\<close> and
  \<open>NLA_F_NET_BYTEORDER\<close> (the two top bits).\<close>

definition NLA_TYPE_MASK :: u16 where
  "NLA_TYPE_MASK = NOT 0xC000"

definition nla_type_of :: "u16 \<Rightarrow> nat" where
  "nla_type_of raw = unat (raw AND NLA_TYPE_MASK)"

text \<open>\<open>nla_ok(nla, rem)\<close>: a whole header fits, its length covers the header
  and does not run past the remaining bytes.\<close>

definition nla_ok :: "byte list \<Rightarrow> bool" where
  "nla_ok bs \<longleftrightarrow> 4 \<le> length bs \<and> 4 \<le> unat (get_le16 bs) \<and> unat (get_le16 bs) \<le> length bs"

text \<open>The attributes \<open>nla_for_each_attr\<close> visits, as (raw type, payload);
  \<open>nla_next\<close> steps over the aligned length.\<close>

function nla_walk :: "byte list \<Rightarrow> (u16 \<times> byte list) list" where
  "nla_walk bs =
     (if nla_ok bs
      then (get_le16 (drop 2 bs), take (unat (get_le16 bs) - 4) (drop 4 bs)) #
           nla_walk (drop (nl_align (unat (get_le16 bs))) bs)
      else [])"
  by pat_completeness auto
termination
proof (relation "measure length")
  fix bs :: "byte list"
  assume ok: "nla_ok bs"
  then have "4 \<le> nl_align (unat (get_le16 bs))"
    using nl_align_ge [of "unat (get_le16 bs)"] by (simp add: nla_ok_def)
  moreover have "4 \<le> length bs"
    using ok by (simp add: nla_ok_def)
  ultimately show "(drop (nl_align (unat (get_le16 bs))) bs, bs) \<in> measure length"
    by simp
qed simp

declare nla_walk.simps [simp del]

subsection \<open>Validation and parsing in libnl\<close>

datatype nl_err = NLE_NOMEM | NLE_INVAL | NLE_RANGE | NLE_MSG_TOOSHORT

text \<open>\<open>nla_attr_minlen[]\<close>: the least payload of each data type.\<close>

fun nla_attr_minlen :: "nla_data_type \<Rightarrow> nat" where
  "nla_attr_minlen NLA_U8 = 1"
| "nla_attr_minlen NLA_U16 = 2"
| "nla_attr_minlen NLA_U32 = 4"
| "nla_attr_minlen NLA_U64 = 8"
| "nla_attr_minlen NLA_STRING = 1"
| "nla_attr_minlen NLA_MSECS = 8"
| "nla_attr_minlen NLA_NESTED = 4"
| "nla_attr_minlen _ = 0"

text \<open>libnl's \<open>validate_nla\<close>: \<open>maxlen\<close> bounds the payload including the
  terminator, and a string must end in NUL.\<close>

definition nla_validate_user :: "nla_policy list \<Rightarrow> nat \<Rightarrow> nat \<Rightarrow> byte list \<Rightarrow> nl_err option" where
  "nla_validate_user pol maxtype t p =
     (if maxtype < t then None
      else (let pt = pol ! t;
                minlen = (if pol_type pt \<noteq> NLA_UNSPEC then nla_attr_minlen (pol_type pt) else 0)
            in if length p < minlen then Some NLE_RANGE
               else if pol_len pt \<noteq> 0 \<and> pol_len pt < length p then Some NLE_RANGE
               else if pol_type pt = NLA_STRING \<and> last p \<noteq> 0 then Some NLE_INVAL
               else None))"

text \<open>libnl's \<open>nla_parse\<close>: the table starts all NULL; an attribute above
  \<open>maxtype\<close> is skipped; the first one that fails validation ends the
  parse with the table filled so far; a later attribute of a type replaces an
  earlier one.\<close>

fun nla_parse_user_loop :: "nla_policy list \<Rightarrow> nat \<Rightarrow> (u16 \<times> byte list) list \<Rightarrow>
    byte list option list \<Rightarrow> nl_err option \<times> byte list option list" where
  "nla_parse_user_loop pol maxtype [] tb = (None, tb)"
| "nla_parse_user_loop pol maxtype ((raw, p) # as) tb =
     (let t = nla_type_of raw
      in if maxtype < t then nla_parse_user_loop pol maxtype as tb
         else (case nla_validate_user pol maxtype t p of
                 Some e \<Rightarrow> (Some e, tb)
               | None \<Rightarrow> nla_parse_user_loop pol maxtype as (tb[t := Some p])))"

definition nla_parse_user :: "nla_policy list \<Rightarrow> nat \<Rightarrow> byte list \<Rightarrow> nl_err option \<times> byte list option list" where
  "nla_parse_user pol maxtype bs = nla_parse_user_loop pol maxtype (nla_walk bs) (replicate (maxtype + 1) None)"

subsection \<open>Validation and parsing in the kernel\<close>

datatype errno = EINVAL | ERANGE | EMSGSIZE | ENOMEM | EOPNOTSUPP

text \<open>The kernel's \<open>validate_nla\<close>: for a string, \<open>len\<close> bounds the payload
  without a trailing NUL, and no NUL is required.\<close>

definition nla_validate_kernel :: "nla_policy list \<Rightarrow> nat \<Rightarrow> nat \<Rightarrow> byte list \<Rightarrow> errno option" where
  "nla_validate_kernel pol maxtype t p =
     (if t = 0 \<or> maxtype < t then None
      else (let pt = pol ! t
            in case pol_type pt of
                 NLA_FLAG \<Rightarrow> (if 0 < length p then Some ERANGE else None)
               | NLA_STRING \<Rightarrow>
                   (if length p < 1 then Some ERANGE
                    else if pol_len pt \<noteq> 0 \<and>
                            pol_len pt < (if last p = 0 then length p - 1 else length p)
                    then Some ERANGE else None)
               | NLA_NESTED \<Rightarrow>
                   (if length p = 0 then None
                    else if length p < (if pol_len pt \<noteq> 0 then pol_len pt else nla_attr_minlen NLA_NESTED)
                    then Some ERANGE else None)
               | ty \<Rightarrow>
                   (let minlen = (if pol_len pt \<noteq> 0 then pol_len pt
                                  else if ty \<noteq> NLA_UNSPEC then nla_attr_minlen ty else 0)
                    in if length p < minlen then Some ERANGE else None)))"

text \<open>The kernel's \<open>nla_parse\<close>: type 0 and types above \<open>maxtype\<close> are
  skipped without validation.\<close>

fun nla_parse_kernel_loop :: "nla_policy list \<Rightarrow> nat \<Rightarrow> (u16 \<times> byte list) list \<Rightarrow>
    byte list option list \<Rightarrow> errno option \<times> byte list option list" where
  "nla_parse_kernel_loop pol maxtype [] tb = (None, tb)"
| "nla_parse_kernel_loop pol maxtype ((raw, p) # as) tb =
     (let t = nla_type_of raw
      in if 0 < t \<and> t \<le> maxtype
         then (case nla_validate_kernel pol maxtype t p of
                 Some e \<Rightarrow> (Some e, tb)
               | None \<Rightarrow> nla_parse_kernel_loop pol maxtype as (tb[t := Some p]))
         else nla_parse_kernel_loop pol maxtype as tb)"

definition nla_parse_kernel :: "nla_policy list \<Rightarrow> nat \<Rightarrow> byte list \<Rightarrow> errno option \<times> byte list option list" where
  "nla_parse_kernel pol maxtype bs = nla_parse_kernel_loop pol maxtype (nla_walk bs) (replicate (maxtype + 1) None)"

text \<open>\<open>nla_get_string()\<close> / \<open>nla_data()\<close> printed with \<open>%s\<close>: the C string
  at the start of the payload.\<close>

definition nla_get_string :: "byte list \<Rightarrow> byte list" where
  "nla_get_string p = cstr p"

subsection \<open>Lemmas: the walk over encoded attributes\<close>

lemma length_nla_attr_bytes [simp]: "length (nla_attr_bytes t d) = nla_total_size (length d)"
  using nl_align_ge [of "4 + length d"] by (simp add: nla_attr_bytes_def nla_total_size_def)

lemma nla_walk_Nil [simp]: "nla_walk [] = []"
  by (subst nla_walk.simps) (simp add: nla_ok_def)

lemma nla_walk_attr:
  assumes "4 + length d < 65536"
  shows "nla_walk (nla_attr_bytes t d @ rest) = (t, d) # nla_walk rest"
proof -
  let ?pad = "replicate (nla_total_size (length d) - (4 + length d)) (0::byte)"
  let ?bs = "nla_attr_bytes t d @ rest"
  have ge: "4 + length d \<le> nla_total_size (length d)"
    using nl_align_ge [of "4 + length d"] by (simp add: nla_total_size_def)
  have bs: "?bs = le16 (word_of_nat (4 + length d)) @ (le16 t @ d @ ?pad @ rest)"
    by (simp add: nla_attr_bytes_def)
  have g: "get_le16 ?bs = word_of_nat (4 + length d)"
    by (simp only: bs get_le16_le16)
  have len: "unat (get_le16 ?bs) = 4 + length d"
    by (simp only: g unat_u16_of_nat [OF assms])
  have tyf: "get_le16 (drop 2 ?bs) = t"
    using bs by simp
  have pay: "take (unat (get_le16 ?bs) - 4) (drop 4 ?bs) = d"
    using len bs by simp
  have ok: "nla_ok ?bs"
    using len ge by (simp add: nla_ok_def)
  have rst: "drop (nl_align (unat (get_le16 ?bs))) ?bs = rest"
    using len by (simp add: nla_total_size_def [symmetric])
  show ?thesis
    by (subst nla_walk.simps) (simp only: ok tyf pay rst if_True)
qed

lemma nla_walk_single:
  "4 + length d < 65536 \<Longrightarrow> nla_walk (nla_attr_bytes t d) = [(t, d)]"
  using nla_walk_attr [of d t "[]"] by simp

subsection \<open>Lemmas: the policy of genl_ex.h under both validators\<close>

lemma nla_type_of_0 [simp]: "nla_type_of 0 = 0"
  by (simp add: nla_type_of_def)

lemma nla_type_of_1 [simp]: "nla_type_of 1 = 1"
  by (simp add: nla_type_of_def NLA_TYPE_MASK_def)

lemma nla_string_payload_len [simp]: "length (nla_string_payload buf) = Suc (length (cstr buf))"
  by (simp add: nla_string_payload_def)

lemma nla_string_payload_last [simp]: "last (nla_string_payload buf) = 0"
  by (simp add: nla_string_payload_def)

lemma nla_get_string_payload [simp]: "nla_get_string (nla_string_payload buf) = cstr buf"
  by (simp add: nla_get_string_def nla_string_payload_def cstr_nul_free)

lemma genl_test_policy_nth [simp]:
  "genl_test_policy ! 0 = nla_policy_zero"
  "genl_test_policy ! 1 = \<lparr>pol_type = NLA_STRING, pol_len = GENL_TEST_ATTR_MSG_MAX\<rparr>"
  by (simp_all add: genl_test_policy_def)

lemma nla_validate_user_msg:
  "nla_validate_user genl_test_policy GENL_TEST_ATTR_MAX GENL_TEST_ATTR_MSG p =
     (if length p < 1 then Some NLE_RANGE else if 256 < length p then Some NLE_RANGE
      else if last p \<noteq> 0 then Some NLE_INVAL else None)"
  by (simp add: nla_validate_user_def genl_test_policy_def)

lemma nla_validate_user_zero: "nla_validate_user genl_test_policy GENL_TEST_ATTR_MAX 0 p = None"
  by (simp add: nla_validate_user_def nla_policy_zero_def genl_test_policy_def)

lemma nla_validate_kernel_msg:
  "nla_validate_kernel genl_test_policy GENL_TEST_ATTR_MAX GENL_TEST_ATTR_MSG p =
     (if length p < 1 then Some ERANGE
      else if 256 < (if last p = 0 then length p - 1 else length p) then Some ERANGE else None)"
  by (simp add: nla_validate_kernel_def genl_test_policy_def)

subsection \<open>Lemmas: the parse loops\<close>

text \<open>The loop never reads the table: changing one entry of the start table
  changes only that entry of the result.\<close>

lemma nla_parse_user_loop_update:
  "fst (nla_parse_user_loop pol m as (tb[i := x])) = fst (nla_parse_user_loop pol m as tb) \<and>
   (j \<noteq> i \<longrightarrow> snd (nla_parse_user_loop pol m as (tb[i := x])) ! j = snd (nla_parse_user_loop pol m as tb) ! j)"
proof (induction as arbitrary: tb)
  case Nil
  then show ?case by simp
next
  case (Cons a as)
  obtain raw p where a: "a = (raw, p)" by (cases a)
  show ?case
  proof (cases "nla_type_of raw = i")
    case True
    then show ?thesis
      using Cons.IH a by (simp add: Let_def split: option.split)
  next
    case False
    then have "(tb[i := x])[nla_type_of raw := Some p] = (tb[nla_type_of raw := Some p])[i := x]"
      by (simp add: list_update_swap)
    then show ?thesis
      using Cons.IH a by (simp add: Let_def split: option.split)
  qed
qed

lemma nla_parse_kernel_loop_skip0:
  "nla_type_of raw = 0 \<Longrightarrow> nla_parse_kernel_loop pol m ((raw, p) # as) tb = nla_parse_kernel_loop pol m as tb"
  by simp

lemma nla_parse_user_loop_entry:
  "snd (nla_parse_user_loop pol m as tb) ! j = Some p \<Longrightarrow> j < length tb \<Longrightarrow>
   tb ! j = Some p \<or> (\<exists>raw. (raw, p) \<in> set as \<and> nla_type_of raw = j \<and> j \<le> m \<and> nla_validate_user pol m j p = None)"
proof (induction as arbitrary: tb)
  case Nil
  then show ?case by simp
next
  case (Cons a as)
  obtain raw q where a: "a = (raw, q)" by (cases a)
  show ?case
  proof (cases "m < nla_type_of raw")
    case True
    then show ?thesis using Cons a by auto
  next
    case False
    show ?thesis
    proof (cases "nla_validate_user pol m (nla_type_of raw) q")
      case None
      with False Cons.prems a have r: "snd (nla_parse_user_loop pol m as (tb[nla_type_of raw := Some q])) ! j = Some p"
        by (simp add: Let_def)
      from Cons.IH [OF r] Cons.prems(2) None False a show ?thesis
        by (cases "j = nla_type_of raw") auto
    next
      case (Some e)
      with False Cons.prems a show ?thesis by (simp add: Let_def)
    qed
  qed
qed

lemma nla_parse_user_loop_no_msg:
  "\<forall>(raw, p)\<in>set as. nla_type_of raw \<noteq> 1 \<Longrightarrow>
   fst (nla_parse_user_loop genl_test_policy 1 as tb) = None \<and>
   snd (nla_parse_user_loop genl_test_policy 1 as tb) ! 1 = tb ! 1"
proof (induction as arbitrary: tb)
  case Nil
  then show ?case by simp
next
  case (Cons a as)
  obtain raw q where a: "a = (raw, q)" by (cases a)
  show ?case
  proof (cases "1 < nla_type_of raw")
    case True
    then show ?thesis using Cons a by auto
  next
    case False
    with Cons.prems a have t0: "nla_type_of raw = 0" by auto
    have "nla_validate_user genl_test_policy 1 0 q = None"
      using nla_validate_user_zero [of q] by simp
    then show ?thesis
      using Cons t0 a by (simp add: Let_def)
  qed
qed

subsection \<open>Properties of the codec\<close>

text \<open>C8. Round trip in user space: the attribute \<open>nla_put_string\<close> writes
  for the C string of a buffer shorter than \<open>GENL_TEST_ATTR_MSG_MAX\<close> is
  accepted by libnl's \<open>nla_parse\<close> under \<open>genl_test_policy\<close>, fills
  exactly the \<open>GENL_TEST_ATTR_MSG\<close> entry, and \<open>nla_get_string\<close> reads
  back the original string.\<close>

theorem nla_string_roundtrip_user:
  assumes "length (cstr buf) < GENL_TEST_ATTR_MSG_MAX"
  shows "nla_parse_user genl_test_policy GENL_TEST_ATTR_MAX
           (nla_attr_bytes (of_nat GENL_TEST_ATTR_MSG) (nla_string_payload buf)) =
         (None, [None, Some (nla_string_payload buf)]) \<and>
         nla_get_string (nla_string_payload buf) = cstr buf"
proof -
  have w: "nla_walk (nla_attr_bytes 1 (nla_string_payload buf)) = [(1, nla_string_payload buf)]"
    using nla_walk_attr [of "nla_string_payload buf" 1 "[]"] assms by simp
  have v: "nla_validate_user genl_test_policy 1 1 (nla_string_payload buf) = None"
    using assms by (simp add: nla_validate_user_def genl_test_policy_def)
  show ?thesis
    using assms v by (simp add: nla_parse_user_def w)
qed

theorem nla_string_roundtrip_user_witness:
  "nla_parse_user genl_test_policy GENL_TEST_ATTR_MAX (nla_attr_bytes 1 (nla_string_payload (bytes ''ping''))) =
     (None, [None, Some (bytes ''ping'' @ [0])]) \<and>
   nla_get_string (nla_string_payload (bytes ''ping'')) = bytes ''ping''"
  using nla_string_roundtrip_user [of "bytes ''ping''"] by (simp add: nla_string_payload_def)

text \<open>C9. Round trip in the kernel: the generic-netlink core's \<open>nla_parse\<close>
  accepts the same attribute for every string of at most
  \<open>GENL_TEST_ATTR_MSG_MAX\<close> bytes and hands it to the command handler in
  the \<open>GENL_TEST_ATTR_MSG\<close> entry.\<close>

theorem nla_string_roundtrip_kernel:
  assumes "length (cstr buf) \<le> GENL_TEST_ATTR_MSG_MAX"
  shows "nla_parse_kernel genl_test_policy GENL_TEST_ATTR_MAX
           (nla_attr_bytes (of_nat GENL_TEST_ATTR_MSG) (nla_string_payload buf)) =
         (None, [None, Some (nla_string_payload buf)])"
proof -
  have v: "nla_validate_kernel genl_test_policy 1 1 (nla_string_payload buf) = None"
    using assms nla_validate_kernel_msg [of "nla_string_payload buf"] by simp
  show ?thesis
    using assms v by (simp add: nla_parse_kernel_def nla_walk_single)
qed

theorem nla_string_roundtrip_kernel_witness:
  "nla_parse_kernel genl_test_policy GENL_TEST_ATTR_MAX (nla_attr_bytes 1 (nla_string_payload (bytes ''ping''))) =
     (None, [None, Some (bytes ''ping'' @ [0])])"
  using nla_string_roundtrip_kernel [of "bytes ''ping''"] by (simp add: nla_string_payload_def)

text \<open>C10. An attribute stream with no attribute of type
  \<open>GENL_TEST_ATTR_MSG\<close> parses without error and leaves the message entry
  NULL: a missing message is the distinct condition "absent", not a parse
  error.\<close>

theorem nla_parse_user_absent:
  assumes "\<forall>(raw, p)\<in>set (nla_walk bs). nla_type_of raw \<noteq> GENL_TEST_ATTR_MSG"
  shows "fst (nla_parse_user genl_test_policy GENL_TEST_ATTR_MAX bs) = None \<and>
         snd (nla_parse_user genl_test_policy GENL_TEST_ATTR_MAX bs) ! GENL_TEST_ATTR_MSG = None"
  using nla_parse_user_loop_no_msg [of "nla_walk bs" "replicate 2 None"] assms
  by (simp add: nla_parse_user_def numeral_2_eq_2)

theorem nla_parse_user_absent_witness:
  "fst (nla_parse_user genl_test_policy GENL_TEST_ATTR_MAX (nla_attr_bytes 0 [7])) = None \<and>
   snd (nla_parse_user genl_test_policy GENL_TEST_ATTR_MAX (nla_attr_bytes 0 [7])) ! GENL_TEST_ATTR_MSG = None"
  using nla_parse_user_absent [of "nla_attr_bytes 0 [7]"] by (simp add: nla_walk_single)

text \<open>C11. What libnl's parse puts in the message entry comes from an
  attribute of type \<open>GENL_TEST_ATTR_MSG\<close> in the stream, holds 1 to 256
  bytes, and contains a NUL: the string \<open>print_rx_msg\<close> prints with
  \<open>%s\<close> ends inside the attribute.\<close>

theorem nla_parse_user_msg_sound:
  assumes "snd (nla_parse_user genl_test_policy GENL_TEST_ATTR_MAX bs) ! GENL_TEST_ATTR_MSG = Some p"
  shows "(\<exists>raw. (raw, p) \<in> set (nla_walk bs) \<and> nla_type_of raw = GENL_TEST_ATTR_MSG) \<and>
         1 \<le> length p \<and> length p \<le> GENL_TEST_ATTR_MSG_MAX \<and> (\<exists>r. p = nla_get_string p @ 0 # r)"
proof -
  obtain raw where w: "(raw, p) \<in> set (nla_walk bs)" "nla_type_of raw = 1"
    and v: "nla_validate_user genl_test_policy 1 1 p = None"
    using nla_parse_user_loop_entry [of genl_test_policy 1 "nla_walk bs" "replicate 2 None" 1 p] assms
    by (auto simp: nla_parse_user_def numeral_2_eq_2)
  have p: "1 \<le> length p" "length p \<le> 256" "last p = 0"
    using v nla_validate_user_msg [of p] by (auto simp: Suc_le_eq split: if_splits)
  then have "0 \<in> set p"
    by (metis last_in_set list.size(3) not_one_le_zero)
  then have "\<exists>r. p = nla_get_string p @ 0 # r"
    unfolding nla_get_string_def by (rule cstr_split)
  with w p show ?thesis by auto
qed

theorem nla_parse_user_msg_sound_witness:
  "snd (nla_parse_user genl_test_policy GENL_TEST_ATTR_MAX (nla_attr_bytes 1 [65, 0])) ! GENL_TEST_ATTR_MSG =
     Some [65, 0] \<and> nla_get_string [65, 0] = [65]"
proof -
  have v: "nla_validate_user genl_test_policy 1 1 [65, 0] = None"
    using nla_validate_user_msg [of "[65, 0]"] by simp
  have e: "snd (nla_parse_user genl_test_policy GENL_TEST_ATTR_MAX (nla_attr_bytes 1 [65, 0])) ! GENL_TEST_ATTR_MSG =
     Some [65, 0]"
    using v by (simp add: nla_parse_user_def nla_walk_single numeral_2_eq_2)
  obtain r where "[65, 0] = nla_get_string [65, 0] @ 0 # r"
    using nla_parse_user_msg_sound [OF e] by blast
  moreover have "nla_get_string [65, 0] = [65]"
    by (simp add: nla_get_string_def cstr_def)
  ultimately show ?thesis
    using e by simp
qed

text \<open>C12. Attribute number 0 is reserved: an attribute of type 0 in front of
  a stream changes neither the error nor the message entry of libnl's parse,
  and the kernel's parse skips it altogether.\<close>

theorem nla_parse_attr0:
  assumes "4 + length d < 65536"
  shows "fst (nla_parse_user genl_test_policy GENL_TEST_ATTR_MAX (nla_attr_bytes 0 d @ bs)) =
           fst (nla_parse_user genl_test_policy GENL_TEST_ATTR_MAX bs) \<and>
         snd (nla_parse_user genl_test_policy GENL_TEST_ATTR_MAX (nla_attr_bytes 0 d @ bs)) ! GENL_TEST_ATTR_MSG =
           snd (nla_parse_user genl_test_policy GENL_TEST_ATTR_MAX bs) ! GENL_TEST_ATTR_MSG \<and>
         nla_parse_kernel genl_test_policy GENL_TEST_ATTR_MAX (nla_attr_bytes 0 d @ bs) =
           nla_parse_kernel genl_test_policy GENL_TEST_ATTR_MAX bs"
proof -
  have v: "nla_validate_user genl_test_policy 1 0 d = None"
    using nla_validate_user_zero [of d] by simp
  have "replicate 2 (None :: byte list option) = [None, None]"
    by (simp add: numeral_2_eq_2)
  then have "fst (nla_parse_user genl_test_policy GENL_TEST_ATTR_MAX (nla_attr_bytes 0 d @ bs)) =
           fst (nla_parse_user genl_test_policy GENL_TEST_ATTR_MAX bs) \<and>
         snd (nla_parse_user genl_test_policy GENL_TEST_ATTR_MAX (nla_attr_bytes 0 d @ bs)) ! GENL_TEST_ATTR_MSG =
           snd (nla_parse_user genl_test_policy GENL_TEST_ATTR_MAX bs) ! GENL_TEST_ATTR_MSG"
    using nla_parse_user_loop_update [of genl_test_policy 1 "nla_walk bs" "[None, None]" 0 "Some d" 1]
      assms v by (simp add: nla_parse_user_def nla_walk_attr)
  moreover have "nla_parse_kernel genl_test_policy GENL_TEST_ATTR_MAX (nla_attr_bytes 0 d @ bs) =
           nla_parse_kernel genl_test_policy GENL_TEST_ATTR_MAX bs"
    using assms by (simp add: nla_parse_kernel_def nla_walk_attr)
  ultimately show ?thesis by blast
qed

theorem nla_parse_attr0_witness:
  "snd (nla_parse_user genl_test_policy GENL_TEST_ATTR_MAX (nla_attr_bytes 0 [7] @ nla_attr_bytes 1 [65, 0])) ! GENL_TEST_ATTR_MSG =
   snd (nla_parse_user genl_test_policy GENL_TEST_ATTR_MAX (nla_attr_bytes 1 [65, 0])) ! GENL_TEST_ATTR_MSG"
  using nla_parse_attr0 [of "[7]" "nla_attr_bytes 1 [65, 0]"] by simp

text \<open>C13. The one policy of \<open>genl_ex.h\<close> means two things: libnl rejects
  a 256-byte string with its terminator (\<open>maxlen\<close> counts the NUL) and a
  string without terminator, while the kernel accepts both (\<open>len\<close> does not
  count the NUL, and none is required).\<close>

theorem nla_validators_diverge:
  assumes "0 \<notin> set s" and "length s = GENL_TEST_ATTR_MSG_MAX"
  shows "fst (nla_parse_user genl_test_policy GENL_TEST_ATTR_MAX (nla_attr_bytes 1 (s @ [0]))) = Some NLE_RANGE \<and>
         nla_parse_kernel genl_test_policy GENL_TEST_ATTR_MAX (nla_attr_bytes 1 (s @ [0])) = (None, [None, Some (s @ [0])]) \<and>
         fst (nla_parse_user genl_test_policy GENL_TEST_ATTR_MAX (nla_attr_bytes 1 s)) = Some NLE_INVAL \<and>
         nla_parse_kernel genl_test_policy GENL_TEST_ATTR_MAX (nla_attr_bytes 1 s) = (None, [None, Some s])"
proof -
  have l2: "s \<noteq> []"
    using assms by auto
  have "last s \<in> set s"
    using l2 by (rule last_in_set)
  then have l: "last s \<noteq> 0" "s \<noteq> []"
    using assms(1) l2 by metis+
  have vu1: "nla_validate_user genl_test_policy 1 1 (s @ [0]) = Some NLE_RANGE"
    using assms nla_validate_user_msg [of "s @ [0]"] by simp
  have vk1: "nla_validate_kernel genl_test_policy 1 1 (s @ [0]) = None"
    using assms nla_validate_kernel_msg [of "s @ [0]"] by simp
  have vu2: "nla_validate_user genl_test_policy 1 1 s = Some NLE_INVAL"
    using assms l nla_validate_user_msg [of s] by simp
  have vk2: "nla_validate_kernel genl_test_policy 1 1 s = None"
    using assms l nla_validate_kernel_msg [of s] by simp
  show ?thesis
    using assms vu1 vk1 vu2 vk2
    by (simp add: nla_parse_user_def nla_parse_kernel_def nla_walk_single)
qed

theorem nla_validators_diverge_witness:
  "fst (nla_parse_user genl_test_policy GENL_TEST_ATTR_MAX (nla_attr_bytes 1 (replicate 256 65 @ [0]))) = Some NLE_RANGE \<and>
   nla_parse_kernel genl_test_policy GENL_TEST_ATTR_MAX (nla_attr_bytes 1 (replicate 256 65 @ [0])) =
     (None, [None, Some (replicate 256 65 @ [0])])"
  using nla_validators_diverge [of "replicate 256 65"] by simp

text \<open>Termination bound of the attribute walk: every step of
  \<open>nla_for_each_attr\<close> consumes at least one aligned header, so the walk
  over \<open>n\<close> bytes visits at most \<open>n div 4\<close> attributes.\<close>

theorem nla_walk_iterations: "length (nla_walk bs) \<le> length bs div 4"
proof (induction bs rule: nla_walk.induct)
  case (1 bs)
  show ?case
  proof (cases "nla_ok bs")
    case True
    let ?k = "nl_align (unat (get_le16 bs))"
    have k: "4 \<le> ?k" "4 \<le> length bs"
      using True nl_align_ge [of "unat (get_le16 bs)"] by (simp_all add: nla_ok_def)
    have "length (nla_walk bs) = Suc (length (nla_walk (drop ?k bs)))"
      using True by (simp add: nla_walk.simps [of bs])
    also have "\<dots> \<le> Suc ((length bs - ?k) div 4)"
      using "1.IH" True by simp
    also have "\<dots> \<le> length bs div 4"
      using k by (simp add: div_le_mono le_div_geq)
    finally show ?thesis .
  next
    case False
    then show ?thesis
      by (simp add: nla_walk.simps [of bs])
  qed
qed

end
