(* ===== verification/Genl_Msg.thy ===== *)
theory Genl_Msg
  imports Genl_Attr
begin

text \<open>
  Netlink messages as the byte buffers both peers build and read: the 16-byte
  \<open>struct nlmsghdr\<close>, the 4-byte \<open>struct genlmsghdr\<close>, then the
  attributes of \<open>Genl_Attr\<close>.  A buffer under construction (libnl's
  \<open>struct nl_msg\<close>, the kernel's \<open>struct sk_buff\<close>) is its bytes and its
  capacity.  The builders are the library calls the sources make:
  \<open>genlmsg_put\<close> and \<open>nla_put\<close> (\<open>src/genl_ex.c\<close> lines 115--122,
  \<open>src/kernel/genl_ex.c\<close> lines 31--37), \<open>genlmsg_end\<close> (line 43);
  \<open>genlmsg_parse\<close> (\<open>src/genl_ex.c\<close> line 147) reads a received message.
\<close>

subsection \<open>Headers\<close>

definition NLMSG_HDRLEN :: nat where "NLMSG_HDRLEN = 16"
definition GENL_HDRLEN :: nat where "GENL_HDRLEN = 4"

text \<open>\<open>nlmsg_flags\<close> bits.\<close>

definition NLM_F_REQUEST :: u16 where "NLM_F_REQUEST = 1"
definition NLM_F_ACK :: u16 where "NLM_F_ACK = 4"

record nlmsghdr =
  nlmsg_len :: u32
  nlmsg_type :: u16
  nlmsg_flags :: u16
  nlmsg_seq :: u32
  nlmsg_pid :: u32

definition le32 :: "u32 \<Rightarrow> byte list" where
  "le32 w = [word_of_nat (unat w mod 256), word_of_nat (unat w div 256 mod 256),
             word_of_nat (unat w div 65536 mod 256), word_of_nat (unat w div 16777216)]"

definition get_le32 :: "byte list \<Rightarrow> u32" where
  "get_le32 bs = word_of_nat (unat (bs ! 0) + 256 * unat (bs ! 1) + 65536 * unat (bs ! 2) +
                              16777216 * unat (bs ! 3))"

definition nlmsghdr_bytes :: "nlmsghdr \<Rightarrow> byte list" where
  "nlmsghdr_bytes h = le32 (nlmsg_len h) @ le16 (nlmsg_type h) @ le16 (nlmsg_flags h) @
                      le32 (nlmsg_seq h) @ le32 (nlmsg_pid h)"

definition get_nlmsghdr :: "byte list \<Rightarrow> nlmsghdr" where
  "get_nlmsghdr bs = \<lparr>nlmsg_len = get_le32 bs, nlmsg_type = get_le16 (drop 4 bs),
     nlmsg_flags = get_le16 (drop 6 bs), nlmsg_seq = get_le32 (drop 8 bs),
     nlmsg_pid = get_le32 (drop 12 bs)\<rparr>"

text \<open>Overwriting the length field, as \<open>nlmsg_end\<close> and libnl's
  \<open>nla_reserve\<close> do.\<close>

definition set_nlmsg_len :: "u32 \<Rightarrow> byte list \<Rightarrow> byte list" where
  "set_nlmsg_len l bs = le32 l @ drop 4 bs"

text \<open>The generic-netlink header: command, version, two reserved bytes.\<close>

definition genlmsghdr_bytes :: "byte \<Rightarrow> byte \<Rightarrow> byte list" where
  "genlmsghdr_bytes cmd version = [cmd, version, 0, 0]"

subsection \<open>Buffers under construction\<close>

record nl_buf =
  nb_data :: "byte list"
  nb_cap :: nat

text \<open>libnl: \<open>genlmsg_put(msg, port, seq, family, 0, flags, cmd, version)\<close>
  on a fresh message from \<open>nlmsg_alloc()\<close> (whose \<open>nlmsg_len\<close> is
  \<open>NLMSG_HDRLEN\<close>): \<open>nlmsg_put\<close> fills the header and reserves the aligned
  generic header; \<open>None\<close> is the NULL return when the buffer is too small.\<close>

definition genlmsg_put_user :: "nl_buf \<Rightarrow> u32 \<Rightarrow> u32 \<Rightarrow> u16 \<Rightarrow> u16 \<Rightarrow> byte \<Rightarrow> byte \<Rightarrow> nl_buf option" where
  "genlmsg_put_user m port seq family flags cmd version =
     (if nb_cap m < NLMSG_HDRLEN + nl_align GENL_HDRLEN then None
      else Some (m\<lparr>nb_data :=
        nlmsghdr_bytes \<lparr>nlmsg_len = of_nat (NLMSG_HDRLEN + GENL_HDRLEN), nlmsg_type = family,
                        nlmsg_flags = flags, nlmsg_seq = seq, nlmsg_pid = port\<rparr> @
        genlmsghdr_bytes cmd version\<rparr>))"

text \<open>libnl: \<open>nla_put(msg, type, len, data)\<close> through \<open>nla_reserve\<close>: the
  attribute goes at the aligned end of the message and \<open>nlmsg_len\<close> grows;
  \<open>-NLE_NOMEM\<close> when it does not fit.\<close>

definition nla_put_user :: "nl_buf \<Rightarrow> u16 \<Rightarrow> byte list \<Rightarrow> nl_err + nl_buf" where
  "nla_put_user m t d =
     (let tlen = nl_align (length (nb_data m)) + nla_total_size (length d)
      in if nb_cap m < tlen then Inl NLE_NOMEM
         else Inr (m\<lparr>nb_data := set_nlmsg_len (of_nat tlen)
                     (nb_data m @ replicate (nl_align (length (nb_data m)) - length (nb_data m)) 0 @
                      nla_attr_bytes t d)\<rparr>))"

text \<open>The kernel: \<open>genlmsg_new(payload, flags)\<close> gives an empty socket
  buffer with room for the headers and \<open>payload\<close> bytes; the allocation
  itself may fail, which the callers receive as the argument \<open>ok\<close>.\<close>

definition genlmsg_new :: "nat \<Rightarrow> bool \<Rightarrow> nl_buf option" where
  "genlmsg_new payload ok =
     (if ok then Some \<lparr>nb_data = [], nb_cap = nl_align (NLMSG_HDRLEN + nl_align (GENL_HDRLEN + payload))\<rparr>
      else None)"

text \<open>The kernel's \<open>genlmsg_put(skb, portid, seq, family, flags, cmd)\<close>:
  \<open>nlmsg_put\<close> with the family's id and the caller's \<open>flags\<close> argument
  truncated into the 16-bit header field, then the command and the family's
  version.\<close>

definition genlmsg_put_kernel :: "nl_buf \<Rightarrow> u32 \<Rightarrow> u32 \<Rightarrow> u16 \<Rightarrow> byte \<Rightarrow> int \<Rightarrow> byte \<Rightarrow> nl_buf option" where
  "genlmsg_put_kernel skb portid seq family_id family_version flags cmd =
     (if nb_cap skb - length (nb_data skb) < nl_align (NLMSG_HDRLEN + GENL_HDRLEN) then None
      else Some (skb\<lparr>nb_data := nb_data skb @
        nlmsghdr_bytes \<lparr>nlmsg_len = of_nat (NLMSG_HDRLEN + GENL_HDRLEN), nlmsg_type = family_id,
                        nlmsg_flags = word_of_int flags, nlmsg_seq = seq, nlmsg_pid = portid\<rparr> @
        genlmsghdr_bytes cmd family_version\<rparr>))"

text \<open>The kernel's \<open>nla_put\<close>: \<open>-EMSGSIZE\<close> when the tailroom is short of
  the attribute's total size; \<open>nlmsg_len\<close> is left to \<open>genlmsg_end\<close>.\<close>

definition nla_put_kernel :: "nl_buf \<Rightarrow> u16 \<Rightarrow> byte list \<Rightarrow> errno + nl_buf" where
  "nla_put_kernel skb t d =
     (if nb_cap skb - length (nb_data skb) < nla_total_size (length d) then Inl EMSGSIZE
      else Inr (skb\<lparr>nb_data := nb_data skb @ nla_attr_bytes t d\<rparr>))"

text \<open>\<open>genlmsg_end(skb, hdr)\<close>: the message length becomes everything written.\<close>

definition genlmsg_end :: "nl_buf \<Rightarrow> nl_buf" where
  "genlmsg_end skb = skb\<lparr>nb_data := set_nlmsg_len (of_nat (length (nb_data skb))) (nb_data skb)\<rparr>"

subsection \<open>Reading a received message\<close>

text \<open>libnl's \<open>genlmsg_parse(nlh, 0, tb, maxtype, policy)\<close>: a message too
  short for the generic header is refused before the table is touched
  (\<open>None\<close>: the caller's table keeps whatever it held); otherwise the
  attributes after the generic header are parsed.\<close>

definition genlmsg_parse_user :: "byte list \<Rightarrow> nat \<Rightarrow> nla_policy list \<Rightarrow>
    (nl_err option \<times> byte list option list) option" where
  "genlmsg_parse_user msg maxtype pol =
     (let l = unat (nlmsg_len (get_nlmsghdr msg))
      in if l < NLMSG_HDRLEN + GENL_HDRLEN then None
         else Some (nla_parse_user pol maxtype (take (l - (NLMSG_HDRLEN + GENL_HDRLEN)) (drop (NLMSG_HDRLEN + GENL_HDRLEN) msg))))"

subsection \<open>Well-formed messages\<close>

text \<open>A generic-netlink message as a receiver expects it (the checks of
  \<open>nlmsg_ok\<close> and \<open>genlmsg_valid_hdr\<close>, with the message filling its
  buffer): room for both headers, a length field equal to the number of
  bytes, and a length that is a multiple of the netlink alignment.\<close>

definition nlmsg_wf :: "byte list \<Rightarrow> bool" where
  "nlmsg_wf m \<longleftrightarrow> NLMSG_HDRLEN + GENL_HDRLEN \<le> length m \<and>
     unat (nlmsg_len (get_nlmsghdr m)) = length m \<and> 4 dvd length m"

subsection \<open>Header codec\<close>

lemma length_le32 [simp]: "length (le32 w) = 4"
  by (simp add: le32_def)

lemma le32_digits: "(x::nat) mod 256 + 256 * (x div 256 mod 256) + 65536 * (x div 65536 mod 256) +
    16777216 * (x div 16777216) = x"
proof -
  have a: "x = x mod 256 + 256 * (x div 256)"
    by simp
  have d1: "x div 65536 = x div 256 div 256"
    using div_mult2_eq [of x 256 256] by simp
  have d2: "x div 16777216 = x div 65536 div 256"
    using div_mult2_eq [of x 65536 256] by simp
  have b: "x div 256 = x div 256 mod 256 + 256 * (x div 65536)"
    unfolding d1 by simp
  have c: "x div 65536 = x div 65536 mod 256 + 256 * (x div 16777216)"
    unfolding d2 by simp
  show ?thesis
    using a b c by linarith
qed

lemma get_le32_le32 [simp]: "get_le32 (le32 w @ r) = w"
proof -
  have u: "unat w < 4294967296"
    using unsigned_less [of w] by simp
  then have "unat w div 16777216 < 256"
    by simp
  then show ?thesis
    by (simp add: get_le32_def le32_def nth_append le32_digits)
qed

lemma length_nlmsghdr_bytes [simp]: "length (nlmsghdr_bytes h) = 16"
  by (simp add: nlmsghdr_bytes_def)

lemma get_nlmsghdr_bytes [simp]: "get_nlmsghdr (nlmsghdr_bytes h @ r) = h"
  by (simp add: get_nlmsghdr_def nlmsghdr_bytes_def)

lemma set_nlmsg_len_hdr [simp]:
  "set_nlmsg_len l (nlmsghdr_bytes h @ r) = nlmsghdr_bytes (h\<lparr>nlmsg_len := l\<rparr>) @ r"
  by (simp add: set_nlmsg_len_def nlmsghdr_bytes_def)

subsection \<open>Well-formedness of built messages\<close>

lemma nlmsg_wf_hdr:
  "nlmsg_wf (nlmsghdr_bytes h @ r) \<longleftrightarrow>
     4 \<le> length r \<and> unat (nlmsg_len h) = 16 + length r \<and> 4 dvd (16 + length r)"
  by (auto simp: nlmsg_wf_def NLMSG_HDRLEN_def GENL_HDRLEN_def)

text \<open>What \<open>genlmsg_put\<close> and \<open>nla_put\<close> build in a fresh libnl message
  of at most a page is well-formed.\<close>

lemma nla_put_user_wf:
  assumes "genlmsg_put_user msg port seq fam flags cmd ver = Some m1" "nla_put_user m1 t p = Inr m2"
    "nb_cap msg \<le> 4096"
  shows "nlmsg_wf (nb_data m2)"
proof -
  let ?h = "\<lparr>nlmsg_len = of_nat (NLMSG_HDRLEN + GENL_HDRLEN), nlmsg_type = fam,
             nlmsg_flags = flags, nlmsg_seq = seq, nlmsg_pid = port\<rparr>"
  have d1: "nb_data m1 = nlmsghdr_bytes ?h @ [cmd, ver, 0, 0]" "nb_cap m1 = nb_cap msg"
    using assms(1) by (auto simp: genlmsg_put_user_def genlmsghdr_bytes_def split: if_splits)
  let ?tlen = "nl_align 20 + nla_total_size (length p)"
  have a20: "nl_align 20 = 20"
    by (simp add: nl_align_def)
  have cap: "?tlen \<le> 4096" and d2: "nb_data m2 = set_nlmsg_len (of_nat ?tlen)
      (nb_data m1 @ replicate (nl_align (length (nb_data m1)) - length (nb_data m1)) 0 @ nla_attr_bytes t p)"
    using assms(2,3) d1 by (auto simp: nla_put_user_def Let_def NLMSG_HDRLEN_def
                                       GENL_HDRLEN_def genlmsghdr_bytes_def split: if_splits)
  have u: "unat (word_of_nat (20 + nla_total_size (length p)) :: u32) = 20 + nla_total_size (length p)"
    using cap by (subst unat_of_nat) (simp add: a20)
  have "4 dvd nla_total_size (length p)"
    by (simp add: nla_total_size_def nl_align_dvd)
  then show ?thesis
    using u d1 unfolding d2
    by (simp add: a20 nlmsg_wf_hdr NLMSG_HDRLEN_def GENL_HDRLEN_def genlmsghdr_bytes_def nla_total_size_def
                  nl_align_ge)
qed

end
