(* ===== verification/Genl_Server.thy ===== *)
theory Genl_Server
  imports Genl_Msg
begin

text \<open>
  The kernel module \<open>src/kernel/genl_ex.c\<close>.  Its module-scoped state (the
  timer, the registered \<open>genl_test_family\<close>) together with the parts of the
  kernel it acts on (jiffies, the socket buffers it holds, the multicasts it
  hands to netlink, the kernel log) is the record \<open>kstate\<close>.  Each function
  of the module is one definition over it; the kernel's choices the module
  cannot see (whether an atomic allocation succeeds, which family id and
  group offset registration assigns) are arguments.  The configuration
  constants of the kernel the module is built against (the value of
  \<open>GFP_ATOMIC\<close>, \<open>HZ\<close>, \<open>NLMSG_DEFAULT_SIZE\<close>) are those of Linux 4.14
  on x86-64.
\<close>

subsection \<open>Kernel configuration\<close>

definition GFP_ATOMIC :: int where
  "GFP_ATOMIC = 0x1080020"

definition HZ :: nat where
  "HZ = 250"

definition NLMSG_DEFAULT_SIZE :: nat where
  "NLMSG_DEFAULT_SIZE = 3760"

text \<open>\<open>msecs_to_jiffies\<close>, rounding up.\<close>

definition msecs_to_jiffies :: "nat \<Rightarrow> u64" where
  "msecs_to_jiffies m = of_nat ((m * HZ + 999) div 1000)"

text \<open>\<open>time_after_eq(a, b)\<close>: \<open>(long)((a) - (b)) >= 0\<close>.\<close>

definition time_after_eq :: "u64 \<Rightarrow> u64 \<Rightarrow> bool" where
  "time_after_eq a b \<longleftrightarrow> 0 \<le> sint (a - b)"

subsection \<open>The module's static data\<close>

text \<open>\<open>genl_test_family\<close>: version 1, \<open>GENL_TEST_ATTR_MAX\<close> attributes, the
  three groups of \<open>genl_test_mcgrps\<close>.\<close>

definition genl_test_family_version :: byte where
  "genl_test_family_version = 1"

definition genl_test_mcgrps :: "string list" where
  "genl_test_mcgrps = [GENL_TEST_MCGRP0_NAME, GENL_TEST_MCGRP1_NAME, GENL_TEST_MCGRP2_NAME]"

text \<open>What the kernel log receives from the module.\<close>

datatype klog = KL_init | KL_init_failed | KL_oom nat | KL_hdr_err nat | KL_put_err nat errno
  | KL_empty u32 | KL_null_attr | KL_says u32 "byte list option"

record kstate =
  ks_loaded :: bool
  ks_registered :: bool
  ks_fam_id :: u16
  ks_mcgrp_offset :: u32
  ks_timer_pending :: bool
  ks_timer_expires :: u64
  ks_jiffies :: u64
  ks_skbs :: nat
  ks_out :: "(u32 \<times> byte list) list"
  ks_log :: "klog list"

text \<open>\<open>mod_timer(&timer, expires)\<close> and \<open>del_timer(&timer)\<close>.\<close>

definition mod_timer :: "u64 \<Rightarrow> kstate \<Rightarrow> kstate" where
  "mod_timer e s = s\<lparr>ks_timer_pending := True, ks_timer_expires := e\<rparr>"

definition del_timer :: "kstate \<Rightarrow> kstate" where
  "del_timer s = s\<lparr>ks_timer_pending := False\<rparr>"

text \<open>\<open>snprintf(buf, n, \<dots>)\<close>: at most \<open>n - 1\<close> bytes of the formatted text
  and a terminator.\<close>

definition snprintf_buf :: "nat \<Rightarrow> byte list \<Rightarrow> byte list" where
  "snprintf_buf n text = take (n - 1) text @ [0]"

text \<open>The text \<open>greet_group\<close> formats: \<open>"Hello group %s\n"\<close> with the
  group's name.\<close>

definition hello_text :: "u32 \<Rightarrow> byte list" where
  "hello_text grp = bytes (''Hello group '' @ genl_test_mcgrp_names ! unat grp @ ''\<newline>'')"

text \<open>\<open>genlmsg_multicast(&genl_test_family, skb, 0, group, flags)\<close>: a group
  beyond the family's groups is refused with a warning (and the buffer is
  not released); otherwise the buffer goes to the family's group offset plus
  \<open>group\<close> and is consumed.\<close>

definition genlmsg_multicast :: "nl_buf \<Rightarrow> u32 \<Rightarrow> kstate \<Rightarrow> kstate" where
  "genlmsg_multicast skb grp s =
     (if of_nat (length genl_test_mcgrps) \<le> grp then s
      else s\<lparr>ks_out := ks_out s @ [(ks_mcgrp_offset s + grp, nb_data skb)], ks_skbs := ks_skbs s - 1\<rparr>)"

text \<open>\<open>greet_group(group)\<close>, lines 15--51.  \<open>allocs\<close> are the outcomes of
  its two \<open>genlmsg_new\<close> calls (line 20 and line 24).  On every failure
  path the code logs, cancels the header and frees the buffer of line 24;
  the buffer of line 20 is never used nor freed.\<close>

definition greet_group :: "bool \<times> bool \<Rightarrow> u32 \<Rightarrow> kstate \<Rightarrow> kstate" where
  "greet_group allocs grp s =
     (let s1 = (case genlmsg_new NLMSG_DEFAULT_SIZE (fst allocs) of
                  None \<Rightarrow> s | Some _ \<Rightarrow> s\<lparr>ks_skbs := ks_skbs s + 1\<rparr>);
          msg = snprintf_buf GENL_TEST_ATTR_MSG_MAX (hello_text grp)
      in case genlmsg_new NLMSG_DEFAULT_SIZE (snd allocs) of
           None \<Rightarrow> s1\<lparr>ks_log := ks_log s1 @ [KL_oom 27]\<rparr>
         | Some skb \<Rightarrow>
             (let s2 = s1\<lparr>ks_skbs := ks_skbs s1 + 1\<rparr>
              in case genlmsg_put_kernel skb 0 0 (ks_fam_id s2) genl_test_family_version GFP_ATOMIC GENL_TEST_C_MSG of
                   None \<Rightarrow> s2\<lparr>ks_log := ks_log s2 @ [KL_hdr_err 33], ks_skbs := ks_skbs s2 - 1\<rparr>
                 | Some skb' \<Rightarrow>
                     (case nla_put_kernel skb' (of_nat GENL_TEST_ATTR_MSG) (nla_string_payload msg) of
                        Inl e \<Rightarrow> s2\<lparr>ks_log := ks_log s2 @ [KL_put_err 39 e], ks_skbs := ks_skbs s2 - 1\<rparr>
                      | Inr skb'' \<Rightarrow> genlmsg_multicast (genlmsg_end skb'') grp s2)))"

text \<open>\<open>genl_test_periodic\<close>, lines 53--64: the three greetings in group
  order, then the timer is re-armed \<open>GENL_TEST_HELLO_INTERVAL\<close> ms from
  now, whatever happened to them.\<close>

definition genl_test_periodic :: "(bool \<times> bool) \<times> (bool \<times> bool) \<times> (bool \<times> bool) \<Rightarrow> kstate \<Rightarrow> kstate" where
  "genl_test_periodic allocs s =
     (let (a0, a1, a2) = allocs;
          s' = greet_group a2 GENL_TEST_MCGRP2 (greet_group a1 GENL_TEST_MCGRP1 (greet_group a0 GENL_TEST_MCGRP0 s))
      in mod_timer (ks_jiffies s' + msecs_to_jiffies GENL_TEST_HELLO_INTERVAL) s')"

text \<open>\<open>genl_test_rx_msg(skb, info)\<close>, lines 66--78: \<open>attr\<close> is
  \<open>info->attrs[GENL_TEST_ATTR_MSG]\<close> as the payload and the bytes that
  follow it in memory; \<open>%s\<close> on \<open>nla_data\<close> reads up to the first NUL.\<close>

definition genl_test_rx_msg :: "u32 \<Rightarrow> (byte list \<times> byte list) option \<Rightarrow> kstate \<Rightarrow> errno option \<times> kstate" where
  "genl_test_rx_msg snd_portid attr s =
     (case attr of
        None \<Rightarrow> (Some EINVAL, s\<lparr>ks_log := ks_log s @ [KL_empty snd_portid, KL_null_attr]\<rparr>)
      | Some (p, after) \<Rightarrow> (None, s\<lparr>ks_log := ks_log s @ [KL_says snd_portid (read_cstr (p @ after))]\<rparr>))"

text \<open>\<open>genl_test_init\<close>, lines 107--133: \<open>reg\<close> is the outcome of
  \<open>genl_register_family\<close> (the family id and group offset it assigns).\<close>

definition genl_test_init :: "(u16 \<times> u32) option \<Rightarrow> kstate \<Rightarrow> errno option \<times> kstate" where
  "genl_test_init reg s =
     (let s0 = s\<lparr>ks_log := ks_log s @ [KL_init]\<rparr>
      in case reg of
           None \<Rightarrow> (Some EINVAL, s0\<lparr>ks_log := ks_log s0 @ [KL_init_failed]\<rparr>)
         | Some (fid, off) \<Rightarrow>
             (None, mod_timer (ks_jiffies s0 + msecs_to_jiffies GENL_TEST_HELLO_INTERVAL)
                      (s0\<lparr>ks_loaded := True, ks_registered := True, ks_fam_id := fid, ks_mcgrp_offset := off\<rparr>)))"

text \<open>\<open>genl_test_exit\<close>, lines 136--140.\<close>

definition genl_test_exit :: "kstate \<Rightarrow> kstate" where
  "genl_test_exit s = (del_timer s)\<lparr>ks_registered := False, ks_loaded := False\<rparr>"

text \<open>\<open>genl_test_ops\<close>, lines 80--87: the one operation, for
  \<open>GENL_TEST_C_MSG\<close>, with the attribute policy and the \<open>doit\<close> handler
  \<open>genl_test_rx_msg\<close>; \<open>dumpit\<close> is NULL (no dump request is modelled).\<close>

record genl_ops =
  op_cmd :: byte
  op_policy :: "nla_policy list"
  op_doit :: "u32 \<Rightarrow> (byte list \<times> byte list) option \<Rightarrow> kstate \<Rightarrow> errno option \<times> kstate"

definition genl_test_ops :: "genl_ops list" where
  "genl_test_ops = [\<lparr>op_cmd = GENL_TEST_C_MSG, op_policy = genl_test_policy, op_doit = genl_test_rx_msg\<rparr>]"

text \<open>\<open>genl_test_family\<close>, lines 95--105 (\<open>.module\<close> and the array sizes
  are implicit in the lists).\<close>

record genl_family =
  fam_name :: string
  fam_version :: byte
  fam_maxattr :: nat
  fam_netnsok :: bool
  fam_ops :: "genl_ops list"
  fam_mcgrps :: "string list"

definition genl_test_family :: genl_family where
  "genl_test_family = \<lparr>fam_name = GENL_TEST_FAMILY_NAME, fam_version = genl_test_family_version,
     fam_maxattr = GENL_TEST_ATTR_MAX, fam_netnsok = False, fam_ops = genl_test_ops, fam_mcgrps = genl_test_mcgrps\<rparr>"

text \<open>The generic-netlink core's handling of a request to the family
  (\<open>genl_family_rcv_msg\<close>, Linux 4.14): a message too short for the
  generic header is refused with \<open>-EINVAL\<close>; the command is looked up in
  the family's operations (\<open>genl_get_cmd\<close>), \<open>-EOPNOTSUPP\<close> when there is
  none; the attributes are parsed up to \<open>maxattr\<close> under the operation's
  policy and a validation error is returned without calling the handler;
  otherwise \<open>doit\<close> runs with \<open>info->attrs[GENL_TEST_ATTR_MSG]\<close>.
  \<open>after\<close> is the memory that follows that attribute's payload.\<close>

definition genl_rcv_msg :: "u32 \<Rightarrow> byte list \<Rightarrow> byte list \<Rightarrow> kstate \<Rightarrow> errno option \<times> kstate" where
  "genl_rcv_msg portid msg after s =
     (let l = unat (nlmsg_len (get_nlmsghdr msg))
      in if l < NLMSG_HDRLEN + GENL_HDRLEN then (Some EINVAL, s)
         else (case find (\<lambda>op. op_cmd op = msg ! NLMSG_HDRLEN) (fam_ops genl_test_family) of
                 None \<Rightarrow> (Some EOPNOTSUPP, s)
               | Some op \<Rightarrow>
                   (case nla_parse_kernel (op_policy op) (fam_maxattr genl_test_family)
                           (take (l - (NLMSG_HDRLEN + GENL_HDRLEN)) (drop (NLMSG_HDRLEN + GENL_HDRLEN) msg)) of
                      (Some e, _) \<Rightarrow> (Some e, s)
                    | (None, tb) \<Rightarrow> op_doit op portid (map_option (\<lambda>p. (p, after)) (tb ! GENL_TEST_ATTR_MSG)) s)))"

subsection \<open>The module's life as a step relation\<close>

text \<open>A due timer runs before the clock moves on; requests and the timer
  callback never overlap (each step is one callback); \<open>module_init\<close> runs
  when the module is not loaded and \<open>module_exit\<close> when it is.\<close>

definition timer_due :: "kstate \<Rightarrow> bool" where
  "timer_due s \<longleftrightarrow> ks_timer_pending s \<and> time_after_eq (ks_jiffies s) (ks_timer_expires s)"

inductive kstep :: "kstate \<Rightarrow> kstate \<Rightarrow> bool" where
  k_init: "\<not> ks_loaded s \<Longrightarrow> kstep s (snd (genl_test_init reg s))"
| k_tick: "\<not> timer_due s \<Longrightarrow> kstep s (s\<lparr>ks_jiffies := ks_jiffies s + 1\<rparr>)"
| k_fire: "timer_due s \<Longrightarrow> kstep s (genl_test_periodic allocs (s\<lparr>ks_timer_pending := False\<rparr>))"
| k_rx: "ks_loaded s \<Longrightarrow> kstep s (snd (genl_rcv_msg portid msg after s))"
| k_exit: "ks_loaded s \<Longrightarrow> kstep s (genl_test_exit s)"

definition kstate_boot :: "u64 \<Rightarrow> kstate" where
  "kstate_boot j = \<lparr>ks_loaded = False, ks_registered = False, ks_fam_id = 0, ks_mcgrp_offset = 0,
     ks_timer_pending = False, ks_timer_expires = 0, ks_jiffies = j, ks_skbs = 0, ks_out = [], ks_log = []\<rparr>"

inductive kreach :: "kstate \<Rightarrow> bool" where
  kr_boot: "kreach (kstate_boot j)"
| kr_step: "kreach s \<Longrightarrow> kstep s t \<Longrightarrow> kreach t"

subsection \<open>What the properties are stated with\<close>

text \<open>The message \<open>greet_group\<close> builds for a group, as the bytes the
  library calls of lines 31--43 write: the netlink header with the final
  length, the generic header, the string attribute.\<close>

definition greet_msg_bytes :: "u16 \<Rightarrow> u32 \<Rightarrow> byte list" where
  "greet_msg_bytes fid grp =
     nlmsghdr_bytes \<lparr>nlmsg_len = of_nat (NLMSG_HDRLEN + GENL_HDRLEN + nla_total_size (Suc (length (hello_text grp)))),
                     nlmsg_type = fid, nlmsg_flags = word_of_int GFP_ATOMIC, nlmsg_seq = 0, nlmsg_pid = 0\<rparr> @
     genlmsghdr_bytes GENL_TEST_C_MSG genl_test_family_version @
     nla_attr_bytes (of_nat GENL_TEST_ATTR_MSG) (hello_text grp @ [0])"

text \<open>What one greeting adds to the multicast log, depending on the second
  allocation.\<close>

definition greet_out :: "kstate \<Rightarrow> u32 \<Rightarrow> bool \<Rightarrow> (u32 \<times> byte list) list" where
  "greet_out s grp ok = (if ok then [(ks_mcgrp_offset s + grp, greet_msg_bytes (ks_fam_id s) grp)] else [])"

text \<open>The module invariant: the family is registered and the timer armed
  exactly while the module is loaded, and an armed timer is at most one
  interval (1250 jiffies) ahead of the clock.\<close>

definition kinv :: "kstate \<Rightarrow> bool" where
  "kinv s \<longleftrightarrow> ks_registered s = ks_loaded s \<and> ks_timer_pending s = ks_loaded s \<and>
     (ks_loaded s \<longrightarrow> unat (ks_timer_expires s - ks_jiffies s) \<le> 1250)"

subsection \<open>Helper lemmas\<close>

lemma u32_less_3_cases:
  assumes "(grp::u32) < 3"
  obtains "unat grp = 0" | "unat grp = 1" | "unat grp = 2"
proof -
  have "unat grp < 3"
    using assms by (simp add: word_less_nat_alt)
  then show ?thesis
    using that by linarith
qed

lemma hello_text_props:
  assumes "grp < 3"
  shows "0 \<notin> set (hello_text grp) \<and> length (hello_text grp) = 24"
  using assms
  by (cases rule: u32_less_3_cases) (simp_all add: hello_text_def genl_consts)

lemma gfp_atomic_u16: "word_of_int GFP_ATOMIC = (0x20 :: u16)"
  by (simp add: GFP_ATOMIC_def)

lemma greet_group_cases:
  assumes "grp < 3"
  shows "greet_group allocs grp s =
    (let s1 = (if fst allocs then s\<lparr>ks_skbs := ks_skbs s + 1\<rparr> else s)
     in if snd allocs
        then s1\<lparr>ks_out := ks_out s1 @ [(ks_mcgrp_offset s + grp, greet_msg_bytes (ks_fam_id s) grp)]\<rparr>
        else s1\<lparr>ks_log := ks_log s1 @ [KL_oom 27]\<rparr>)"
proof -
  have len: "length (hello_text grp) = 24"
    using hello_text_props [OF assms] by simp
  have c: "cstr (snprintf_buf 256 (hello_text grp)) = hello_text grp"
    using hello_text_props [OF assms] by (simp add: snprintf_buf_def)
  have g: "grp < of_nat (length genl_test_mcgrps)"
    using assms by (simp add: genl_test_mcgrps_def)
  show ?thesis
    using g len c
    by (cases allocs)
       (auto simp: greet_group_def genlmsg_new_def genlmsg_put_kernel_def nla_put_kernel_def
         genlmsg_end_def genlmsg_multicast_def nla_string_payload_def genlmsghdr_bytes_def greet_msg_bytes_def
         NLMSG_DEFAULT_SIZE_def NLMSG_HDRLEN_def GENL_HDRLEN_def nla_total_size_def nl_align_def
         Let_def not_le)
qed

lemma greet_group_out [simp]:
  "grp < 3 \<Longrightarrow> ks_out (greet_group allocs grp s) = ks_out s @ greet_out s grp (snd allocs)"
  by (simp add: greet_group_cases greet_out_def Let_def)

lemma greet_group_skbs [simp]:
  "grp < 3 \<Longrightarrow> ks_skbs (greet_group allocs grp s) = ks_skbs s + (if fst allocs then 1 else 0)"
  by (simp add: greet_group_cases Let_def)

lemma greet_group_log [simp]:
  "grp < 3 \<Longrightarrow> ks_log (greet_group allocs grp s) = ks_log s @ (if snd allocs then [] else [KL_oom 27])"
  by (simp add: greet_group_cases Let_def)

lemma greet_group_other [simp]:
  assumes "grp < 3"
  shows "ks_loaded (greet_group allocs grp s) = ks_loaded s"
    "ks_registered (greet_group allocs grp s) = ks_registered s"
    "ks_fam_id (greet_group allocs grp s) = ks_fam_id s"
    "ks_mcgrp_offset (greet_group allocs grp s) = ks_mcgrp_offset s"
    "ks_timer_pending (greet_group allocs grp s) = ks_timer_pending s"
    "ks_timer_expires (greet_group allocs grp s) = ks_timer_expires s"
    "ks_jiffies (greet_group allocs grp s) = ks_jiffies s"
  using assms by (simp_all add: greet_group_cases Let_def)

lemma greet_out_greet_group [simp]:
  "g < 3 \<Longrightarrow> greet_out (greet_group allocs g s) grp ok = greet_out s grp ok"
  by (simp add: greet_out_def)

lemma msecs_to_jiffies_interval [simp]: "msecs_to_jiffies GENL_TEST_HELLO_INTERVAL = 1250"
  by (simp add: msecs_to_jiffies_def HZ_def GENL_TEST_HELLO_INTERVAL_def)

lemma time_after_eq_unat: "time_after_eq a b \<longleftrightarrow> unat (a - b) < 2 ^ 63"
  using bit_last_iff [of "a - b"] bit63_unat [of "a - b"]
  by (auto simp: time_after_eq_def not_less)

lemma jiffies_offset_unat:
  assumes "n \<le> 1250" "d \<le> 1250"
  shows "unat (word_of_nat n - word_of_nat d :: u64) = (if d \<le> n then n - d else 2 ^ 64 + n - d)"
  using assms by (intro unat_u64_sub) simp_all

lemma timer_countdown:
  assumes "ks_timer_pending s" "unat (ks_timer_expires s - ks_jiffies s) \<le> 1250"
    "n \<le> unat (ks_timer_expires s - ks_jiffies s)"
  shows "timer_due (s\<lparr>ks_jiffies := ks_jiffies s + word_of_nat n\<rparr>) \<longleftrightarrow>
           n = unat (ks_timer_expires s - ks_jiffies s)"
proof -
  define d where "d = unat (ks_timer_expires s - ks_jiffies s)"
  have e: "ks_timer_expires s = ks_jiffies s + word_of_nat d"
    by (simp add: d_def)
  have "ks_jiffies s + word_of_nat n - ks_timer_expires s = word_of_nat n - word_of_nat d"
    by (simp add: e)
  moreover have "n \<le> 1250" "d \<le> 1250"
    using assms by (simp_all add: d_def)
  ultimately have "unat (ks_jiffies s + word_of_nat n - ks_timer_expires s) =
      (if d \<le> n then n - d else 2 ^ 64 + n - d)"
    by (metis jiffies_offset_unat)
  then show ?thesis
    using assms by (auto simp: timer_due_def time_after_eq_unat d_def)
qed

lemma tick_unat:
  assumes "ks_timer_pending s" "\<not> timer_due s"
  shows "unat (ks_timer_expires s - (ks_jiffies s + 1)) = unat (ks_timer_expires s - ks_jiffies s) - 1"
proof -
  have "ks_timer_expires s - ks_jiffies s \<noteq> 0"
    using assms by (auto simp: timer_due_def time_after_eq_unat)
  then have "unat (ks_timer_expires s - ks_jiffies s - 1) = unat (ks_timer_expires s - ks_jiffies s) - 1"
    by (rule unat_minus_one)
  then show ?thesis
    by (simp add: diff_diff_eq)
qed

lemma rearm_due:
  assumes "k < 2 ^ 64"
  shows "time_after_eq (j + word_of_nat k) (j + msecs_to_jiffies GENL_TEST_HELLO_INTERVAL) \<longleftrightarrow>
           1250 \<le> k \<and> k < 2 ^ 63 + 1250"
proof -
  have "j + word_of_nat k - (j + msecs_to_jiffies GENL_TEST_HELLO_INTERVAL) = word_of_nat k - word_of_nat 1250"
    by (simp only: msecs_to_jiffies_interval) simp
  moreover have "unat (word_of_nat k - word_of_nat 1250 :: u64) = (if 1250 \<le> k then k - 1250 else 2 ^ 64 + k - 1250)"
    using assms by (intro unat_u64_sub) simp_all
  ultimately show ?thesis
    by (auto simp: time_after_eq_unat)
qed

lemma genl_rcv_msg_cases:
  "snd (genl_rcv_msg portid msg after s) = s \<or>
   (\<exists>attr. snd (genl_rcv_msg portid msg after s) = snd (genl_test_rx_msg portid attr s))"
  by (auto simp: genl_rcv_msg_def Let_def genl_test_family_def genl_test_ops_def split: prod.split option.split)

lemma kinv_boot [simp]: "kinv (kstate_boot j)"
  by (simp add: kinv_def kstate_boot_def)

lemma kstep_kinv:
  assumes "kstep s t" "kinv s"
  shows "kinv t"
  using assms(1)
proof (cases rule: kstep.cases)
  case (k_init reg)
  then show ?thesis
    using assms(2)
    by (cases reg) (auto simp: kinv_def genl_test_init_def mod_timer_def)
next
  case k_tick
  then show ?thesis
    using assms(2) tick_unat [of s] by (auto simp: kinv_def)
next
  case (k_fire allocs)
  obtain a0 a1 a2 where "allocs = (a0, a1, a2)"
    by (cases allocs) auto
  then show ?thesis
    using assms(2) k_fire
    by (auto simp: kinv_def genl_test_periodic_def mod_timer_def GENL_TEST_MCGRP0_def
          GENL_TEST_MCGRP1_def GENL_TEST_MCGRP2_def timer_due_def)
next
  case (k_rx portid msg after)
  have "kinv (snd (genl_test_rx_msg portid attr s))" for attr
    using assms(2) by (cases attr) (auto simp: kinv_def genl_test_rx_msg_def)
  then show ?thesis
    using k_rx assms(2) genl_rcv_msg_cases [of portid msg after s] by auto
next
  case k_exit
  then show ?thesis
    using assms(2)
    by (simp add: kinv_def genl_test_exit_def del_timer_def)
qed

lemma ticks_reach:
  assumes "ks_timer_pending s" "unat (ks_timer_expires s - ks_jiffies s) \<le> 1250"
  shows "n \<le> unat (ks_timer_expires s - ks_jiffies s) \<Longrightarrow>
           kstep\<^sup>*\<^sup>* s (s\<lparr>ks_jiffies := ks_jiffies s + word_of_nat n\<rparr>)"
proof (induction n)
  case 0
  then show ?case
    by simp
next
  case (Suc n)
  let ?t = "s\<lparr>ks_jiffies := ks_jiffies s + word_of_nat n\<rparr>"
  have "\<not> timer_due ?t"
    using timer_countdown [OF assms, of n] Suc.prems by simp
  then have "kstep ?t (?t\<lparr>ks_jiffies := ks_jiffies ?t + 1\<rparr>)"
    by (rule k_tick)
  then show ?case
    using Suc by (simp add: add.assoc add.commute [of 1] rtranclp.rtrancl_into_rtrancl)
qed

lemma greet_msg_layout:
  assumes "grp < 3"
  shows "greet_msg_bytes fid grp =
           nlmsghdr_bytes \<lparr>nlmsg_len = 52, nlmsg_type = fid, nlmsg_flags = 0x20, nlmsg_seq = 0, nlmsg_pid = 0\<rparr> @
           [1, 1, 0, 0] @ nla_attr_bytes 1 (hello_text grp @ [0]) \<and>
         length (nla_attr_bytes 1 (hello_text grp @ [0])) = 32"
proof -
  have len: "length (hello_text grp) = 24"
    using hello_text_props [OF assms] by simp
  then show ?thesis
    by (simp add: greet_msg_bytes_def gfp_atomic_u16 genlmsghdr_bytes_def genl_test_family_version_def
                  NLMSG_HDRLEN_def GENL_HDRLEN_def nla_total_size_def nl_align_def)
qed

subsection \<open>Properties of the module\<close>

text \<open>C14.  For an existing group, when the second allocation fails
  \<open>greet_group\<close> multicasts nothing; when it succeeds it multicasts exactly
  one message, to the family's group offset plus the group, 52 bytes long,
  whose netlink header carries the family id, flags 0x20 (the low 16 bits of
  \<open>GFP_ATOMIC\<close>, passed as the header flags), sequence and port 0, whose
  generic header is \<open>GENL_TEST_C_MSG\<close> version 1, and whose one attribute
  is \<open>GENL_TEST_ATTR_MSG\<close> holding the NUL-terminated hello text.  The
  error branches of lines 32--41 are never taken.\<close>

lemma greet_group_message:
  assumes "grp < 3"
  shows "ks_out (greet_group (a, False) grp s) = ks_out s \<and>
    (\<exists>m. ks_out (greet_group (a, True) grp s) = ks_out s @ [(ks_mcgrp_offset s + grp, m)] \<and>
         get_nlmsghdr m = \<lparr>nlmsg_len = 52, nlmsg_type = ks_fam_id s, nlmsg_flags = 0x20,
                            nlmsg_seq = 0, nlmsg_pid = 0\<rparr> \<and>
         take 4 (drop 16 m) = [GENL_TEST_C_MSG, 1, 0, 0] \<and>
         drop 20 m = nla_attr_bytes 1 (hello_text grp @ [0]) \<and> length m = 52)"
  using greet_msg_layout [OF assms, of "ks_fam_id s"] assms by (simp add: greet_out_def)

text \<open>C15.  One timer tick: \<open>genl_test_periodic\<close> greets groups 0, 1 and
  2 in this order, each independently of the others' allocation failures;
  every successful first allocation of line 20 leaves one socket buffer
  allocated for ever; the timer is re-armed 1250 jiffies (5000 ms at
  \<open>HZ\<close> = 250) after the current time, whatever happened.\<close>

lemma genl_test_periodic_greets:
  "ks_out (genl_test_periodic ((a0, b0), (a1, b1), (a2, b2)) s) =
     ks_out s @ greet_out s 0 b0 @ greet_out s 1 b1 @ greet_out s 2 b2 \<and>
   ks_skbs (genl_test_periodic ((a0, b0), (a1, b1), (a2, b2)) s) =
     ks_skbs s + length (filter id [a0, a1, a2]) \<and>
   ks_timer_pending (genl_test_periodic ((a0, b0), (a1, b1), (a2, b2)) s) \<and>
   ks_timer_expires (genl_test_periodic ((a0, b0), (a1, b1), (a2, b2)) s) = ks_jiffies s + 1250"
  by (simp add: genl_test_periodic_def mod_timer_def GENL_TEST_MCGRP0_def GENL_TEST_MCGRP1_def GENL_TEST_MCGRP2_def)

text \<open>C16.  Every reachable module state satisfies the invariant: the timer
  is armed exactly while the family is registered and the module loaded, and
  it never lies more than one interval ahead.\<close>

theorem kreach_invariant: "kreach s \<Longrightarrow> kinv s"
proof (induction rule: kreach.induct)
  case (kr_boot j)
  then show ?case
    by simp
next
  case (kr_step s t)
  then show ?case
    using kstep_kinv by blast
qed

text \<open>C17.  Bounded liveness of the timer: in every reachable state with the
  module loaded, the timer is at most 1250 jiffies (5 s) ahead, the clock
  ticks without the timer being due for exactly \<open>expires - jiffies\<close>
  ticks, and then the timer is due.  The bound comes from what
  \<open>genl_test_init\<close> and the re-arm of \<open>genl_test_periodic\<close> set.\<close>

theorem timer_fires:
  assumes "kreach s" "ks_loaded s"
  shows "unat (ks_timer_expires s - ks_jiffies s) \<le> 1250 \<and>
         (\<forall>n < unat (ks_timer_expires s - ks_jiffies s).
            \<not> timer_due (s\<lparr>ks_jiffies := ks_jiffies s + word_of_nat n\<rparr>)) \<and>
         timer_due (s\<lparr>ks_jiffies := ks_timer_expires s\<rparr>) \<and>
         kstep\<^sup>*\<^sup>* s (s\<lparr>ks_jiffies := ks_timer_expires s\<rparr>)"
proof -
  have "kinv s"
    using assms(1) by (induction rule: kreach.induct) (auto intro: kstep_kinv)
  then have p: "ks_timer_pending s" and b: "unat (ks_timer_expires s - ks_jiffies s) \<le> 1250"
    using assms(2) by (simp_all add: kinv_def)
  have e: "ks_jiffies s + word_of_nat (unat (ks_timer_expires s - ks_jiffies s)) = ks_timer_expires s"
    by simp
  have "\<forall>n < unat (ks_timer_expires s - ks_jiffies s).
          \<not> timer_due (s\<lparr>ks_jiffies := ks_jiffies s + word_of_nat n\<rparr>)"
    using timer_countdown [OF p b] by simp
  moreover have "timer_due (s\<lparr>ks_jiffies := ks_timer_expires s\<rparr>)"
    using timer_countdown [OF p b order.refl] unfolding e by simp
  moreover have "kstep\<^sup>*\<^sup>* s (s\<lparr>ks_jiffies := ks_timer_expires s\<rparr>)"
    using ticks_reach [OF p b order.refl] unfolding e .
  ultimately show ?thesis
    using b by blast
qed

text \<open>C18.  After a tick at jiffies \<open>j\<close> (any value, wrap-around
  included), the re-armed timer is due at \<open>j + k\<close> exactly when
  \<open>1250 \<le> k < 2^63 + 1250\<close>: \<open>time_after_eq\<close> works modulo 2^64 but only
  within half the range.\<close>

theorem genl_test_periodic_rearm:
  assumes "k < 2 ^ 64"
  shows "timer_due ((genl_test_periodic allocs s)\<lparr>ks_jiffies := ks_jiffies s + word_of_nat k\<rparr>) \<longleftrightarrow>
           1250 \<le> k \<and> k < 2 ^ 63 + 1250"
proof -
  obtain a0 a1 a2 where a: "allocs = (a0, a1, a2)"
    by (cases allocs) auto
  have "ks_timer_pending (genl_test_periodic allocs s) \<and>
        ks_timer_expires (genl_test_periodic allocs s) = ks_jiffies s + msecs_to_jiffies GENL_TEST_HELLO_INTERVAL"
    by (simp add: a genl_test_periodic_def mod_timer_def GENL_TEST_MCGRP0_def GENL_TEST_MCGRP1_def
                  GENL_TEST_MCGRP2_def del: msecs_to_jiffies_interval)
  then show ?thesis
    using rearm_due [OF assms, of "ks_jiffies s"] by (simp add: timer_due_def del: msecs_to_jiffies_interval)
qed

text \<open>C19.  \<open>genl_test_rx_msg\<close> refuses a request without the message
  attribute with \<open>-EINVAL\<close> after logging the sender and the NULL pointer;
  a payload that holds a NUL is accepted and logged up to its first NUL,
  whatever follows it in memory.\<close>

theorem rx_msg_cases:
  "genl_test_rx_msg portid None s = (Some EINVAL, s\<lparr>ks_log := ks_log s @ [KL_empty portid, KL_null_attr]\<rparr>) \<and>
   (0 \<in> set p \<longrightarrow> genl_test_rx_msg portid (Some (p, after)) s =
      (None, s\<lparr>ks_log := ks_log s @ [KL_says portid (Some (cstr p))]\<rparr>))"
  by (simp add: genl_test_rx_msg_def read_cstr_def cstr_append)

text \<open>C20.  A payload with no NUL byte (which the kernel's \<open>NLA_STRING\<close>
  check admits) makes \<open>%s\<close> read on past the attribute: the logged text is
  the payload followed by the bytes after it up to their first NUL, and
  nothing when there is none.\<close>

theorem rx_msg_overread:
  assumes "0 \<notin> set p"
  shows "snd (genl_test_rx_msg portid (Some (p, after)) s) =
           s\<lparr>ks_log := ks_log s @ [KL_says portid (map_option ((@) p) (read_cstr after))]\<rparr>"
  using assms by (simp add: genl_test_rx_msg_def read_cstr_def cstr_append)

text \<open>C36.  Module exit stops the broadcast: in every reachable state where
  the module is not loaded (before \<open>module_init\<close>, after a failed one, or
  after \<open>genl_test_exit\<close>), no step multicasts anything or allocates a socket
  buffer, because the timer is no longer pending and requests reach no
  family.\<close>

theorem unloaded_module_silent:
  assumes "kreach s" "\<not> ks_loaded s" "kstep s t"
  shows "ks_out t = ks_out s \<and> ks_skbs t = ks_skbs s"
proof -
  have "kinv s"
    using assms(1) by (induction rule: kreach.induct) (auto intro: kstep_kinv)
  then have nd: "\<not> timer_due s"
    using assms(2) by (simp add: kinv_def timer_due_def)
  show ?thesis
    using assms(3) nd assms(2)
    by (cases rule: kstep.cases) (auto simp: genl_test_init_def Let_def mod_timer_def split: option.split)
qed

subsection \<open>Witnesses\<close>

text \<open>The state after a successful \<open>module_init\<close> at jiffies 7, with family
  id 21 and group offset 5.\<close>

theorem greet_group_message_witness:
  "(1::u32) < 3 \<and> ks_out (greet_group (True, False) 1 (kstate_boot 0)) = [] \<and>
   (\<exists>m. ks_out (greet_group (True, True) 1 (kstate_boot 0)) = [(1, m)] \<and> length m = 52)"
  using greet_group_message [of 1 True "kstate_boot 0"] by (auto simp: kstate_boot_def)

theorem kreach_invariant_witness:
  "kreach (snd (genl_test_init (Some (21, 5)) (kstate_boot 7))) \<and>
   kinv (snd (genl_test_init (Some (21, 5)) (kstate_boot 7)))"
proof -
  have r: "kreach (snd (genl_test_init (Some (21, 5)) (kstate_boot 7)))"
    by (rule kr_step [OF kr_boot k_init]) (simp add: kstate_boot_def)
  show ?thesis
    using r kreach_invariant [OF r] by simp
qed

theorem timer_fires_witness:
  "kreach (snd (genl_test_init (Some (21, 5)) (kstate_boot 7))) \<and>
   ks_loaded (snd (genl_test_init (Some (21, 5)) (kstate_boot 7))) \<and>
   timer_due ((snd (genl_test_init (Some (21, 5)) (kstate_boot 7)))\<lparr>ks_jiffies := 1257\<rparr>)"
proof -
  have r: "kreach (snd (genl_test_init (Some (21, 5)) (kstate_boot 7)))"
    by (rule kr_step [OF kr_boot k_init]) (simp add: kstate_boot_def)
  have l: "ks_loaded (snd (genl_test_init (Some (21, 5)) (kstate_boot 7)))"
    by (simp add: genl_test_init_def mod_timer_def)
  have e: "ks_timer_expires (snd (genl_test_init (Some (21, 5)) (kstate_boot 7))) = 1257"
    by (simp add: genl_test_init_def mod_timer_def kstate_boot_def)
  show ?thesis
    using r l timer_fires [OF r l] unfolding e by blast
qed

theorem genl_test_periodic_rearm_witness:
  "(1250::nat) < 2 ^ 64 \<and>
   timer_due ((genl_test_periodic ((True, True), (True, True), (True, True)) (kstate_boot (- 1)))
                \<lparr>ks_jiffies := - 1 + word_of_nat 1250\<rparr>)"
  using genl_test_periodic_rearm [where k = 1250 and allocs = "((True, True), (True, True), (True, True))"
    and s = "kstate_boot (- 1)"]
  by (simp add: kstate_boot_def)

theorem rx_msg_cases_witness:
  "(0::byte) \<in> set [65, 0] \<and>
   genl_test_rx_msg 3 (Some ([65, 0], [66])) (kstate_boot 0) =
     (None, (kstate_boot 0)\<lparr>ks_log := [KL_says 3 (Some [65])]\<rparr>)"
  using rx_msg_cases [where p = "[65, 0]" and portid = 3 and after = "[66]" and s = "kstate_boot 0"]
  by (simp add: kstate_boot_def cstr_def)

theorem rx_msg_overread_witness:
  "(0::byte) \<notin> set [65] \<and>
   snd (genl_test_rx_msg 3 (Some ([65], [66, 0, 67])) (kstate_boot 0)) =
     (kstate_boot 0)\<lparr>ks_log := [KL_says 3 (Some [65, 66])]\<rparr>"
  using rx_msg_overread [where p = "[65]" and portid = 3 and after = "[66, 0, 67]" and s = "kstate_boot 0"]
  by (simp add: kstate_boot_def read_cstr_def cstr_def)


text \<open>The module loaded at jiffies 7 and unloaded again; the next clock
  tick sends nothing.\<close>

theorem unloaded_module_silent_witness:
  "kreach (genl_test_exit (snd (genl_test_init (Some (21, 5)) (kstate_boot 7)))) \<and>
   \<not> ks_loaded (genl_test_exit (snd (genl_test_init (Some (21, 5)) (kstate_boot 7)))) \<and>
   kstep (genl_test_exit (snd (genl_test_init (Some (21, 5)) (kstate_boot 7))))
     ((genl_test_exit (snd (genl_test_init (Some (21, 5)) (kstate_boot 7))))\<lparr>ks_jiffies := 8\<rparr>) \<and>
   ks_out ((genl_test_exit (snd (genl_test_init (Some (21, 5)) (kstate_boot 7))))\<lparr>ks_jiffies := 8\<rparr>) =
     ks_out (genl_test_exit (snd (genl_test_init (Some (21, 5)) (kstate_boot 7))))"
proof -
  let ?s1 = "snd (genl_test_init (Some (21, 5)) (kstate_boot 7))"
  let ?x = "genl_test_exit ?s1"
  have r1: "kreach ?s1"
    by (rule kr_step [OF kr_boot k_init]) (simp add: kstate_boot_def)
  have l: "ks_loaded ?s1"
    by (simp add: genl_test_init_def mod_timer_def)
  have r: "kreach ?x"
    by (rule kr_step [OF r1 k_exit [OF l]])
  have u: "\<not> ks_loaded ?x" and nd: "\<not> timer_due ?x" and j: "ks_jiffies ?x + 1 = 8"
    by (simp_all add: genl_test_exit_def del_timer_def timer_due_def genl_test_init_def mod_timer_def kstate_boot_def)
  have st: "kstep ?x (?x\<lparr>ks_jiffies := 8\<rparr>)"
    using k_tick [OF nd] unfolding j .
  show ?thesis
    using r u st unloaded_module_silent [OF r u st] by blast
qed

end
