(* ===== verification/Client_Session.thy ===== *)
theory Client_Session
  imports Client_Cli Genl_Server
begin

text \<open>
  The client's netlink session, \<open>src/genl_ex.c\<close> lines 98--239: the socket
  setup \<open>prep_nl_sock\<close> with its loop over the bits of the group mask,
  \<open>send_msg_to_kernel\<close>, the receive callback \<open>print_rx_msg\<close> and
  \<open>main\<close>.  The libnl socket is the record \<open>nl_sock\<close>.  What the client
  cannot see (whether the socket allocation, connection, group joins,
  message allocation and transmission succeed, the local port and first
  sequence number libnl chooses, and the family the kernel registered) is the
  record \<open>genl_env\<close>; the generic-netlink controller answers the two
  resolution requests from the registered family.  The receive loop of
  \<open>main\<close> blocks for ever; it is modelled over the multicasts the kernel has
  sent so far, which netlink delivers to the groups the socket joined.
\<close>

subsection \<open>The environment of the client\<close>

record genl_env =
  env_family :: "(u16 \<times> u32) option"
  env_port :: u32
  env_seq :: u32
  env_sock_ok :: bool
  env_connect_ok :: bool
  env_join_ok :: bool
  env_alloc_ok :: bool
  env_send_ok :: bool

text \<open>The environment in which the kernel module is loaded in the state
  \<open>s\<close>: the controller knows the family while it is registered, with the
  family id and first group id that registration assigned.\<close>

definition env_of_kstate :: "kstate \<Rightarrow> genl_env \<Rightarrow> genl_env" where
  "env_of_kstate s env =
     env\<lparr>env_family := (if ks_registered s then Some (ks_fam_id s, ks_mcgrp_offset s) else None)\<rparr>"

text \<open>libnl's error numbers, and the libc error numbers of \<open>errno\<close> (the
  code returns \<open>-ENOMEM\<close> itself, line 118).\<close>

definition NLE_OBJ_NOTFOUND :: int where "NLE_OBJ_NOTFOUND = 12"
definition NLE_FAILURE :: int where "NLE_FAILURE = 1"

fun nl_errno :: "nl_err \<Rightarrow> int" where
  "nl_errno NLE_NOMEM = 5"
| "nl_errno NLE_INVAL = 7"
| "nl_errno NLE_RANGE = 8"
| "nl_errno NLE_MSG_TOOSHORT = 21"

fun errno_val :: "errno \<Rightarrow> int" where
  "errno_val EINVAL = 22"
| "errno_val ERANGE = 34"
| "errno_val EMSGSIZE = 90"
| "errno_val ENOMEM = 12"
| "errno_val EOPNOTSUPP = 95"

subsection \<open>The libnl socket\<close>

record nl_sock =
  sk_seq_check :: bool
  sk_auto_ack :: bool
  sk_connected :: bool
  sk_port :: u32
  sk_seq_next :: u32
  sk_groups :: "u32 list"
  sk_sent :: "byte list list"

definition nl_socket_alloc :: "genl_env \<Rightarrow> nl_sock option" where
  "nl_socket_alloc env =
     (if env_sock_ok env
      then Some \<lparr>sk_seq_check = True, sk_auto_ack = True, sk_connected = False, sk_port = env_port env,
                 sk_seq_next = env_seq env, sk_groups = [], sk_sent = []\<rparr>
      else None)"

definition nl_socket_disable_seq_check :: "nl_sock \<Rightarrow> nl_sock" where
  "nl_socket_disable_seq_check sk = sk\<lparr>sk_seq_check := False\<rparr>"

definition nl_socket_disable_auto_ack :: "nl_sock \<Rightarrow> nl_sock" where
  "nl_socket_disable_auto_ack sk = sk\<lparr>sk_auto_ack := False\<rparr>"

definition genl_connect :: "genl_env \<Rightarrow> nl_sock \<Rightarrow> nl_sock option" where
  "genl_connect env sk = (if env_connect_ok env then Some (sk\<lparr>sk_connected := True\<rparr>) else None)"

text \<open>The position of a name in a list of names.\<close>

fun name_index :: "string list \<Rightarrow> string \<Rightarrow> nat option" where
  "name_index [] n = None"
| "name_index (x # xs) n = (if x = n then Some 0 else map_option Suc (name_index xs n))"

text \<open>\<open>genl_ctrl_resolve\<close> and \<open>genl_ctrl_resolve_grp\<close>: the controller
  knows the registered family, whose groups are \<open>genl_test_mcgrps\<close>
  numbered from its first group id; an unknown name is
  \<open>-NLE_OBJ_NOTFOUND\<close>.\<close>

definition genl_ctrl_resolve :: "genl_env \<Rightarrow> string \<Rightarrow> int" where
  "genl_ctrl_resolve env name =
     (case env_family env of
        Some (fid, off) \<Rightarrow> if name = GENL_TEST_FAMILY_NAME then uint fid else - NLE_OBJ_NOTFOUND
      | None \<Rightarrow> - NLE_OBJ_NOTFOUND)"

definition genl_ctrl_resolve_grp :: "genl_env \<Rightarrow> string \<Rightarrow> string \<Rightarrow> int" where
  "genl_ctrl_resolve_grp env name grp =
     (case env_family env of
        Some (fid, off) \<Rightarrow>
          (case name_index genl_test_mcgrps grp of
             Some i \<Rightarrow> if name = GENL_TEST_FAMILY_NAME then uint (off + of_nat i) else - NLE_OBJ_NOTFOUND
           | None \<Rightarrow> - NLE_OBJ_NOTFOUND)
      | None \<Rightarrow> - NLE_OBJ_NOTFOUND)"

definition nl_socket_add_membership :: "genl_env \<Rightarrow> nl_sock \<Rightarrow> int \<Rightarrow> nl_sock option" where
  "nl_socket_add_membership env sk g =
     (if env_join_ok env then Some (sk\<lparr>sk_groups := sk_groups sk @ [word_of_int g]\<rparr>) else None)"

subsection \<open>Socket setup\<close>

definition SIZEOF_UNSIGNED_INT :: nat where "SIZEOF_UNSIGNED_INT = 4"

text \<open>The loop of \<open>prep_nl_sock\<close>, lines 192--211: \<open>bit\<close> runs below
  \<open>sizeof(unsigned int)\<close>; a set bit names a group, whose name
  \<open>genl_test_mcgrp_names[bit]\<close> is read out of bounds for \<open>bit \<ge> 3\<close>
  (the value \<open>Fault\<close>); it is resolved and joined, or the client exits
  with the message for \<open>1 << bit\<close>.\<close>

function prep_groups :: "genl_env \<Rightarrow> u32 \<Rightarrow> nat \<Rightarrow> nl_sock \<Rightarrow> nl_sock outcome" where
  "prep_groups env mcg b sk =
     (if b < SIZEOF_UNSIGNED_INT then
        (if \<not> bit mcg b then prep_groups env mcg (Suc b) sk
         else if GENL_TEST_MCGRP_MAX \<le> b then Fault
         else (let grp_id = genl_ctrl_resolve_grp env GENL_TEST_FAMILY_NAME (genl_test_mcgrp_names ! b)
               in if grp_id < 0 then Exit EXIT_FAILURE [D_no_group (push_bit b 1)]
                  else (case nl_socket_add_membership env sk grp_id of
                          None \<Rightarrow> Exit EXIT_FAILURE [D_no_join (push_bit b 1)]
                        | Some sk' \<Rightarrow> prep_groups env mcg (Suc b) sk')))
      else Cont sk)"
  by pat_completeness auto
termination
  by (relation "measure (\<lambda>(_, _, b, _). SIZEOF_UNSIGNED_INT - b)") auto

declare prep_groups.simps [simp del]

text \<open>\<open>prep_nl_sock\<close>, lines 161--212.\<close>

definition prep_nl_sock :: "genl_env \<Rightarrow> client_state \<Rightarrow> nl_sock outcome" where
  "prep_nl_sock env st =
     (case nl_socket_alloc env of
        None \<Rightarrow> Exit EXIT_FAILURE [D_no_sock]
      | Some sk0 \<Rightarrow>
          (let sk1 = nl_socket_disable_auto_ack (nl_socket_disable_seq_check sk0)
           in case genl_connect env sk1 of
                None \<Rightarrow> Exit EXIT_FAILURE [D_no_connect]
              | Some sk2 \<Rightarrow>
                  (if genl_ctrl_resolve env GENL_TEST_FAMILY_NAME < 0 then Exit EXIT_FAILURE [D_no_family]
                   else if mcgroups st = 0 then Cont sk2
                   else prep_groups env (mcgroups st) 0 sk2)))"

subsection \<open>Sending\<close>

definition NL_AUTO_PORT :: u32 where "NL_AUTO_PORT = 0"
definition NL_AUTO_SEQ :: u32 where "NL_AUTO_SEQ = 0"

text \<open>libnl's default message size, one page.\<close>

definition NL_DEFAULT_MSG_SIZE :: nat where "NL_DEFAULT_MSG_SIZE = 4096"

definition nlmsg_alloc :: "genl_env \<Rightarrow> nl_buf option" where
  "nlmsg_alloc env = (if env_alloc_ok env then Some \<lparr>nb_data = [], nb_cap = NL_DEFAULT_MSG_SIZE\<rparr> else None)"

text \<open>\<open>nl_send_auto\<close>: \<open>nl_complete_msg\<close> fills an automatic port and
  sequence number from the socket, sets \<open>NLM_F_REQUEST\<close> and, unless auto
  acknowledgement is off, \<open>NLM_F_ACK\<close>; then the message is sent and the
  number of bytes returned, or a negative error.\<close>

definition nl_complete_msg :: "nl_sock \<Rightarrow> byte list \<Rightarrow> byte list \<times> nl_sock" where
  "nl_complete_msg sk m =
     (let h = get_nlmsghdr m;
          h1 = (if nlmsg_pid h = NL_AUTO_PORT then h\<lparr>nlmsg_pid := sk_port sk\<rparr> else h);
          auto_seq = (nlmsg_seq h = NL_AUTO_SEQ);
          h2 = (if auto_seq then h1\<lparr>nlmsg_seq := sk_seq_next sk\<rparr> else h1);
          h3 = h2\<lparr>nlmsg_flags := nlmsg_flags h2 OR NLM_F_REQUEST OR (if sk_auto_ack sk then NLM_F_ACK else 0)\<rparr>;
          sk' = (if auto_seq then sk\<lparr>sk_seq_next := sk_seq_next sk + 1\<rparr> else sk)
      in (nlmsghdr_bytes h3 @ drop NLMSG_HDRLEN m, sk'))"

definition nl_send_auto :: "genl_env \<Rightarrow> nl_sock \<Rightarrow> byte list \<Rightarrow> int \<times> nl_sock" where
  "nl_send_auto env sk m =
     (let (m', sk') = nl_complete_msg sk m
      in if env_send_ok env then (int (length m'), sk'\<lparr>sk_sent := sk_sent sk' @ [m']\<rparr>)
         else (- NLE_FAILURE, sk'))"

text \<open>\<open>send_msg_to_kernel\<close>, lines 98--136: a failed resolution or
  allocation exits; a failed header, attribute or transmission prints and
  returns the error; the result is the return value, the diagnostics and the
  socket.\<close>

definition send_msg_to_kernel :: "genl_env \<Rightarrow> client_state \<Rightarrow> nl_sock \<Rightarrow> (int \<times> diag list \<times> nl_sock) outcome" where
  "send_msg_to_kernel env st sk =
     (let family_id = genl_ctrl_resolve env GENL_TEST_FAMILY_NAME
      in if family_id < 0 then Exit EXIT_FAILURE [D_no_family]
         else (case nlmsg_alloc env of
                 None \<Rightarrow> Exit EXIT_FAILURE [D_no_alloc]
               | Some msg \<Rightarrow>
                   (case genlmsg_put_user msg NL_AUTO_PORT NL_AUTO_SEQ (word_of_int family_id) NLM_F_REQUEST GENL_TEST_C_MSG 0 of
                      None \<Rightarrow> Cont (- errno_val ENOMEM, [D_no_hdr], sk)
                    | Some m1 \<Rightarrow>
                        (case nla_put_user m1 (of_nat GENL_TEST_ATTR_MSG) (nla_string_payload (message st)) of
                           Inl e \<Rightarrow> Cont (- nl_errno e, [D_no_put], sk)
                         | Inr m2 \<Rightarrow>
                             (let (r, sk') = nl_send_auto env sk (nb_data m2)
                              in Cont (r, if r < 0 then [D_no_send] else [], sk'))))))"

subsection \<open>Receiving\<close>

text \<open>What \<open>print_rx_msg\<close> writes to standard output.\<close>

datatype client_out = CO_empty | CO_says "byte list"

text \<open>\<open>print_rx_msg\<close>, lines 143--159: the result of \<open>genlmsg_parse\<close> is
  ignored; when it refuses the message before touching \<open>attr\<close>, the
  uninitialised array is read (\<open>Fault\<close>).\<close>

definition print_rx_msg :: "byte list \<Rightarrow> client_out outcome" where
  "print_rx_msg msg =
     (case genlmsg_parse_user msg GENL_TEST_ATTR_MAX genl_test_policy of
        None \<Rightarrow> Fault
      | Some (_, attr) \<Rightarrow>
          (case attr ! GENL_TEST_ATTR_MSG of
             None \<Rightarrow> Cont CO_empty
           | Some p \<Rightarrow> Cont (CO_says (nla_get_string p))))"

text \<open>The \<open>nl_recvmsgs\<close> loop of \<open>main\<close> (lines 233--235) over the
  messages received so far, each handed to the valid-message callback
  \<open>print_rx_msg\<close>; the sequence-check callback \<open>skip_seq_check\<close>
  (lines 138--141) accepts every message.\<close>

fun recv_loop :: "byte list list \<Rightarrow> client_out list outcome" where
  "recv_loop [] = Cont []"
| "recv_loop (m # ms) =
     (case print_rx_msg m of
        Cont out \<Rightarrow> (case recv_loop ms of Cont outs \<Rightarrow> Cont (out # outs) | r \<Rightarrow> r)
      | Exit c d \<Rightarrow> Exit c d
      | Fault \<Rightarrow> Fault)"

text \<open>Netlink multicast delivery: of the messages multicast so far, a
  socket receives those sent to a group it has joined, in order.\<close>

definition nl_deliver :: "u32 list \<Rightarrow> (u32 \<times> byte list) list \<Rightarrow> byte list list" where
  "nl_deliver groups mc = map snd (filter (\<lambda>(g, m). g \<in> set groups) mc)"

subsection \<open>The client program\<close>

text \<open>What a run of \<open>main\<close> shows: an exit with its code, diagnostics and
  the messages sent; undefined behaviour; or the listening client with the
  groups it joined and what it printed so far.\<close>

datatype main_result = M_exit exit_code "diag list" "byte list list" | M_fault
  | M_listening "u32 list" "client_out list"

text \<open>\<open>main\<close>, lines 214--239: \<open>opts\<close> is what \<open>getopt\<close> returns, \<open>mc\<close>
  the kernel's multicasts so far.  The value of \<open>send_msg_to_kernel\<close> is
  not looked at: send mode exits with \<open>EXIT_SUCCESS\<close>.\<close>

definition client_main :: "genl_env \<Rightarrow> cli_opt list \<Rightarrow> (u32 \<times> byte list) list \<Rightarrow> main_result" where
  "client_main env opts mc =
     (case parse_cmd_line opts of
        Exit c d \<Rightarrow> M_exit c d []
      | Fault \<Rightarrow> M_fault
      | Cont st \<Rightarrow>
          (case prep_nl_sock env st of
             Exit c d \<Rightarrow> M_exit c d []
           | Fault \<Rightarrow> M_fault
           | Cont sk \<Rightarrow>
               (if send_to_kernel st \<noteq> 0 then
                  (case send_msg_to_kernel env st sk of
                     Exit c d \<Rightarrow> M_exit c d []
                   | Fault \<Rightarrow> M_fault
                   | Cont (ret, d, sk') \<Rightarrow> M_exit EXIT_SUCCESS d (sk_sent sk'))
                else
                  (case recv_loop (nl_deliver (sk_groups sk) mc) of
                     Cont outs \<Rightarrow> M_listening (sk_groups sk) outs
                   | Exit c d \<Rightarrow> M_exit c d []
                   | Fault \<Rightarrow> M_fault))))"

subsection \<open>What the properties are stated with\<close>

text \<open>The request \<open>send_msg_to_kernel\<close> transmits for a message \<open>d\<close>,
  after \<open>nl_complete_msg\<close> has filled in the port and sequence number.\<close>

definition request_bytes :: "u16 \<Rightarrow> u32 \<Rightarrow> u32 \<Rightarrow> byte list \<Rightarrow> byte list" where
  "request_bytes fid port seq d =
     nlmsghdr_bytes \<lparr>nlmsg_len = of_nat (NLMSG_HDRLEN + GENL_HDRLEN + nla_total_size (Suc (length d))),
                     nlmsg_type = fid, nlmsg_flags = NLM_F_REQUEST, nlmsg_seq = seq, nlmsg_pid = port\<rparr> @
     genlmsghdr_bytes GENL_TEST_C_MSG 0 @ nla_attr_bytes (of_nat GENL_TEST_ATTR_MSG) (d @ [0])"

text \<open>The reference the loop of \<open>prep_nl_sock\<close> is compared with: the
  join step applied to a given list of bit positions, in order.\<close>

fun join_groups :: "genl_env \<Rightarrow> nat list \<Rightarrow> nl_sock \<Rightarrow> nl_sock outcome" where
  "join_groups env [] sk = Cont sk"
| "join_groups env (b # bs) sk =
     (if GENL_TEST_MCGRP_MAX \<le> b then Fault
      else (let grp_id = genl_ctrl_resolve_grp env GENL_TEST_FAMILY_NAME (genl_test_mcgrp_names ! b)
            in if grp_id < 0 then Exit EXIT_FAILURE [D_no_group (push_bit b 1)]
               else (case nl_socket_add_membership env sk grp_id of
                       None \<Rightarrow> Exit EXIT_FAILURE [D_no_join (push_bit b 1)]
                     | Some sk' \<Rightarrow> join_groups env bs sk')))"

subsection \<open>Helper lemmas\<close>

lemma nl_complete_msg_wf: "nlmsg_wf m \<Longrightarrow> nlmsg_wf (fst (nl_complete_msg sk m))"
  by (auto simp: nl_complete_msg_def Let_def nlmsg_wf_hdr nlmsg_wf_def NLMSG_HDRLEN_def GENL_HDRLEN_def)

lemma name_index_mcgrp [simp]:
  "i < 3 \<Longrightarrow> name_index genl_test_mcgrps (genl_test_mcgrp_names ! i) = Some i"
  by (auto simp: genl_test_mcgrps_def genl_consts less_Suc_eq numeral_3_eq_3)

lemma resolve_grp_family:
  "env_family env = Some (fid, off) \<Longrightarrow> i < 3 \<Longrightarrow>
   genl_ctrl_resolve_grp env GENL_TEST_FAMILY_NAME (genl_test_mcgrp_names ! i) = uint (off + of_nat i)"
  by (simp add: genl_ctrl_resolve_grp_def)

lemma resolve_family:
  "env_family env = Some (fid, off) \<Longrightarrow> genl_ctrl_resolve env GENL_TEST_FAMILY_NAME = uint fid"
  by (simp add: genl_ctrl_resolve_def)

lemma prep_groups_joins:
  assumes "env_family env = Some (fid, off)" "env_join_ok env" "\<not> bit mcg 3"
  shows "b + n = 4 \<Longrightarrow> prep_groups env mcg b sk =
           Cont (sk\<lparr>sk_groups := sk_groups sk @ map (\<lambda>i. off + of_nat i) (filter (bit mcg) [b..<4])\<rparr>)"
proof (induction n arbitrary: b sk)
  case 0
  then show ?case
    by (simp add: prep_groups.simps SIZEOF_UNSIGNED_INT_def)
next
  case (Suc n)
  then have b: "b < 4" "[b..<4] = b # [Suc b..<4]"
    by (simp_all add: upt_conv_Cons)
  show ?case
  proof (cases "bit mcg b")
    case False
    then show ?thesis
      using Suc b by (simp add: prep_groups.simps [of env mcg b] SIZEOF_UNSIGNED_INT_def)
  next
    case True
    then have b3: "b < 3"
      using assms(3) b(1) by (cases "b = 3") auto
    have r: "genl_ctrl_resolve_grp env GENL_TEST_FAMILY_NAME (genl_test_mcgrp_names ! b) = uint (off + of_nat b)"
      using resolve_grp_family [OF assms(1) b3] .
    show ?thesis
      using Suc.IH [of "Suc b"] Suc.prems True b b3 assms(2)
      by (simp add: prep_groups.simps [of env mcg b] SIZEOF_UNSIGNED_INT_def r nl_socket_add_membership_def
                    Let_def not_less)
  qed
qed

lemma prep_groups_join_fails:
  assumes "env_family env = Some (fid, off)" "\<not> env_join_ok env" "\<not> bit mcg 3"
  shows "b + n = 4 \<Longrightarrow> filter (bit mcg) [b..<4] = k # ks \<Longrightarrow>
           prep_groups env mcg b sk = Exit EXIT_FAILURE [D_no_join (push_bit k 1)]"
proof (induction n arbitrary: b)
  case 0
  then show ?case
    by simp
next
  case (Suc n)
  then have b: "b < 4" "[b..<4] = b # [Suc b..<4]"
    by (simp_all add: upt_conv_Cons)
  show ?case
  proof (cases "bit mcg b")
    case False
    then show ?thesis
      using Suc b by (simp add: prep_groups.simps [of env mcg b] SIZEOF_UNSIGNED_INT_def)
  next
    case True
    then have b3: "b < 3" and k: "k = b"
      using assms(3) b Suc.prems(2) by (cases "b = 3"; auto)+
    have r: "genl_ctrl_resolve_grp env GENL_TEST_FAMILY_NAME (genl_test_mcgrp_names ! b) = uint (off + of_nat b)"
      using resolve_grp_family [OF assms(1) b3] .
    show ?thesis
      using True b b3 k assms(2)
      by (simp add: prep_groups.simps [of env mcg b] SIZEOF_UNSIGNED_INT_def r nl_socket_add_membership_def
                    Let_def not_less)
  qed
qed

lemma groups_of_mask_empty: "groups_of_mask w = {} \<Longrightarrow> w = 0"
  using groups_of_mask_inj [of w 0] by (simp add: groups_of_mask_def)

lemma prep_nl_sock_ok:
  assumes "env_family env = Some (fid, off)" "env_sock_ok env" "env_connect_ok env" "env_join_ok env"
    "\<not> bit (mcgroups st) 3"
  shows "prep_nl_sock env st =
    Cont \<lparr>sk_seq_check = False, sk_auto_ack = False, sk_connected = True, sk_port = env_port env,
          sk_seq_next = env_seq env, sk_groups = map (\<lambda>i. off + of_nat i) (filter (bit (mcgroups st)) [0..<4]),
          sk_sent = []\<rparr>"
  using prep_groups_joins [OF assms(1,4,5), of 0 4] assms
  by (cases "mcgroups st = 0")
     (simp_all add: prep_nl_sock_def nl_socket_alloc_def nl_socket_disable_seq_check_def
                    nl_socket_disable_auto_ack_def genl_connect_def resolve_family not_less Let_def)

lemma nla_parse_user_string:
  assumes "0 \<notin> set d" "length d < GENL_TEST_ATTR_MSG_MAX"
  shows "nla_parse_user genl_test_policy GENL_TEST_ATTR_MAX (nla_attr_bytes 1 (d @ [0])) = (None, [None, Some (d @ [0])])"
proof -
  have w: "nla_walk (nla_attr_bytes 1 (d @ [0])) = [(1, d @ [0])]"
    using nla_walk_single [of "d @ [0]" 1] assms(2) by simp
  have v: "nla_validate_user genl_test_policy 1 1 (d @ [0]) = None"
    using assms(2) by (simp add: nla_validate_user_def genl_test_policy_def)
  show ?thesis
    using v by (simp add: nla_parse_user_def w)
qed

lemma print_rx_greet:
  assumes "grp < 3"
  shows "print_rx_msg (greet_msg_bytes fid grp) = Cont (CO_says (hello_text grp))"
proof -
  have h: "0 \<notin> set (hello_text grp)" "length (hello_text grp) = 24"
    using hello_text_props [OF assms] by simp_all
  show ?thesis
    using nla_parse_user_string [of "hello_text grp"] h greet_msg_layout [OF assms, of fid]
    by (simp add: print_rx_msg_def genlmsg_parse_user_def NLMSG_HDRLEN_def GENL_HDRLEN_def
                  nla_get_string_def)
qed

lemma nla_total_size_le: "n \<le> 256 \<Longrightarrow> nla_total_size n \<le> 260"
proof -
  assume n: "n \<le> 256"
  have "nl_align (4 + n) < 264" "4 dvd nl_align (4 + n)"
    using nl_align_less [of "4 + n"] nl_align_dvd [of "4 + n"] n by simp_all
  then show ?thesis
    unfolding nla_total_size_def by presburger
qed

lemma send_msg_ok:
  assumes "env_family env = Some (fid, off)" "env_alloc_ok env" "\<not> sk_auto_ack sk"
    "length (cstr (message st)) < GENL_TEST_ATTR_MSG_MAX"
  shows "send_msg_to_kernel env st sk =
    (if env_send_ok env
     then Cont (int (length (request_bytes fid (sk_port sk) (sk_seq_next sk) (cstr (message st)))), [],
          sk\<lparr>sk_seq_next := sk_seq_next sk + 1,
             sk_sent := sk_sent sk @ [request_bytes fid (sk_port sk) (sk_seq_next sk) (cstr (message st))]\<rparr>)
     else Cont (- NLE_FAILURE, [D_no_send], sk\<lparr>sk_seq_next := sk_seq_next sk + 1\<rparr>))"
proof -
  let ?p = "nla_string_payload (message st)"
  have p: "?p = cstr (message st) @ [0]"
    by (simp add: nla_string_payload_def)
  have t: "nla_total_size (length ?p) \<le> 260"
    using assms(4) by (intro nla_total_size_le) simp
  have a20: "nl_align 20 = 20"
    by (simp add: nl_align_def)
  show ?thesis
    using assms t
    by (simp add: send_msg_to_kernel_def resolve_family nlmsg_alloc_def genlmsg_put_user_def
                  nla_put_user_def nl_send_auto_def nl_complete_msg_def request_bytes_def
                  genlmsghdr_bytes_def NL_AUTO_PORT_def NL_AUTO_SEQ_def NLM_F_REQUEST_def NLM_F_ACK_def
                  NL_DEFAULT_MSG_SIZE_def NLMSG_HDRLEN_def GENL_HDRLEN_def NLE_FAILURE_def a20 p Let_def not_less)
qed

lemma nla_parse_kernel_string:
  assumes "0 \<notin> set d" "length d < GENL_TEST_ATTR_MSG_MAX"
  shows "nla_parse_kernel genl_test_policy GENL_TEST_ATTR_MAX (nla_attr_bytes 1 (d @ [0])) = (None, [None, Some (d @ [0])])"
proof -
  have v: "nla_validate_kernel genl_test_policy 1 1 (d @ [0]) = None"
    using assms(2) by (simp add: nla_validate_kernel_def genl_test_policy_def)
  show ?thesis
    using assms(2) v by (simp add: nla_parse_kernel_def nla_walk_single)
qed

lemma genl_rcv_request:
  assumes "0 \<notin> set d" "length d < GENL_TEST_ATTR_MSG_MAX"
  shows "genl_rcv_msg portid (request_bytes fid port seq d) after s =
           (None, s\<lparr>ks_log := ks_log s @ [KL_says portid (Some d)]\<rparr>)"
proof -
  have t: "nla_total_size (Suc (length d)) \<le> 260"
    using assms(2) by (intro nla_total_size_le) simp
  then have "unat (word_of_nat (20 + nla_total_size (Suc (length d))) :: u32) = 20 + nla_total_size (Suc (length d))"
    by (subst unat_of_nat) simp
  then have l: "unat (20 + word_of_nat (nla_total_size (Suc (length d))) :: u32) = 20 + nla_total_size (Suc (length d))"
    by simp
  show ?thesis
    using nla_parse_kernel_string [OF assms] assms t l
    by (simp add: genl_rcv_msg_def request_bytes_def genlmsghdr_bytes_def NLMSG_HDRLEN_def GENL_HDRLEN_def
                  genl_test_rx_msg_def read_cstr_def cstr_append nth_append
                  genl_test_family_def genl_test_ops_def)
qed

lemma of_nat_u32_small_inj: "i < 4 \<Longrightarrow> j < 4 \<Longrightarrow> (word_of_nat i :: u32) = word_of_nat j \<longleftrightarrow> i = j"
  by (auto simp: word_of_nat_eq_iff take_bit_nat_eq_self)

lemma recv_greets:
  "\<forall>g \<in> set G. g < 3 \<Longrightarrow>
   recv_loop (map (\<lambda>g. greet_msg_bytes fid (word_of_nat g)) G) = Cont (map (\<lambda>g. CO_says (hello_text (word_of_nat g))) G)"
proof (induction G)
  case (Cons g G)
  have "word_of_nat g < (3 :: u32)"
    using Cons.prems by (simp add: word_less_nat_alt unat_of_nat)
  then show ?case
    using Cons by (simp add: print_rx_greet)
qed simp

lemma add_group_keeps: "add_group g st = Cont st' \<Longrightarrow> send_to_kernel st' = send_to_kernel st"
  by (cases g) (auto simp: add_group_def Let_def split: if_splits)

lemma add_group_list_keeps: "add_group_list gs st = Cont st' \<Longrightarrow> send_to_kernel st' = send_to_kernel st"
  by (induction gs arbitrary: st) (auto split: outcome.splits dest!: add_group_keeps)

lemma cli_inv_bit3: "cli_inv st \<Longrightarrow> \<not> bit (mcgroups st) 3"
proof
  assume "cli_inv st" "bit (mcgroups st) 3"
  then have "3 \<in> groups_of_mask (mcgroups st)" "groups_of_mask (mcgroups st) \<subseteq> {..<3}"
    by (simp_all add: groups_of_mask_def cli_inv_def)
  then show False
    by auto
qed

lemma parse_listen:
  assumes "parse_cmd_line [Opt_l a] = Cont st"
  shows "send_to_kernel st = 0 \<and> \<not> bit (mcgroups st) 3"
proof -
  obtain st0 where l: "opt_listen a client_init = Cont st0"
    using assms by (cases "opt_listen a client_init") (auto simp: parse_cmd_line_def)
  then have st: "sanity_checks st0 = Cont st"
    using assms by (simp add: parse_cmd_line_def)
  have "send_to_kernel st0 = 0"
    using l add_group_keeps add_group_list_keeps
    by (auto simp: opt_listen_def client_init_def split: list.splits outcome.splits)
  moreover have "cli_inv st0"
    using l cli_inv_init by (rule opt_listen_inv)
  moreover have "st = st0"
    using st by (simp add: sanity_checks_def split: if_splits)
  ultimately show ?thesis
    by (simp add: cli_inv_bit3)
qed

lemma parse_cmd_line_inv: "parse_cmd_line opts = Cont st \<Longrightarrow> cli_inv st"
proof -
  assume a: "parse_cmd_line opts = Cont st"
  obtain st0 where p: "parse_opts opts client_init = Cont st0"
    using a by (cases "parse_opts opts client_init") (auto simp: parse_cmd_line_def)
  then have "st = st0"
    using a by (simp add: parse_cmd_line_def sanity_checks_def split: if_splits)
  then show ?thesis
    using parse_opts_inv [OF p cli_inv_init] by simp
qed

lemma cli_inv_mask: "cli_inv st \<Longrightarrow> set (filter (bit (mcgroups st)) [0..<4]) = groups_of_mask (mcgroups st)"
  by (auto simp: cli_inv_def groups_of_mask_def)

lemma distinct_join_list: "distinct (map (\<lambda>i. (off::u32) + word_of_nat i) (filter P [0..<4]))"
  by (auto simp: distinct_map inj_on_def of_nat_u32_small_inj)

lemma periodic_out:
  "ks_out (genl_test_periodic ((a0, b0), (a1, b1), (a2, b2)) s) =
     ks_out s @ greet_out s 0 b0 @ greet_out s 1 b1 @ greet_out s 2 b2"
  by (simp add: genl_test_periodic_def mod_timer_def GENL_TEST_MCGRP0_def GENL_TEST_MCGRP1_def GENL_TEST_MCGRP2_def)

lemma joined_member:
  assumes "g < 4"
  shows "(off::u32) + word_of_nat g \<in> set (map (\<lambda>i. off + word_of_nat i) (filter (bit mcg) [0..<4])) \<longleftrightarrow> bit mcg g"
proof
  assume "off + word_of_nat g \<in> set (map (\<lambda>i. off + word_of_nat i) (filter (bit mcg) [0..<4]))"
  then obtain x where "x < 4" "bit mcg x" "(word_of_nat x :: u32) = word_of_nat g"
    by (auto simp: eq_commute [of "word_of_nat g"])
  then show "bit mcg g"
    using of_nat_u32_small_inj [of x g] assms by simp
next
  assume "bit mcg g"
  then show "off + word_of_nat g \<in> set (map (\<lambda>i. off + word_of_nat i) (filter (bit mcg) [0..<4]))"
    using assms by auto
qed

lemma deliver_greets:
  assumes "\<forall>g < 3. ks_mcgrp_offset s + word_of_nat g \<in> set G \<longleftrightarrow> bit mcg g"
  shows "nl_deliver G (greet_out s 0 b0 @ greet_out s 1 b1 @ greet_out s 2 b2) =
         map (\<lambda>g. greet_msg_bytes (ks_fam_id s) (word_of_nat g)) (filter (\<lambda>g. bit mcg g \<and> [b0, b1, b2] ! g) [0, 1, 2])"
proof -
  have m: "ks_mcgrp_offset s \<in> set G \<longleftrightarrow> bit mcg 0" "ks_mcgrp_offset s + 1 \<in> set G \<longleftrightarrow> bit mcg 1"
    "ks_mcgrp_offset s + 2 \<in> set G \<longleftrightarrow> bit mcg 2"
    using assms [rule_format, of 0] assms [rule_format, of 1] assms [rule_format, of 2] by simp_all
  show ?thesis
    by (simp add: nl_deliver_def greet_out_def m)
qed

lemma parse_send:
  assumes "CHR 0x00 \<notin> set m" "m \<noteq> []"
  shows "parse_cmd_line [Opt_s, Opt_m m] = Cont (opt_message m (client_init\<lparr>send_to_kernel := 1\<rparr>)) \<and>
         cstr (message (opt_message m (client_init\<lparr>send_to_kernel := 1\<rparr>))) = take 255 (bytes m)"
proof -
  let ?st = "opt_message m (client_init\<lparr>send_to_kernel := 1\<rparr>)"
  have b: "message ?st = take 255 (bytes m) @ 0 # replicate (255 - length m) 0"
    using opt_message_buffer [OF assms(1), of "client_init\<lparr>send_to_kernel := 1\<rparr>"] by (simp add: client_init_def)
  have n: "0 \<notin> set (take 255 (bytes m))"
    using assms(1) by (auto dest: in_set_takeD)
  have h: "take 255 (bytes m) \<noteq> []"
    using assms(2) by simp
  then have nz: "message ?st ! 0 \<noteq> 0"
    using n unfolding b by (cases "take 255 (bytes m)") auto
  have g: "mcgroups ?st = 0" "send_to_kernel ?st = 1"
    by (simp_all add: opt_message_def client_init_def)
  have "parse_cmd_line [Opt_s, Opt_m m] = Cont ?st"
    using nz g by (simp add: parse_cmd_line_def sanity_checks_def)
  moreover have "cstr (message ?st) = take 255 (bytes m)"
    using n unfolding b by simp
  ultimately show ?thesis
    by simp
qed

lemma groups_of_mask_zero [simp]: "groups_of_mask 0 = {}"
  by (simp add: groups_of_mask_def)

text \<open>The option loop over \<open>-s\<close>, \<open>-m\<close> and \<open>-l\<close> options with valid
  groups: it never exits, \<open>-s\<close> sets the send flag, \<open>-l\<close> sets a bit, and
  only \<open>-m\<close> touches the message buffer.\<close>

lemma parse_opts_modes:
  assumes "\<forall>x\<in>set opts. x = Opt_s \<or> (\<exists>m. x = Opt_m m) \<or>
             (\<exists>a. x = Opt_l a \<and> strtok_tokens a \<noteq> [] \<and> (\<forall>g\<in>set (strtok_tokens a). group_of g \<le> 2))"
  shows "\<exists>st'. parse_opts opts st = Cont st' \<and>
           (send_to_kernel st' \<noteq> 0 \<longleftrightarrow> Opt_s \<in> set opts \<or> send_to_kernel st \<noteq> 0) \<and>
           (mcgroups st' \<noteq> 0 \<longleftrightarrow> (\<exists>a. Opt_l a \<in> set opts) \<or> mcgroups st \<noteq> 0) \<and>
           ((\<forall>m. Opt_m m \<notin> set opts) \<longrightarrow> message st' = message st)"
  using assms
proof (induction opts arbitrary: st)
  case Nil
  then show ?case by simp
next
  case (Cons x os)
  then have os: "\<forall>x\<in>set os. x = Opt_s \<or> (\<exists>m. x = Opt_m m) \<or>
             (\<exists>a. x = Opt_l a \<and> strtok_tokens a \<noteq> [] \<and> (\<forall>g\<in>set (strtok_tokens a). group_of g \<le> 2))"
    by simp
  consider (s) "x = Opt_s" | (m) m where "x = Opt_m m"
    | (l) a where "x = Opt_l a" "strtok_tokens a \<noteq> []" "\<forall>g\<in>set (strtok_tokens a). group_of g \<le> 2"
    using Cons.prems by auto
  then show ?case
  proof cases
    case s
    then show ?thesis
      using Cons.IH [OF os, of "st\<lparr>send_to_kernel := 1\<rparr>"] by auto
  next
    case m
    then show ?thesis
      using Cons.IH [OF os, of "opt_message m st"] by (auto simp: opt_message_def)
  next
    case l
    obtain st1 where a: "add_group_list (strtok_tokens a) st = Cont st1"
        and f: "st1\<lparr>mcgroups := mcgroups st\<rparr> = st"
        and g: "groups_of_mask (mcgroups st1) =
                  groups_of_mask (mcgroups st) \<union> (\<lambda>g. unat (group_of g)) ` set (strtok_tokens a)"
      using add_group_list_groups [OF l(3)] by blast
    have ol: "opt_listen a st = Cont st1"
      using a opt_listen_tokens [OF l(2)] by simp
    have same: "send_to_kernel st1 = send_to_kernel st" "message st1 = message st"
      using f by (metis client_state.select_convs(1,2) client_state.surjective client_state.update_convs(3))+
    have "groups_of_mask (mcgroups st1) \<noteq> {}"
      using g l(2) by auto
    then have nz: "mcgroups st1 \<noteq> 0"
      by auto
    show ?thesis
      using Cons.IH [OF os, of st1] l(1) ol same nz by auto
  qed
qed

subsection \<open>Properties of the client session\<close>

text \<open>C21.  End to end in listen mode: for every \<open>-l\<close> argument that
  \<open>parse_cmd_line\<close> accepts, when the module is registered and every
  socket call succeeds, after one timer tick the client has joined exactly
  the groups of its mask (as the kernel's group ids, in bit order) and has
  printed, in group order, the hello text of each joined group whose
  broadcast allocation succeeded, and nothing else.\<close>

theorem listen_end_to_end:
  assumes "parse_cmd_line [Opt_l a] = Cont st"
    "env_family env = Some (ks_fam_id s, ks_mcgrp_offset s)" "env_sock_ok env" "env_connect_ok env"
    "env_join_ok env" "ks_out s = []"
  shows "client_main env [Opt_l a] (ks_out (genl_test_periodic ((a0, b0), (a1, b1), (a2, b2)) s)) =
    M_listening (map (\<lambda>i. ks_mcgrp_offset s + word_of_nat i) (filter (bit (mcgroups st)) [0, 1, 2]))
      (map (\<lambda>g. CO_says (hello_text (word_of_nat g))) (filter (\<lambda>g. bit (mcgroups st) g \<and> [b0, b1, b2] ! g) [0, 1, 2]))"
proof -
  have p: "send_to_kernel st = 0" "\<not> bit (mcgroups st) 3"
    using parse_listen [OF assms(1)] by simp_all
  let ?G = "map (\<lambda>i. ks_mcgrp_offset s + word_of_nat i) (filter (bit (mcgroups st)) [0..<4])"
  have sk: "prep_nl_sock env st = Cont \<lparr>sk_seq_check = False, sk_auto_ack = False, sk_connected = True,
      sk_port = env_port env, sk_seq_next = env_seq env, sk_groups = ?G, sk_sent = []\<rparr>"
    using prep_nl_sock_ok [OF assms(2-5) p(2)] .
  have mem: "\<forall>g < 3. ks_mcgrp_offset s + word_of_nat g \<in> set ?G \<longleftrightarrow> bit (mcgroups st) g"
  proof (intro allI impI)
    fix g :: nat
    assume "g < 3"
    then show "ks_mcgrp_offset s + word_of_nat g \<in> set ?G \<longleftrightarrow> bit (mcgroups st) g"
      by (intro joined_member) simp
  qed
  have g4: "filter (bit (mcgroups st)) [0..<4] = filter (bit (mcgroups st)) [0, 1, 2]"
    using p(2) by (simp add: upt_rec numeral_eq_Suc)
  let ?mc = "ks_out (genl_test_periodic ((a0, b0), (a1, b1), (a2, b2)) s)"
  let ?F = "filter (\<lambda>g. bit (mcgroups st) g \<and> [b0, b1, b2] ! g) [0, 1, 2]"
  have out: "?mc = greet_out s 0 b0 @ greet_out s 1 b1 @ greet_out s 2 b2"
    by (simp add: periodic_out assms(6))
  have r: "recv_loop (nl_deliver ?G ?mc) = Cont (map (\<lambda>g. CO_says (hello_text (word_of_nat g))) ?F)"
    unfolding out deliver_greets [OF mem] by (rule recv_greets) auto
  have "client_main env [Opt_l a] ?mc =
      (case recv_loop (nl_deliver ?G ?mc) of Cont outs \<Rightarrow> M_listening ?G outs
       | Exit c d \<Rightarrow> M_exit c d [] | Fault \<Rightarrow> M_fault)"
    by (simp add: client_main_def assms(1) p(1) sk split: outcome.split)
  also have "\<dots> = M_listening ?G (map (\<lambda>g. CO_says (hello_text (word_of_nat g))) ?F)"
    by (simp only: r outcome.case)
  finally show ?thesis
    by (simp only: g4)
qed

text \<open>C22.  End to end in send mode: \<open>-s -m m\<close> with a non-empty \<open>m\<close>
  sends exactly one request and exits with success; the kernel's generic
  netlink core accepts it, dispatches it to \<open>genl_test_rx_msg\<close>, which
  logs the sender's port and the first 255 bytes of \<open>m\<close>.\<close>

theorem send_end_to_end:
  assumes "env_family env = Some (ks_fam_id s, off)" "env_sock_ok env" "env_connect_ok env"
    "env_alloc_ok env" "env_send_ok env" "CHR 0x00 \<notin> set m" "m \<noteq> []"
  shows "\<exists>req. client_main env [Opt_s, Opt_m m] mc = M_exit EXIT_SUCCESS [] [req] \<and>
           genl_rcv_msg (env_port env) req after s =
             (None, s\<lparr>ks_log := ks_log s @ [KL_says (env_port env) (Some (take 255 (bytes m)))]\<rparr>)"
proof -
  let ?st = "opt_message m (client_init\<lparr>send_to_kernel := 1\<rparr>)"
  have p: "parse_cmd_line [Opt_s, Opt_m m] = Cont ?st" and c: "cstr (message ?st) = take 255 (bytes m)"
    using parse_send [OF assms(6,7)] by simp_all
  have g: "mcgroups ?st = 0" "send_to_kernel ?st = 1"
    by (simp_all add: opt_message_def client_init_def)
  let ?sk = "\<lparr>sk_seq_check = False, sk_auto_ack = False, sk_connected = True, sk_port = env_port env,
             sk_seq_next = env_seq env, sk_groups = [], sk_sent = []\<rparr>"
  have sk: "prep_nl_sock env ?st = Cont ?sk"
    using g assms(1-3)
    by (simp add: prep_nl_sock_def nl_socket_alloc_def nl_socket_disable_seq_check_def
                  nl_socket_disable_auto_ack_def genl_connect_def resolve_family not_less)
  let ?req = "request_bytes (ks_fam_id s) (env_port env) (env_seq env) (take 255 (bytes m))"
  have l: "length (cstr (message ?st)) < GENL_TEST_ATTR_MSG_MAX"
    unfolding c by simp
  have snd: "send_msg_to_kernel env ?st ?sk =
      Cont (int (length ?req), [], ?sk\<lparr>sk_seq_next := env_seq env + 1, sk_sent := [?req]\<rparr>)"
    using send_msg_ok [OF assms(1,4) _ l, of ?sk] assms(5) c by simp
  have "client_main env [Opt_s, Opt_m m] mc = M_exit EXIT_SUCCESS [] [?req]"
    using p sk snd g by (simp add: client_main_def)
  moreover have n: "0 \<notin> set (take 255 (bytes m))"
    using assms(6) by (auto dest: in_set_takeD)
  have "genl_rcv_msg (env_port env) ?req after s =
      (None, s\<lparr>ks_log := ks_log s @ [KL_says (env_port env) (Some (take 255 (bytes m)))]\<rparr>)"
    by (rule genl_rcv_request [OF n]) simp
  ultimately show ?thesis
    by blast
qed

text \<open>C23.  Refinement of the group mask by the memberships: for every state
  \<open>parse_cmd_line\<close> hands over, \<open>prep_nl_sock\<close> (when the
  environment's calls succeed) joins each group of the mask once, as the
  family's first group id plus the group number, and turns off sequence
  checks and automatic acknowledgements.\<close>

theorem prep_nl_sock_joins:
  assumes "parse_cmd_line opts = Cont st" "env_family env = Some (fid, off)" "env_sock_ok env"
    "env_connect_ok env" "env_join_ok env"
  shows "\<exists>sk. prep_nl_sock env st = Cont sk \<and>
           set (sk_groups sk) = (\<lambda>g. off + word_of_nat g) ` groups_of_mask (mcgroups st) \<and>
           distinct (sk_groups sk) \<and> \<not> sk_seq_check sk \<and> \<not> sk_auto_ack sk"
proof -
  have inv: "cli_inv st"
    using assms(1) by (rule parse_cmd_line_inv)
  then have "\<not> bit (mcgroups st) 3"
    by (rule cli_inv_bit3)
  then show ?thesis
    using prep_nl_sock_ok [OF assms(2-5)] cli_inv_mask [OF inv] distinct_join_list
    by (simp add: image_image)
qed

text \<open>C24.  Mode errors are reported before any socket call, in every
  environment and whatever the kernel has sent: any mix of \<open>-s\<close>, \<open>-m\<close>
  and \<open>-l\<close> options with valid groups that has both an \<open>-s\<close> and an
  \<open>-l\<close> exits with failure after "I can either receive or send" and the
  usage text; \<open>-s\<close> alone, any number of times, exits with failure asking
  for the message; \<open>-m\<close> alone, any number of times, exits with success
  after "nothing to do".  Nothing is sent in any of these runs.\<close>

theorem mode_errors_before_socket:
  "((\<forall>x\<in>set opts. x = Opt_s \<or> (\<exists>m. x = Opt_m m) \<or>
       (\<exists>a. x = Opt_l a \<and> strtok_tokens a \<noteq> [] \<and> (\<forall>g\<in>set (strtok_tokens a). group_of g \<le> 2))) \<and>
     Opt_s \<in> set opts \<and> (\<exists>a. Opt_l a \<in> set opts) \<longrightarrow>
     client_main env opts mc = M_exit EXIT_FAILURE [D_send_or_receive, D_usage] []) \<and>
   ((\<forall>x\<in>set opts. x = Opt_s) \<and> opts \<noteq> [] \<longrightarrow>
     client_main env opts mc = M_exit EXIT_FAILURE [D_what_message, D_usage] []) \<and>
   ((\<forall>x\<in>set opts. \<exists>m. x = Opt_m m) \<longrightarrow>
     client_main env opts mc = M_exit EXIT_SUCCESS [D_nothing_to_do, D_usage] [])"
proof (intro conjI impI)
  assume a: "(\<forall>x\<in>set opts. x = Opt_s \<or> (\<exists>m. x = Opt_m m) \<or>
       (\<exists>a. x = Opt_l a \<and> strtok_tokens a \<noteq> [] \<and> (\<forall>g\<in>set (strtok_tokens a). group_of g \<le> 2))) \<and>
     Opt_s \<in> set opts \<and> (\<exists>a. Opt_l a \<in> set opts)"
  then obtain st' where "parse_opts opts client_init = Cont st'" "send_to_kernel st' \<noteq> 0" "mcgroups st' \<noteq> 0"
    using parse_opts_modes [of opts client_init] by auto
  then show "client_main env opts mc = M_exit EXIT_FAILURE [D_send_or_receive, D_usage] []"
    by (simp add: client_main_def parse_cmd_line_def sanity_checks_def)
next
  assume a: "(\<forall>x\<in>set opts. x = Opt_s) \<and> opts \<noteq> []"
  then have "Opt_s \<in> set opts"
    by (cases opts) auto
  then obtain st' where "parse_opts opts client_init = Cont st'" "send_to_kernel st' \<noteq> 0" "mcgroups st' = 0"
      "message st' = message client_init"
    using a parse_opts_modes [of opts client_init] by (auto simp: client_init_def)
  then show "client_main env opts mc = M_exit EXIT_FAILURE [D_what_message, D_usage] []"
    by (simp add: client_main_def parse_cmd_line_def sanity_checks_def client_init_def GENL_TEST_ATTR_MSG_MAX_def)
next
  assume a: "\<forall>x\<in>set opts. \<exists>m. x = Opt_m m"
  then obtain st' where "parse_opts opts client_init = Cont st'" "send_to_kernel st' = 0" "mcgroups st' = 0"
    using parse_opts_modes [of opts client_init] by (auto simp: client_init_def)
  then show "client_main env opts mc = M_exit EXIT_SUCCESS [D_nothing_to_do, D_usage] []"
    by (simp add: client_main_def parse_cmd_line_def sanity_checks_def)
qed

text \<open>C25.  \<open>main\<close> ignores the value of \<open>send_msg_to_kernel\<close>: when the
  transmission fails the client prints the failure and still exits with
  \<open>EXIT_SUCCESS\<close>.\<close>

theorem send_result_ignored:
  assumes "env_family env = Some (fid, off)" "env_sock_ok env" "env_connect_ok env"
    "env_alloc_ok env" "\<not> env_send_ok env" "CHR 0x00 \<notin> set m" "m \<noteq> []"
  shows "client_main env [Opt_s, Opt_m m] mc = M_exit EXIT_SUCCESS [D_no_send] []"
proof -
  let ?st = "opt_message m (client_init\<lparr>send_to_kernel := 1\<rparr>)"
  have p: "parse_cmd_line [Opt_s, Opt_m m] = Cont ?st" and c: "cstr (message ?st) = take 255 (bytes m)"
    using parse_send [OF assms(6,7)] by simp_all
  have g: "mcgroups ?st = 0" "send_to_kernel ?st = 1"
    by (simp_all add: opt_message_def client_init_def)
  let ?sk = "\<lparr>sk_seq_check = False, sk_auto_ack = False, sk_connected = True, sk_port = env_port env,
             sk_seq_next = env_seq env, sk_groups = [], sk_sent = []\<rparr>"
  have sk: "prep_nl_sock env ?st = Cont ?sk"
    using g assms(1-3)
    by (simp add: prep_nl_sock_def nl_socket_alloc_def nl_socket_disable_seq_check_def
                  nl_socket_disable_auto_ack_def genl_connect_def resolve_family not_less)
  have l: "length (cstr (message ?st)) < GENL_TEST_ATTR_MSG_MAX"
    unfolding c by simp
  show ?thesis
    using p g sk send_msg_ok [OF assms(1,4) _ l, of ?sk] assms(5) by (simp add: client_main_def)
qed

text \<open>C26.  \<open>print_rx_msg\<close> ignores the result of \<open>genlmsg_parse\<close>: a
  received message too short for the generic header leaves \<open>attr\<close>
  uninitialised and reading it is undefined behaviour.\<close>

theorem print_rx_short:
  "unat (nlmsg_len (get_nlmsghdr msg)) < NLMSG_HDRLEN + GENL_HDRLEN \<Longrightarrow> print_rx_msg msg = Fault"
  by (simp add: print_rx_msg_def genlmsg_parse_user_def)

text \<open>C27.  The loop of \<open>prep_nl_sock\<close> is the join step applied to the
  set bits of the mask below \<open>sizeof(unsigned int)\<close>, in increasing order,
  stopping at the first failure: it neither skips nor repeats a bit.\<close>

text \<open>C37.  Socket setup errors are fatal and come in the source's order:
  a failed \<open>nl_socket_alloc\<close>, a failed \<open>genl_connect\<close>, an unknown family,
  each exit with \<open>EXIT_FAILURE\<close> and its own diagnostic before any group is
  joined; with the family known and the membership call failing, a client
  with groups exits at the lowest group of its mask with the message for
  \<open>1 << bit\<close>.\<close>

theorem prep_nl_sock_errors:
  "(\<not> env_sock_ok env \<longrightarrow> prep_nl_sock env st = Exit EXIT_FAILURE [D_no_sock]) \<and>
   (env_sock_ok env \<and> \<not> env_connect_ok env \<longrightarrow> prep_nl_sock env st = Exit EXIT_FAILURE [D_no_connect]) \<and>
   (env_sock_ok env \<and> env_connect_ok env \<and> env_family env = None \<longrightarrow>
      prep_nl_sock env st = Exit EXIT_FAILURE [D_no_family]) \<and>
   (env_sock_ok env \<and> env_connect_ok env \<and> env_family env \<noteq> None \<and> \<not> env_join_ok env \<and>
      cli_inv st \<and> mcgroups st \<noteq> 0 \<longrightarrow>
      prep_nl_sock env st = Exit EXIT_FAILURE [D_no_join (push_bit (hd (filter (bit (mcgroups st)) [0..<4])) 1)])"
proof (intro conjI impI)
  assume "\<not> env_sock_ok env"
  then show "prep_nl_sock env st = Exit EXIT_FAILURE [D_no_sock]"
    by (simp add: prep_nl_sock_def nl_socket_alloc_def)
next
  assume "env_sock_ok env \<and> \<not> env_connect_ok env"
  then show "prep_nl_sock env st = Exit EXIT_FAILURE [D_no_connect]"
    by (simp add: prep_nl_sock_def nl_socket_alloc_def genl_connect_def Let_def)
next
  assume "env_sock_ok env \<and> env_connect_ok env \<and> env_family env = None"
  then show "prep_nl_sock env st = Exit EXIT_FAILURE [D_no_family]"
    by (simp add: prep_nl_sock_def nl_socket_alloc_def genl_connect_def genl_ctrl_resolve_def
                  NLE_OBJ_NOTFOUND_def Let_def)
next
  assume a: "env_sock_ok env \<and> env_connect_ok env \<and> env_family env \<noteq> None \<and> \<not> env_join_ok env \<and>
      cli_inv st \<and> mcgroups st \<noteq> 0"
  then obtain fid off where f: "env_family env = Some (fid, off)"
    by auto
  have b3: "\<not> bit (mcgroups st) 3"
    using a cli_inv_bit3 by blast
  have "set (filter (bit (mcgroups st)) [0..<4]) = groups_of_mask (mcgroups st)"
    using a cli_inv_mask by blast
  moreover have "groups_of_mask (mcgroups st) \<noteq> {}"
    using a groups_of_mask_empty by blast
  ultimately have "filter (bit (mcgroups st)) [0..<4] \<noteq> []"
    by (metis set_empty)
  then obtain k ks where k: "filter (bit (mcgroups st)) [0..<4] = k # ks"
    by (cases "filter (bit (mcgroups st)) [0..<4]") auto
  have "prep_groups env (mcgroups st) 0 sk = Exit EXIT_FAILURE [D_no_join (push_bit k 1)]" for sk
    using prep_groups_join_fails [OF f _ b3, of 0 4] a k by simp
  then show "prep_nl_sock env st =
      Exit EXIT_FAILURE [D_no_join (push_bit (hd (filter (bit (mcgroups st)) [0..<4])) 1)]"
    using a f k
    by (simp add: prep_nl_sock_def nl_socket_alloc_def genl_connect_def resolve_family Let_def not_less)
qed

theorem prep_groups_equiv:
  "prep_groups env mcg b sk = join_groups env (filter (bit mcg) [b..<SIZEOF_UNSIGNED_INT]) sk"
proof (induction env mcg b sk rule: prep_groups.induct)
  case (1 env mcg b sk)
  show ?case
  proof (cases "b < SIZEOF_UNSIGNED_INT")
    case True
    then have u: "[b..<SIZEOF_UNSIGNED_INT] = b # [Suc b..<SIZEOF_UNSIGNED_INT]"
      by (simp add: upt_conv_Cons)
    show ?thesis
      using "1.IH" True
      by (auto simp: prep_groups.simps [of env mcg b] u Let_def split: option.split)
  next
    case False
    then show ?thesis
      by (subst prep_groups.simps) simp
  qed
qed

subsection \<open>Witnesses\<close>

theorem listen_end_to_end_witness:
  "parse_cmd_line [Opt_l ''0,2''] = Cont (client_init\<lparr>mcgroups := 5\<rparr>) \<and>
   client_main \<lparr>env_family = Some (21, 5), env_port = 100, env_seq = 1, env_sock_ok = True,
       env_connect_ok = True, env_join_ok = True, env_alloc_ok = True, env_send_ok = True\<rparr>
     [Opt_l ''0,2''] (ks_out (genl_test_periodic ((True, True), (True, True), (True, True))
                        (snd (genl_test_init (Some (21, 5)) (kstate_boot 0))))) =
   M_listening [5, 7] [CO_says (hello_text 0), CO_says (hello_text 2)]"
proof -
  have p: "parse_cmd_line [Opt_l ''0,2''] = Cont (client_init\<lparr>mcgroups := 5\<rparr>)"
    by (simp add: cli_eval)
  have k: "ks_fam_id (snd (genl_test_init (Some (21, 5)) (kstate_boot 0))) = 21"
    "ks_mcgrp_offset (snd (genl_test_init (Some (21, 5)) (kstate_boot 0))) = 5"
    "ks_out (snd (genl_test_init (Some (21, 5)) (kstate_boot 0))) = []"
    by (simp_all add: genl_test_init_def mod_timer_def kstate_boot_def)
  have b: "bit (5::u32) 0" "\<not> bit (5::u32) 1" "bit (5::u32) 2"
    by simp_all
  show ?thesis
    using p listen_end_to_end [OF p, of "\<lparr>env_family = Some (21, 5), env_port = 100, env_seq = 1, env_sock_ok = True,
       env_connect_ok = True, env_join_ok = True, env_alloc_ok = True, env_send_ok = True\<rparr>"
       "snd (genl_test_init (Some (21, 5)) (kstate_boot 0))" True True True True True True]
    by (simp add: k b client_init_def)
qed

theorem send_end_to_end_witness:
  "\<exists>req. client_main \<lparr>env_family = Some (21, 5), env_port = 100, env_seq = 1, env_sock_ok = True,
       env_connect_ok = True, env_join_ok = True, env_alloc_ok = True, env_send_ok = True\<rparr>
     [Opt_s, Opt_m ''ping''] [] = M_exit EXIT_SUCCESS [] [req] \<and>
   genl_rcv_msg 100 req [] (snd (genl_test_init (Some (21, 5)) (kstate_boot 0))) =
     (None, (snd (genl_test_init (Some (21, 5)) (kstate_boot 0)))\<lparr>ks_log := [KL_init, KL_says 100 (Some (bytes ''ping''))]\<rparr>)"
proof -
  have k: "ks_fam_id (snd (genl_test_init (Some (21, 5)) (kstate_boot 0))) = 21"
    "ks_log (snd (genl_test_init (Some (21, 5)) (kstate_boot 0))) = [KL_init]"
    by (simp_all add: genl_test_init_def mod_timer_def kstate_boot_def)
  show ?thesis
    using send_end_to_end [where env = "\<lparr>env_family = Some (21, 5), env_port = 100, env_seq = 1, env_sock_ok = True,
       env_connect_ok = True, env_join_ok = True, env_alloc_ok = True, env_send_ok = True\<rparr>"
       and s = "snd (genl_test_init (Some (21, 5)) (kstate_boot 0))" and off = 5 and m = "''ping''"
       and mc = "[]" and after = "[]"]
    by (simp add: k)
qed

theorem prep_nl_sock_joins_witness:
  "\<exists>sk. prep_nl_sock \<lparr>env_family = Some (21, 5), env_port = 100, env_seq = 1, env_sock_ok = True,
       env_connect_ok = True, env_join_ok = True, env_alloc_ok = True, env_send_ok = True\<rparr>
     (client_init\<lparr>mcgroups := 5\<rparr>) = Cont sk \<and> set (sk_groups sk) = {5, 7}"
proof -
  have p: "parse_cmd_line [Opt_l ''0,2''] = Cont (client_init\<lparr>mcgroups := 5\<rparr>)"
    by (simp add: cli_eval)
  have g: "groups_of_mask 5 = {0, 2}"
    by (simp add: groups_of_mask_def upt_rec numeral_2_eq_2)
  show ?thesis
    using prep_nl_sock_joins [OF p, of "\<lparr>env_family = Some (21, 5), env_port = 100, env_seq = 1, env_sock_ok = True,
       env_connect_ok = True, env_join_ok = True, env_alloc_ok = True, env_send_ok = True\<rparr>" 21 5]
    by (auto simp: g)
qed

theorem send_result_ignored_witness:
  "client_main \<lparr>env_family = Some (21, 5), env_port = 100, env_seq = 1, env_sock_ok = True,
       env_connect_ok = True, env_join_ok = True, env_alloc_ok = True, env_send_ok = False\<rparr>
     [Opt_s, Opt_m ''ping''] [] = M_exit EXIT_SUCCESS [D_no_send] []"
  using send_result_ignored [where env = "\<lparr>env_family = Some (21, 5), env_port = 100, env_seq = 1, env_sock_ok = True,
       env_connect_ok = True, env_join_ok = True, env_alloc_ok = True, env_send_ok = False\<rparr>"
       and fid = 21 and off = 5 and m = "''ping''" and mc = "[]"]
  by simp

theorem print_rx_short_witness:
  "unat (nlmsg_len (get_nlmsghdr (nlmsghdr_bytes \<lparr>nlmsg_len = 16, nlmsg_type = 21, nlmsg_flags = 0,
      nlmsg_seq = 0, nlmsg_pid = 0\<rparr>))) < NLMSG_HDRLEN + GENL_HDRLEN \<and>
   print_rx_msg (nlmsghdr_bytes \<lparr>nlmsg_len = 16, nlmsg_type = 21, nlmsg_flags = 0, nlmsg_seq = 0, nlmsg_pid = 0\<rparr>) = Fault"
proof -
  have h: "get_nlmsghdr (nlmsghdr_bytes \<lparr>nlmsg_len = 16, nlmsg_type = 21, nlmsg_flags = 0, nlmsg_seq = 0, nlmsg_pid = 0\<rparr>) =
      \<lparr>nlmsg_len = 16, nlmsg_type = 21, nlmsg_flags = 0, nlmsg_seq = 0, nlmsg_pid = 0\<rparr>"
    using get_nlmsghdr_bytes [of "\<lparr>nlmsg_len = 16, nlmsg_type = 21, nlmsg_flags = 0, nlmsg_seq = 0, nlmsg_pid = 0\<rparr>" "[]"]
    by simp
  have "unat (nlmsg_len (get_nlmsghdr (nlmsghdr_bytes \<lparr>nlmsg_len = 16, nlmsg_type = 21, nlmsg_flags = 0,
      nlmsg_seq = 0, nlmsg_pid = 0\<rparr>))) < NLMSG_HDRLEN + GENL_HDRLEN"
    by (simp add: h NLMSG_HDRLEN_def GENL_HDRLEN_def)
  then show ?thesis
    using print_rx_short by blast
qed


text \<open>The four setup failures, for a client on groups 1 and 2.\<close>

theorem prep_nl_sock_errors_witness:
  "prep_nl_sock (\<lparr>env_family = Some (21, 5), env_port = 100, env_seq = 1, env_sock_ok = True,
       env_connect_ok = True, env_join_ok = True, env_alloc_ok = True, env_send_ok = True\<rparr>\<lparr>env_sock_ok := False\<rparr>) (client_init\<lparr>mcgroups := 6\<rparr>) = Exit EXIT_FAILURE [D_no_sock] \<and>
   prep_nl_sock (\<lparr>env_family = Some (21, 5), env_port = 100, env_seq = 1, env_sock_ok = True,
       env_connect_ok = True, env_join_ok = True, env_alloc_ok = True, env_send_ok = True\<rparr>\<lparr>env_connect_ok := False\<rparr>) (client_init\<lparr>mcgroups := 6\<rparr>) = Exit EXIT_FAILURE [D_no_connect] \<and>
   prep_nl_sock (\<lparr>env_family = Some (21, 5), env_port = 100, env_seq = 1, env_sock_ok = True,
       env_connect_ok = True, env_join_ok = True, env_alloc_ok = True, env_send_ok = True\<rparr>\<lparr>env_family := None\<rparr>) (client_init\<lparr>mcgroups := 6\<rparr>) = Exit EXIT_FAILURE [D_no_family] \<and>
   prep_nl_sock (\<lparr>env_family = Some (21, 5), env_port = 100, env_seq = 1, env_sock_ok = True,
       env_connect_ok = True, env_join_ok = True, env_alloc_ok = True, env_send_ok = True\<rparr>\<lparr>env_join_ok := False\<rparr>) (client_init\<lparr>mcgroups := 6\<rparr>) = Exit EXIT_FAILURE [D_no_join 2]"
proof -
  let ?st = "client_init\<lparr>mcgroups := 6\<rparr>"
  have p: "parse_cmd_line [Opt_l ''1,2''] = Cont ?st"
    by (simp add: cli_eval)
  have i: "cli_inv ?st"
    by (rule parse_cmd_line_inv [OF p])
  have h: "hd (filter (bit (6::u32)) [0..<4]) = 1"
    by (simp add: upt_rec)
  show ?thesis
    using prep_nl_sock_errors [of "\<lparr>env_family = Some (21, 5), env_port = 100, env_seq = 1, env_sock_ok = True,
       env_connect_ok = True, env_join_ok = True, env_alloc_ok = True, env_send_ok = True\<rparr>\<lparr>env_sock_ok := False\<rparr>" ?st]
      prep_nl_sock_errors [of "\<lparr>env_family = Some (21, 5), env_port = 100, env_seq = 1, env_sock_ok = True,
       env_connect_ok = True, env_join_ok = True, env_alloc_ok = True, env_send_ok = True\<rparr>\<lparr>env_connect_ok := False\<rparr>" ?st]
      prep_nl_sock_errors [of "\<lparr>env_family = Some (21, 5), env_port = 100, env_seq = 1, env_sock_ok = True,
       env_connect_ok = True, env_join_ok = True, env_alloc_ok = True, env_send_ok = True\<rparr>\<lparr>env_family := None\<rparr>" ?st]
      prep_nl_sock_errors [of "\<lparr>env_family = Some (21, 5), env_port = 100, env_seq = 1, env_sock_ok = True,
       env_connect_ok = True, env_join_ok = True, env_alloc_ok = True, env_send_ok = True\<rparr>\<lparr>env_join_ok := False\<rparr>" ?st] i h
    by simp
qed


text \<open>The three mode errors on concrete command lines.\<close>

theorem mode_errors_before_socket_witness:
  "client_main \<lparr>env_family = Some (21, 5), env_port = 100, env_seq = 1, env_sock_ok = True,
       env_connect_ok = True, env_join_ok = True, env_alloc_ok = True, env_send_ok = True\<rparr> [Opt_m ''ping'', Opt_l ''0,2'', Opt_s] [] = M_exit EXIT_FAILURE [D_send_or_receive, D_usage] [] \<and>
   client_main \<lparr>env_family = Some (21, 5), env_port = 100, env_seq = 1, env_sock_ok = True,
       env_connect_ok = True, env_join_ok = True, env_alloc_ok = True, env_send_ok = True\<rparr> [Opt_s, Opt_s] [] = M_exit EXIT_FAILURE [D_what_message, D_usage] [] \<and>
   client_main \<lparr>env_family = Some (21, 5), env_port = 100, env_seq = 1, env_sock_ok = True,
       env_connect_ok = True, env_join_ok = True, env_alloc_ok = True, env_send_ok = True\<rparr> [Opt_m ''ping''] [] = M_exit EXIT_SUCCESS [D_nothing_to_do, D_usage] []"
proof -
  have t: "strtok_tokens ''0,2'' = [''0'', ''2'']"
    by (simp add: strtok_tokens_def)
  have g: "group_of ''0'' = 0" "group_of ''2'' = 2"
    by (simp_all add: strtoul_def c_isspace_def c_isdigit_def digits_value_def ULONG_MAX_def)
  show ?thesis
    using mode_errors_before_socket [of "[Opt_m ''ping'', Opt_l ''0,2'', Opt_s]" "\<lparr>env_family = Some (21, 5), env_port = 100, env_seq = 1, env_sock_ok = True,
       env_connect_ok = True, env_join_ok = True, env_alloc_ok = True, env_send_ok = True\<rparr>" "[]"]
      mode_errors_before_socket [of "[Opt_s, Opt_s]" "\<lparr>env_family = Some (21, 5), env_port = 100, env_seq = 1, env_sock_ok = True,
       env_connect_ok = True, env_join_ok = True, env_alloc_ok = True, env_send_ok = True\<rparr>" "[]"]
      mode_errors_before_socket [of "[Opt_m ''ping'']" "\<lparr>env_family = Some (21, 5), env_port = 100, env_seq = 1, env_sock_ok = True,
       env_connect_ok = True, env_join_ok = True, env_alloc_ok = True, env_send_ok = True\<rparr>" "[]"] t g
    by auto
qed

end
