(* ===== verification/Client_Strtok.thy ===== *)
theory Client_Strtok
  imports Client_Cli "HOL-Library.While_Combinator"
begin

text \<open>
  The \<open>-l\<close> option of \<open>parse_cmd_line\<close> (\<open>src/genl_ex.c\<close> lines 57--63) as
  the code runs it: \<open>strtok\<close> is a routine with hidden state (the saved
  pointer into the argument), the first call \<open>strtok(optarg, ",")\<close> and the
  loop \<open>while ((opt_val = strtok(NULL, ",")))\<close> thread that pointer.  The loop
  is a \<open>while_option\<close>, so that its termination is a theorem
  (\<open>listen_loop_terminates\<close>) and not an assumption of the model; the
  equivalence \<open>opt_listen_strtok_equiv\<close> shows that the token-list view
  \<open>opt_listen\<close> of \<open>Client_Cli\<close>, which the other claims use, is what the
  code computes.
\<close>

subsection \<open>strtok with its saved pointer\<close>

text \<open>glibc's \<open>__strtok_r(s, ",", &save)\<close>: skip the leading delimiters;
  at the end of the string return NULL; otherwise the token runs up to the
  next delimiter, which is overwritten by NUL, and the saved pointer is left
  just after it (at the end of the string when there is no delimiter).  The
  argument is the C string the pointer designates, the result the token and
  the new saved string, or \<open>None\<close> for NULL.\<close>

definition strtok :: "string \<Rightarrow> (string \<times> string) option" where
  "strtok s =
     (let s1 = dropWhile (\<lambda>c. c = CHR '','') s
      in if s1 = [] then None
         else Some (takeWhile (\<lambda>c. c \<noteq> CHR '','') s1, drop 1 (dropWhile (\<lambda>c. c \<noteq> CHR '','') s1)))"

subsection \<open>The token loop and option -l\<close>

text \<open>One round of \<open>while ((opt_val = strtok(NULL, ","))) add_group(opt_val);\<close>:
  the state is the saved string and the outcome so far; an \<open>exit()\<close> in
  \<open>add_group\<close> ends the process and so the loop.\<close>

definition listen_guard :: "string \<times> client_state outcome \<Rightarrow> bool" where
  "listen_guard x = (case x of (r, Cont st) \<Rightarrow> strtok r \<noteq> None | _ \<Rightarrow> False)"

definition listen_body :: "string \<times> client_state outcome \<Rightarrow> string \<times> client_state outcome" where
  "listen_body x =
     (case x of
        (r, Cont st) \<Rightarrow> (case strtok r of Some (t, r') \<Rightarrow> (r', add_group (Some t) st) | None \<Rightarrow> x)
      | _ \<Rightarrow> x)"

definition listen_loop :: "string \<Rightarrow> client_state \<Rightarrow> (string \<times> client_state outcome) option" where
  "listen_loop r st = while_option listen_guard listen_body (r, Cont st)"

text \<open>Option \<open>-l\<close>, lines 57--63: the first token goes to \<open>add_group\<close>
  unchecked (\<open>add_group(NULL)\<close> when there is none), then the loop runs on
  the saved string.  \<open>None\<close> would be a loop that does not end.\<close>

definition opt_listen_strtok :: "string \<Rightarrow> client_state \<Rightarrow> client_state outcome option" where
  "opt_listen_strtok optarg st =
     (case strtok optarg of
        None \<Rightarrow> Some (add_group None st)
      | Some (t, r) \<Rightarrow>
          (case add_group (Some t) st of
             Cont st' \<Rightarrow> map_option snd (listen_loop r st')
           | res \<Rightarrow> Some res))"

subsection \<open>Helper lemmas\<close>

lemma strtok_Nil [simp]: "strtok [] = None"
  by (simp add: strtok_def)

lemma strtok_comma [simp]: "strtok (CHR '','' # s) = strtok s"
  by (simp add: strtok_def)

lemma strtok_shorter: "strtok r = Some (t, r') \<Longrightarrow> length r' < length r"
proof -
  assume e: "strtok r = Some (t, r')"
  let ?s1 = "dropWhile (\<lambda>c. c = CHR '','') r"
  have ne: "?s1 \<noteq> []" and r': "r' = drop 1 (dropWhile (\<lambda>c. c \<noteq> CHR '','') ?s1)"
    using e by (auto simp: strtok_def Let_def split: if_splits)
  have pos: "0 < length ?s1"
    using ne by (metis length_greater_0_conv)
  have "length r' = length (dropWhile (\<lambda>c. c \<noteq> CHR '','') ?s1) - 1"
    using r' by simp
  then have "length r' < length ?s1"
    using pos length_dropWhile_le [of "\<lambda>c. c \<noteq> CHR '',''" ?s1] by linarith
  also have "\<dots> \<le> length r"
    by (rule length_dropWhile_le)
  finally show ?thesis .
qed

text \<open>One field of \<open>split_on\<close> and the rest after its delimiter.\<close>

lemma split_on_field:
  "split_on d s = takeWhile (\<lambda>c. c \<noteq> d) s #
     (if d \<in> set s then split_on d (drop 1 (dropWhile (\<lambda>c. c \<noteq> d) s)) else [])"
  by (induction s) (auto simp: Let_def)

text \<open>The token walk of \<open>strtok\<close> yields the non-empty fields.\<close>

lemma strtok_tokens_step:
  "strtok_tokens s = (case strtok s of None \<Rightarrow> [] | Some (t, r) \<Rightarrow> t # strtok_tokens r)"
proof (induction s)
  case Nil
  then show ?case by (simp add: strtok_tokens_def)
next
  case (Cons c cs)
  show ?case
  proof (cases "c = CHR '',''")
    case True
    with Cons show ?thesis by (simp add: strtok_tokens_def)
  next
    case False
    let ?t = "takeWhile (\<lambda>c. c \<noteq> CHR '','') (c # cs)"
    let ?r = "drop 1 (dropWhile (\<lambda>c. c \<noteq> CHR '','') (c # cs))"
    have st: "strtok (c # cs) = Some (?t, ?r)"
      using False by (simp add: strtok_def)
    have t: "?t \<noteq> []"
      using False by simp
    have "strtok_tokens (c # cs) = ?t # strtok_tokens ?r"
    proof (cases "CHR '','' \<in> set (c # cs)")
      case True
      then show ?thesis
        using t split_on_field [of "CHR '',''" "c # cs"] by (simp add: strtok_tokens_def)
    next
      case nd: False
      then have "dropWhile (\<lambda>c. c \<noteq> CHR '','') (c # cs) = []"
        by (simp only: dropWhile_eq_Nil_conv) blast
      then have "strtok_tokens ?r = []"
        by (simp add: strtok_tokens_def)
      then show ?thesis
        using t nd split_on_field [of "CHR '',''" "c # cs"] by (simp add: strtok_tokens_def)
    qed
    then show ?thesis
      using st by simp
  qed
qed

lemma listen_unfold:
  "while_option listen_guard listen_body (r, x) =
     (case (x, strtok r) of
        (Cont st, Some (t, r')) \<Rightarrow> while_option listen_guard listen_body (r', add_group (Some t) st)
      | _ \<Rightarrow> Some (r, x))"
  by (subst while_option_unfold)
     (auto simp: listen_guard_def listen_body_def split: outcome.split option.split)

text \<open>The loop run from any saved string and outcome ends with what the
  token-list loop \<open>add_group_list\<close> gives.\<close>

lemma listen_loop_tokens:
  "map_option snd (while_option listen_guard listen_body (r, x)) =
     Some (case x of Cont st \<Rightarrow> add_group_list (strtok_tokens r) st | Exit c d \<Rightarrow> Exit c d | Fault \<Rightarrow> Fault)"
proof (induction "length r" arbitrary: r x rule: less_induct)
  case less
  show ?case
  proof (cases "strtok r")
    case None
    then show ?thesis
      by (simp add: listen_unfold strtok_tokens_step [of r] split: outcome.split)
  next
    case (Some p)
    obtain t r' where p: "p = (t, r')" by (cases p)
    have "length r' < length r"
      using Some p strtok_shorter by simp
    then have IH: "map_option snd (while_option listen_guard listen_body (r', y)) =
        Some (case y of Cont st \<Rightarrow> add_group_list (strtok_tokens r') st | Exit c d \<Rightarrow> Exit c d | Fault \<Rightarrow> Fault)"
      for y
      using less by blast
    show ?thesis
    proof (cases x)
      case (Cont st)
      then show ?thesis
        using Some p IH [of "add_group (Some t) st"]
        by (simp add: listen_unfold [of r] strtok_tokens_step [of r])
    qed (simp_all add: listen_unfold [of r] Some p)
  qed
qed

subsection \<open>Properties of the token loop\<close>

text \<open>C32.  Termination of the \<open>strtok(NULL, ",")\<close> loop of option \<open>-l\<close>:
  whatever the argument and the globals, the loop ends, because every round
  that finds a token moves the saved pointer past it and so shortens the
  rest of the string.\<close>

theorem listen_loop_terminates: "\<exists>y. listen_loop r st = Some y"
  unfolding listen_loop_def
proof (rule measure_while_option_Some [where P = "\<lambda>_. True" and f = "\<lambda>(r, x). length r"])
  fix x :: "string \<times> client_state outcome"
  assume "listen_guard x"
  then obtain r st t r' where "x = (r, Cont st)" and "strtok r = Some (t, r')"
    by (auto simp: listen_guard_def split: prod.splits outcome.splits)
  then show "True \<and> (\<lambda>(r, x). length r) (listen_body x) < (\<lambda>(r, x). length r) x"
    using strtok_shorter by (simp add: listen_body_def)
qed simp

text \<open>C33.  Equivalence of the code and the model: option \<open>-l\<close> as the code
  runs it, with \<open>strtok\<close>'s saved pointer and the \<open>while\<close> loop, returns,
  and returns what \<open>opt_listen\<close> (the first token, then \<open>add_group\<close> on
  each further non-empty field) gives, on every argument and every branch.\<close>

theorem opt_listen_strtok_equiv: "opt_listen_strtok optarg st = Some (opt_listen optarg st)"
proof (cases "strtok optarg")
  case None
  then show ?thesis
    by (simp add: opt_listen_strtok_def opt_listen_def strtok_tokens_step [of optarg])
next
  case (Some p)
  obtain t r where p: "p = (t, r)" by (cases p)
  show ?thesis
  proof (cases "add_group (Some t) st")
    case (Cont st')
    then show ?thesis
      using Some p listen_loop_tokens [of r "Cont st'"]
      by (simp add: opt_listen_strtok_def opt_listen_def listen_loop_def strtok_tokens_step [of optarg])
  qed (simp_all add: opt_listen_strtok_def opt_listen_def Some p strtok_tokens_step [of optarg])
qed

end
