(* ===== verification/Client_Recv.thy ===== *)
theory Client_Recv
  imports Client_Session "HOL-Library.Stream"
begin

text \<open>
  The listening loop of \<open>main\<close>, \<open>src/genl_ex.c\<close> lines 233--238, as the
  code runs it: \<open>do { ret = nl_recvmsgs(nlsock, cb); } while (!ret);\<close>
  with no bound on the number of rounds.  Each call of \<open>nl_recvmsgs\<close> hands
  the messages of one receive to the callbacks and returns 0 or a negative
  libnl error; what the calls do is the input, an infinite stream.  The loop
  is a \<open>partial_function (option)\<close>: \<open>None\<close> is a run that never leaves the
  loop.  The lemmas say exactly which runs return
  (\<open>main_listen_returns\<close>) and that a run that returns has printed what the
  finite model \<open>recv_loop\<close> of \<open>Client_Session\<close> prints on all the messages
  received up to the failing call (\<open>main_listen_prints\<close>).
\<close>

subsection \<open>The loop\<close>

text \<open>One call of \<open>nl_recvmsgs\<close>: the messages it delivered to the
  callbacks and its return value.\<close>

type_synonym recv_call = "byte list list \<times> int"

text \<open>What \<open>print_rx_msg\<close> printed in one call, followed by what the rest of
  the run gives.\<close>

definition out_append :: "client_out list \<Rightarrow> client_out list outcome \<Rightarrow> client_out list outcome" where
  "out_append outs r = (case r of Cont outs' \<Rightarrow> Cont (outs @ outs') | Exit c d \<Rightarrow> Exit c d | Fault \<Rightarrow> Fault)"

text \<open>Lines 233--238: the body runs once before the test; the loop goes on
  while \<open>ret\<close> is 0; after it, \<open>nl_cb_put\<close> and \<open>return 0\<close> (the result
  \<open>Cont\<close> with what was printed).  Undefined behaviour in the callback
  (\<open>Fault\<close>) ends the model's run.\<close>

partial_function (option) main_listen :: "recv_call stream \<Rightarrow> client_out list outcome option" where
  "main_listen s =
     (case shd s of
        (ms, ret) \<Rightarrow>
          (case recv_loop ms of
             Cont outs \<Rightarrow>
               (if ret = 0 then Option.bind (main_listen (stl s)) (\<lambda>r. Some (out_append outs r))
                else Some (Cont outs))
           | Exit c d \<Rightarrow> Some (Exit c d)
           | Fault \<Rightarrow> Some Fault))"

text \<open>A call after which the loop goes on: \<open>nl_recvmsgs\<close> returned 0 and
  the callbacks handled every message.\<close>

definition recv_call_ok :: "recv_call \<Rightarrow> bool" where
  "recv_call_ok c \<longleftrightarrow> snd c = 0 \<and> (case recv_loop (fst c) of Cont _ \<Rightarrow> True | _ \<Rightarrow> False)"

subsection \<open>Helper lemmas\<close>

lemma recv_loop_append:
  "recv_loop (xs @ ys) = (case recv_loop xs of Cont a \<Rightarrow> out_append a (recv_loop ys) | Exit c d \<Rightarrow> Exit c d | Fault \<Rightarrow> Fault)"
  by (induction xs) (auto simp: out_append_def split: outcome.split)

lemma main_listen_stop:
  "\<not> recv_call_ok (shd s) \<Longrightarrow> main_listen s = Some (recv_loop (fst (shd s)))"
  by (subst main_listen.simps)
     (auto simp: recv_call_ok_def split: prod.split outcome.split outcome.split_asm)

lemma main_listen_next:
  "recv_call_ok (shd s) \<Longrightarrow> recv_loop (fst (shd s)) = Cont outs \<Longrightarrow>
   main_listen s = Option.bind (main_listen (stl s)) (\<lambda>r. Some (out_append outs r))"
  by (subst main_listen.simps) (auto simp: recv_call_ok_def split: prod.split)

lemma recv_call_okE:
  assumes "recv_call_ok c"
  obtains outs where "recv_loop (fst c) = Cont outs"
  using assms by (auto simp: recv_call_ok_def split: outcome.splits)

text \<open>A failing call at index \<open>i\<close> makes the loop return.\<close>

lemma main_listen_bad_returns: "\<not> recv_call_ok (s !! i) \<Longrightarrow> \<exists>y. main_listen s = Some y"
proof (induction i arbitrary: s)
  case 0
  then show ?case using main_listen_stop by simp
next
  case (Suc i)
  show ?case
  proof (cases "recv_call_ok (shd s)")
    case True
    then obtain outs where o: "recv_loop (fst (shd s)) = Cont outs"
      by (rule recv_call_okE)
    obtain y where "main_listen (stl s) = Some y"
      using Suc by auto
    then show ?thesis
      using main_listen_next [OF True o] by simp
  next
    case False
    then show ?thesis using main_listen_stop by simp
  qed
qed

text \<open>A run that returns has met a failing call.\<close>

lemma main_listen_returned_bad:
  assumes ret: "main_listen s = Some y"
  shows "\<exists>i. \<not> recv_call_ok (s !! i)"
proof (rule main_listen.raw_induct [where P = "\<lambda>s y. \<exists>i. \<not> recv_call_ok (s !! i)", OF _ ret])
  fix f :: "recv_call stream \<Rightarrow> client_out list outcome option" and s y
  assume IH: "\<And>s y. f s = Some y \<Longrightarrow> \<exists>i. \<not> recv_call_ok (s !! i)"
    and eq: "(case shd s of (ms, ret) \<Rightarrow>
               (case recv_loop ms of
                  Cont outs \<Rightarrow> (if ret = 0 then Option.bind (f (stl s)) (\<lambda>r. Some (out_append outs r))
                               else Some (Cont outs))
                | Exit c d \<Rightarrow> Some (Exit c d)
                | Fault \<Rightarrow> Some Fault)) = Some y"
  show "\<exists>i. \<not> recv_call_ok (s !! i)"
  proof (cases "recv_call_ok (shd s)")
    case True
    then obtain outs where o: "recv_loop (fst (shd s)) = Cont outs"
      by (rule recv_call_okE)
    with True eq obtain y' where "f (stl s) = Some y'"
      by (cases "shd s") (auto simp: recv_call_ok_def split: Option.bind_splits)
    then obtain i where "\<not> recv_call_ok (stl s !! i)"
      using IH by blast
    then have "\<not> recv_call_ok (s !! Suc i)"
      by simp
    then show ?thesis ..
  next
    case False
    then have "\<not> recv_call_ok (s !! 0)"
      by simp
    then show ?thesis ..
  qed
qed

subsection \<open>Properties of the listening loop\<close>

text \<open>C34.  Termination of the listening loop, exactly: the run of
  \<open>do { ret = nl_recvmsgs(nlsock, cb); } while (!ret);\<close> never returns if and
  only if every call of \<open>nl_recvmsgs\<close> returns 0 and \<open>print_rx_msg\<close> handles
  every message it delivers.  A listening client thus stops only on a
  receive error (or on undefined behaviour in the callback).\<close>

theorem main_listen_returns: "main_listen s = None \<longleftrightarrow> (\<forall>i. recv_call_ok (s !! i))"
proof
  assume "main_listen s = None"
  then show "\<forall>i. recv_call_ok (s !! i)"
    using main_listen_bad_returns by fastforce
next
  assume "\<forall>i. recv_call_ok (s !! i)"
  then show "main_listen s = None"
    using main_listen_returned_bad by (cases "main_listen s") auto
qed

text \<open>C35.  What a returning run printed: when the first \<open>n\<close> calls of
  \<open>nl_recvmsgs\<close> return 0 and call \<open>n\<close> fails, the loop returns with what
  \<open>recv_loop\<close> gives on all the messages of calls 0 to \<open>n\<close>, in order (the
  lines printed, or the undefined behaviour met first); a receive error
  does not lose the messages delivered before it.\<close>

theorem main_listen_prints:
  "(\<forall>i<n. snd (s !! i) = 0) \<Longrightarrow> snd (s !! n) \<noteq> 0 \<Longrightarrow>
   main_listen s = Some (recv_loop (concat (map fst (stake (Suc n) s))))"
proof (induction n arbitrary: s)
  case 0
  then have "\<not> recv_call_ok (shd s)"
    by (simp add: recv_call_ok_def)
  then show ?case
    using main_listen_stop by simp
next
  case (Suc n)
  have r0: "snd (shd s) = 0"
    using Suc.prems(1) by (metis snth.simps(1) zero_less_Suc)
  have IH: "main_listen (stl s) = Some (recv_loop (concat (map fst (stake (Suc n) (stl s)))))"
    using Suc.prems by (intro Suc.IH) auto
  show ?case
  proof (cases "recv_loop (fst (shd s))")
    case (Cont outs)
    then have "recv_call_ok (shd s)"
      using r0 by (simp add: recv_call_ok_def)
    then show ?thesis
      using main_listen_next [OF _ Cont] IH Cont by (simp add: recv_loop_append)
  next
    case (Exit c d)
    then show ?thesis
      using main_listen_stop [of s] by (simp add: recv_call_ok_def recv_loop_append)
  next
    case Fault
    then show ?thesis
      using main_listen_stop [of s] by (simp add: recv_call_ok_def recv_loop_append)
  qed
qed

subsection \<open>Witnesses\<close>

text \<open>A client on group 5 receives the kernel's greeting of group 0 in its
  first receive; the second receive fails with \<open>-NLE_FAILURE\<close>.\<close>

theorem main_listen_prints_witness:
  "snd (SCons ([greet_msg_bytes 21 0], 0::int) (sconst ([], -1)) !! 0) = 0 \<and>
   snd (SCons ([greet_msg_bytes 21 0], 0::int) (sconst ([], -1)) !! 1) \<noteq> 0 \<and>
   main_listen (SCons ([greet_msg_bytes 21 0], 0) (sconst ([], -1))) = Some (Cont [CO_says (hello_text 0)])"
proof -
  let ?s = "SCons ([greet_msg_bytes 21 0], (0::int)) (sconst ([], -1))"
  have h: "(\<forall>i<1. snd (?s !! i) = 0)" "snd (?s !! 1) \<noteq> 0"
    by simp_all
  have "recv_loop (concat (map fst (stake (Suc 1) ?s))) = Cont [CO_says (hello_text 0)]"
    using recv_greets [of "[0]" 21] by simp
  then show ?thesis
    using main_listen_prints [OF h] h by simp
qed

end
