(* ===== verification/Genl_Registry.thy ===== *)
theory Genl_Registry
  imports Client_Session
begin

text \<open>
  The family registry both peers meet in: the generic-netlink controller's
  live family table (spec section 4.1), which \<open>genl_register_family\<close> in
  \<open>genl_test_init\<close> fills (\<open>src/kernel/genl_ex.c\<close> line 113),
  \<open>genl_unregister_family\<close> in \<open>genl_test_exit\<close> empties (line 139), and the
  client's \<open>genl_ctrl_resolve\<close> and \<open>genl_ctrl_resolve_grp\<close> read.  The
  controller is kernel code outside the repository and is modelled from the
  spec: a table of the registered families in registration order, each
  with its id, its first multicast group id and its number of groups.  The
  module's \<open>module_init\<close> and \<open>module_exit\<close> run against the table, and the
  step relation \<open>sstep\<close> puts the module, the table and the other
  families that load and unload beside it into one system, whose kernel
  part is a run of \<open>kstep\<close> (\<open>sreach_kreach\<close>), in which the client
  always resolves the ids the module uses (\<open>sreach_ctrl_agrees\<close>) and
  joins the module's groups (\<open>sreach_client_joins\<close>).
\<close>

subsection \<open>The controller's table\<close>

text \<open>Dynamic family ids are allocated from \<open>GENL_START_ALLOC\<close> (the ids
  16 to 18 are the controller's and two fixed families') up to
  \<open>GENL_MAX_ID\<close>; multicast group ids from 2 (group 1 is the controller's
  own notification group).\<close>

definition GENL_START_ALLOC :: nat where "GENL_START_ALLOC = 19"
definition GENL_MAX_ID :: nat where "GENL_MAX_ID = 1023"
definition GENL_FIRST_MCGRP :: nat where "GENL_FIRST_MCGRP = 2"

record ctrl_entry =
  ce_id :: u16
  ce_grp0 :: u32
  ce_ngrps :: nat

type_synonym genl_ctrl = "(string \<times> ctrl_entry) list"

text \<open>The two errors \<open>genl_register_family\<close> reports for a valid family:
  the name is taken (\<open>-EEXIST\<close>), no family id is left (\<open>-ENOSPC\<close>).\<close>

datatype reg_error = REG_EEXIST | REG_ENOSPC

definition ctrl_lookup :: "genl_ctrl \<Rightarrow> string \<Rightarrow> ctrl_entry option" where
  "ctrl_lookup c n = map_of c n"

text \<open>The lowest family id no registered family holds.\<close>

definition free_family_id :: "genl_ctrl \<Rightarrow> u16 option" where
  "free_family_id c =
     find (\<lambda>i. i \<notin> set (map (ce_id \<circ> snd) c)) (map of_nat [GENL_START_ALLOC..<Suc GENL_MAX_ID])"

text \<open>The first multicast group id after every group in use.\<close>

definition grp_next :: "genl_ctrl \<Rightarrow> nat" where
  "grp_next c = foldr (\<lambda>(n, e) m. max m (unat (ce_grp0 e) + ce_ngrps e)) c GENL_FIRST_MCGRP"

text \<open>\<open>genl_register_family(family)\<close>: refuse a name already registered,
  allocate a family id and a block of group ids, and enter the family; the
  result is the error or the family id and the first group id.\<close>

definition genl_register_family :: "genl_family \<Rightarrow> genl_ctrl \<Rightarrow> (reg_error + u16 \<times> u32) \<times> genl_ctrl" where
  "genl_register_family f c =
     (if ctrl_lookup c (fam_name f) \<noteq> None then (Inl REG_EEXIST, c)
      else (case free_family_id c of
              None \<Rightarrow> (Inl REG_ENOSPC, c)
            | Some fid \<Rightarrow>
                (let g0 = of_nat (grp_next c)
                 in (Inr (fid, g0), c @ [(fam_name f, \<lparr>ce_id = fid, ce_grp0 = g0, ce_ngrps = length (fam_mcgrps f)\<rparr>)]))))"

text \<open>\<open>genl_unregister_family(family)\<close>: the family leaves the table (its
  result, \<open>-ENOENT\<close> for a family not registered, is not looked at).\<close>

definition genl_unregister_family :: "genl_family \<Rightarrow> genl_ctrl \<Rightarrow> genl_ctrl" where
  "genl_unregister_family f c = filter (\<lambda>(n, e). n \<noteq> fam_name f) c"

text \<open>What the client's libnl calls resolve against: the entry of the
  family \<open>genl_test\<close>, read by \<open>genl_ctrl_resolve\<close> and
  \<open>genl_ctrl_resolve_grp\<close> of \<open>Client_Session\<close>.\<close>

definition env_of_ctrl :: "genl_ctrl \<Rightarrow> genl_env \<Rightarrow> genl_env" where
  "env_of_ctrl c env =
     env\<lparr>env_family := map_option (\<lambda>e. (ce_id e, ce_grp0 e)) (ctrl_lookup c GENL_TEST_FAMILY_NAME)\<rparr>"

subsection \<open>The module against the table\<close>

text \<open>\<open>genl_test_init\<close>, lines 107--133, with the call
  \<open>rc = genl_register_family(&genl_test_family)\<close> of line 113 run on the
  table: any error takes the \<open>failure\<close> path.\<close>

definition genl_test_init_ctrl :: "genl_ctrl \<Rightarrow> kstate \<Rightarrow> genl_ctrl \<times> errno option \<times> kstate" where
  "genl_test_init_ctrl c s =
     (let (rc, c') = genl_register_family genl_test_family c
      in (c', genl_test_init (case rc of Inl e \<Rightarrow> None | Inr r \<Rightarrow> Some r) s))"

text \<open>\<open>genl_test_exit\<close>, lines 136--140: \<open>del_timer\<close>, then
  \<open>genl_unregister_family(&genl_test_family)\<close>.\<close>

definition genl_test_exit_ctrl :: "genl_ctrl \<Rightarrow> kstate \<Rightarrow> genl_ctrl \<times> kstate" where
  "genl_test_exit_ctrl c s = (genl_unregister_family genl_test_family c, genl_test_exit s)"

text \<open>The system: module load and unload against the table; every other
  step of the module (clock, timer, requests, and a load that fails before
  the table is touched) leaves the table alone; other modules register and
  unregister their own families in between.\<close>

inductive sstep :: "genl_ctrl \<times> kstate \<Rightarrow> genl_ctrl \<times> kstate \<Rightarrow> bool" where
  s_init: "\<not> ks_loaded s \<Longrightarrow> sstep (c, s) (fst (genl_test_init_ctrl c s), snd (snd (genl_test_init_ctrl c s)))"
| s_exit: "ks_loaded s \<Longrightarrow> sstep (c, s) (genl_test_exit_ctrl c s)"
| s_kern: "kstep s t \<Longrightarrow> ks_loaded t = ks_loaded s \<Longrightarrow> sstep (c, s) (c, t)"
| s_reg: "fam_name f \<noteq> GENL_TEST_FAMILY_NAME \<Longrightarrow> sstep (c, s) (snd (genl_register_family f c), s)"
| s_unreg: "fam_name f \<noteq> GENL_TEST_FAMILY_NAME \<Longrightarrow> sstep (c, s) (genl_unregister_family f c, s)"

inductive sreach :: "genl_ctrl \<times> kstate \<Rightarrow> bool" where
  sr_boot: "ctrl_lookup c GENL_TEST_FAMILY_NAME = None \<Longrightarrow> sreach (c, kstate_boot j)"
| sr_step: "sreach x \<Longrightarrow> sstep x y \<Longrightarrow> sreach y"

text \<open>The table holds the family exactly while the module has it
  registered, with the ids the module uses.\<close>

definition ctrl_agrees :: "genl_ctrl \<Rightarrow> kstate \<Rightarrow> bool" where
  "ctrl_agrees c s \<longleftrightarrow>
     ctrl_lookup c GENL_TEST_FAMILY_NAME =
       (if ks_registered s then Some \<lparr>ce_id = ks_fam_id s, ce_grp0 = ks_mcgrp_offset s, ce_ngrps = 3\<rparr> else None)"

subsection \<open>Helper lemmas\<close>

lemma ctrl_lookup_append_other [simp]:
  "n \<noteq> m \<Longrightarrow> ctrl_lookup (c @ [(n, e)]) m = ctrl_lookup c m"
  by (simp add: ctrl_lookup_def map_of_append map_add_def split: option.split)

lemma ctrl_lookup_append_new:
  "ctrl_lookup c n = None \<Longrightarrow> ctrl_lookup (c @ [(n, e)]) n = Some e"
  by (simp add: ctrl_lookup_def map_of_append map_add_def)

lemma ctrl_lookup_unregister [simp]:
  "ctrl_lookup (genl_unregister_family f c) m = (if m = fam_name f then None else ctrl_lookup c m)"
  by (induction c) (auto simp: ctrl_lookup_def genl_unregister_family_def)

lemma ctrl_lookup_register_other:
  "fam_name f \<noteq> m \<Longrightarrow> ctrl_lookup (snd (genl_register_family f c)) m = ctrl_lookup c m"
  by (simp add: genl_register_family_def Let_def split: option.split)

lemma free_family_id_range:
  assumes "free_family_id c = Some fid"
  shows "GENL_START_ALLOC \<le> unat fid \<and> unat fid \<le> GENL_MAX_ID \<and> fid \<notin> set (map (ce_id \<circ> snd) c)"
proof -
  let ?xs = "map of_nat [GENL_START_ALLOC..<Suc GENL_MAX_ID] :: u16 list"
  have f: "find (\<lambda>i. i \<notin> set (map (ce_id \<circ> snd) c)) ?xs = Some fid"
    using assms by (simp add: free_family_id_def)
  then have "fid \<in> set ?xs" and fresh: "fid \<notin> set (map (ce_id \<circ> snd) c)"
    by (metis find_Some_iff nth_mem)+
  then obtain i where i: "GENL_START_ALLOC \<le> i" "i \<le> GENL_MAX_ID" "fid = of_nat i"
    by auto
  have "unat fid = i"
    using i by (simp add: GENL_MAX_ID_def unat_of_nat)
  then show ?thesis
    using i fresh by simp
qed

lemma genl_test_family_name [simp]: "fam_name genl_test_family = GENL_TEST_FAMILY_NAME"
  by (simp add: genl_test_family_def)

lemma genl_test_family_ngrps [simp]: "length (fam_mcgrps genl_test_family) = 3"
  by (simp add: genl_test_family_def genl_test_mcgrps_def)

text \<open>Module init on the table: with the name free and an id left it
  registers and the table gains the module's ids; otherwise it fails and
  the table is unchanged.\<close>

lemma genl_test_init_ctrl_ok:
  assumes "ctrl_lookup c GENL_TEST_FAMILY_NAME = None" "free_family_id c = Some fid"
  shows "genl_test_init_ctrl c s =
           (c @ [(GENL_TEST_FAMILY_NAME, \<lparr>ce_id = fid, ce_grp0 = of_nat (grp_next c), ce_ngrps = 3\<rparr>)],
            genl_test_init (Some (fid, of_nat (grp_next c))) s)"
  using assms by (simp add: genl_test_init_ctrl_def genl_register_family_def Let_def)

lemma genl_test_init_ctrl_fail:
  assumes "ctrl_lookup c GENL_TEST_FAMILY_NAME = None" "free_family_id c = None"
  shows "genl_test_init_ctrl c s = (c, genl_test_init None s)"
  using assms by (simp add: genl_test_init_ctrl_def genl_register_family_def)

lemma genl_test_init_fields:
  "ks_loaded (snd (genl_test_init reg s)) = (reg \<noteq> None \<or> ks_loaded s)"
  "ks_registered (snd (genl_test_init reg s)) = (reg \<noteq> None \<or> ks_registered s)"
  "ks_fam_id (snd (genl_test_init reg s)) = (case reg of Some (fid, off) \<Rightarrow> fid | None \<Rightarrow> ks_fam_id s)"
  "ks_mcgrp_offset (snd (genl_test_init reg s)) = (case reg of Some (fid, off) \<Rightarrow> off | None \<Rightarrow> ks_mcgrp_offset s)"
  by (cases reg; auto simp: genl_test_init_def Let_def mod_timer_def)+

lemma kstep_keeps_registration:
  assumes "kstep s t" "ks_loaded t = ks_loaded s"
  shows "ks_registered t = ks_registered s \<and> ks_fam_id t = ks_fam_id s \<and> ks_mcgrp_offset t = ks_mcgrp_offset s"
  using assms(1)
proof (cases rule: kstep.cases)
  case (k_init reg)
  then show ?thesis
    using assms(2) by (cases reg) (auto simp: genl_test_init_fields)
next
  case (k_fire allocs)
  obtain a0 a1 a2 where "allocs = (a0, a1, a2)"
    by (cases allocs) auto
  then show ?thesis
    using k_fire by (simp add: genl_test_periodic_def mod_timer_def GENL_TEST_MCGRP0_def GENL_TEST_MCGRP1_def
                               GENL_TEST_MCGRP2_def)
next
  case (k_rx portid msg after)
  have "ks_registered (snd (genl_test_rx_msg portid attr s)) = ks_registered s \<and>
        ks_fam_id (snd (genl_test_rx_msg portid attr s)) = ks_fam_id s \<and>
        ks_mcgrp_offset (snd (genl_test_rx_msg portid attr s)) = ks_mcgrp_offset s" for attr
    by (cases attr) (auto simp: genl_test_rx_msg_def)
  then show ?thesis
    using k_rx genl_rcv_msg_cases [of portid msg after s] by auto
next
  case k_exit
  then show ?thesis
    using assms(2) by (simp add: genl_test_exit_def del_timer_def)
qed simp_all

lemma sstep_kstep: "sstep (c, s) (c', s') \<Longrightarrow> kstep s s' \<or> s' = s"
  by (induction "(c, s)" "(c', s')" rule: sstep.induct)
     (auto simp: genl_test_init_ctrl_def genl_test_exit_ctrl_def split: prod.split intro: kstep.intros)

lemma sstep_agrees:
  assumes "sstep (c, s) (c', s')" "kinv s" "ctrl_agrees c s"
  shows "ctrl_agrees c' s'"
  using assms(1)
proof (cases rule: sstep.cases)
  case s_init
  have u: "ctrl_lookup c GENL_TEST_FAMILY_NAME = None"
    using s_init assms(2,3) by (simp add: ctrl_agrees_def kinv_def)
  show ?thesis
  proof (cases "free_family_id c")
    case None
    then show ?thesis
      using s_init u assms(2) genl_test_init_ctrl_fail [OF u None, of s]
      by (simp add: ctrl_agrees_def kinv_def genl_test_init_fields)
  next
    case (Some fid)
    then show ?thesis
      using s_init u genl_test_init_ctrl_ok [OF u Some, of s]
      by (simp add: ctrl_agrees_def genl_test_init_fields ctrl_lookup_append_new)
  qed
next
  case s_exit
  then show ?thesis
    by (simp add: ctrl_agrees_def genl_test_exit_ctrl_def genl_test_exit_def del_timer_def)
next
  case s_kern
  then show ?thesis
    using assms(3) kstep_keeps_registration [of s s'] by (simp add: ctrl_agrees_def)
next
  case (s_reg f)
  then show ?thesis
    using assms(3) ctrl_lookup_register_other [of f GENL_TEST_FAMILY_NAME c] by (simp add: ctrl_agrees_def)
next
  case (s_unreg f)
  then show ?thesis
    using assms(3) by (simp add: ctrl_agrees_def)
qed

lemma sreach_inv: "sreach x \<Longrightarrow> kinv (snd x) \<and> ctrl_agrees (fst x) (snd x)"
proof (induction rule: sreach.induct)
  case (sr_boot c j)
  then show ?case
    using kinv_boot [of j] by (simp add: ctrl_agrees_def kstate_boot_def)
next
  case (sr_step x y)
  obtain c s c' s' where xy: "x = (c, s)" "y = (c', s')"
    by (cases x, cases y) auto
  have "kinv s'"
    using sr_step xy sstep_kstep [of c s c' s'] kstep_kinv by auto
  then show ?case
    using sr_step xy sstep_agrees [of c s c' s'] by simp
qed

text \<open>The module inside the system is a run of \<open>kstep\<close>, so the kernel
  lemmas apply to the module's state in every reachable system state.\<close>

lemma sreach_kreach: "sreach (c, s) \<Longrightarrow> kreach s"
proof (induction "(c, s)" arbitrary: c s rule: sreach.induct)
  case (sr_boot c j)
  show ?case
    by (rule kr_boot)
next
  case (sr_step x c s)
  obtain c0 s0 where x: "x = (c0, s0)"
    by (cases x)
  have "kreach s0"
    using sr_step.hyps(2) x by simp
  then show ?case
    using sstep_kstep [of c0 s0 c s] sr_step.hyps(3) x kr_step by auto
qed

subsection \<open>Properties of the registry and the system\<close>

text \<open>C38.  The client joins the module's groups through the table: in every
  reachable state of the system where the module is loaded, a client whose
  options \<open>parse_cmd_line\<close> accepts and whose socket calls succeed resolves
  the family against the controller's table and joins, in bit order,
  exactly the group ids the module multicasts to, one per bit of its
  mask.\<close>

theorem sreach_client_joins:
  assumes "sreach (c, s)" "ks_loaded s" "parse_cmd_line opts = Cont st"
    "env_sock_ok env" "env_connect_ok env" "env_join_ok env"
  shows "\<exists>sk. prep_nl_sock (env_of_ctrl c env) st = Cont sk \<and>
           sk_groups sk = map (\<lambda>i. ks_mcgrp_offset s + of_nat i) (filter (bit (mcgroups st)) [0..<4])"
proof -
  have "kinv s" "ctrl_agrees c s"
    using sreach_inv [OF assms(1)] by simp_all
  then have f: "env_family (env_of_ctrl c env) = Some (ks_fam_id s, ks_mcgrp_offset s)"
    using assms(2) by (simp add: kinv_def ctrl_agrees_def env_of_ctrl_def)
  have b: "\<not> bit (mcgroups st) 3"
    using parse_cmd_line_inv [OF assms(3)] by (rule cli_inv_bit3)
  show ?thesis
    using prep_nl_sock_ok [OF f _ _ _ b] assms(4-6) by (simp add: env_of_ctrl_def)
qed

text \<open>C39.  Invariant of the system: in every reachable state the client's
  \<open>genl_ctrl_resolve\<close> and \<open>genl_ctrl_resolve_grp\<close> read exactly the view
  \<open>env_of_kstate\<close> of the module: the family is known while, and only
  while, the module has it registered, with the family id and first group
  id the module multicasts with.\<close>

theorem sreach_ctrl_agrees: "sreach (c, s) \<Longrightarrow> env_of_ctrl c env = env_of_kstate s env"
  using sreach_inv [of "(c, s)"]
  by (simp add: ctrl_agrees_def env_of_ctrl_def env_of_kstate_def)

text \<open>C40.  Round trip of registration: when the family name is free and a
  family id is left, \<open>module_init\<close> succeeds, its family id lies in the
  dynamic range and is held by no other family, the client resolves the
  family to that id and the three groups to the module's group ids, and
  after \<open>module_exit\<close> the family no longer resolves.\<close>

theorem module_family_roundtrip:
  assumes "ctrl_lookup c GENL_TEST_FAMILY_NAME = None" "free_family_id c \<noteq> None"
    and "genl_test_init_ctrl c s = (c', r, s')"
  shows "r = None \<and> GENL_START_ALLOC \<le> unat (ks_fam_id s') \<and> unat (ks_fam_id s') \<le> GENL_MAX_ID \<and>
    ks_fam_id s' \<notin> set (map (ce_id \<circ> snd) c) \<and>
    genl_ctrl_resolve (env_of_ctrl c' env) GENL_TEST_FAMILY_NAME = uint (ks_fam_id s') \<and>
    (\<forall>i<3. genl_ctrl_resolve_grp (env_of_ctrl c' env) GENL_TEST_FAMILY_NAME (genl_test_mcgrp_names ! i) =
            uint (ks_mcgrp_offset s' + of_nat i)) \<and>
    genl_ctrl_resolve (env_of_ctrl (fst (genl_test_exit_ctrl c' s')) env) GENL_TEST_FAMILY_NAME < 0"
proof -
  obtain fid where fid: "free_family_id c = Some fid"
    using assms(2) by auto
  have e: "c' = c @ [(GENL_TEST_FAMILY_NAME, \<lparr>ce_id = fid, ce_grp0 = of_nat (grp_next c), ce_ngrps = 3\<rparr>)]"
      "(r, s') = genl_test_init (Some (fid, of_nat (grp_next c))) s"
    using genl_test_init_ctrl_ok [OF assms(1) fid, of s] assms(3) by simp_all
  have r: "r = None" and ids: "ks_fam_id s' = fid" "ks_mcgrp_offset s' = of_nat (grp_next c)"
    using e(2) genl_test_init_fields [of "Some (fid, of_nat (grp_next c))" s]
    by (auto simp: genl_test_init_def Let_def mod_timer_def dest: sym)
  have f: "env_family (env_of_ctrl c' env) = Some (fid, of_nat (grp_next c))"
    using e(1) assms(1) by (simp add: env_of_ctrl_def ctrl_lookup_append_new)
  have "env_family (env_of_ctrl (fst (genl_test_exit_ctrl c' s')) env) = None"
    by (simp add: env_of_ctrl_def genl_test_exit_ctrl_def)
  then have x: "genl_ctrl_resolve (env_of_ctrl (fst (genl_test_exit_ctrl c' s')) env) GENL_TEST_FAMILY_NAME < 0"
    by (simp add: genl_ctrl_resolve_def NLE_OBJ_NOTFOUND_def)
  show ?thesis
    using r ids free_family_id_range [OF fid] resolve_family [OF f] resolve_grp_family [OF f] x
    by simp
qed

subsection \<open>Witnesses\<close>


text \<open>Module init at jiffies 0 beside the controller alone: the module gets
  the first dynamic id 19 and the groups 2, 3 and 4.\<close>

lemma init_ctrl_example:
  "ctrl_lookup [(''nlctrl'', \<lparr>ce_id = 16, ce_grp0 = 1, ce_ngrps = 1\<rparr>)] GENL_TEST_FAMILY_NAME = None \<and> free_family_id [(''nlctrl'', \<lparr>ce_id = 16, ce_grp0 = 1, ce_ngrps = 1\<rparr>)] = Some 19 \<and>
   genl_test_init_ctrl [(''nlctrl'', \<lparr>ce_id = 16, ce_grp0 = 1, ce_ngrps = 1\<rparr>)] (kstate_boot 0) =
     ([(''nlctrl'', \<lparr>ce_id = 16, ce_grp0 = 1, ce_ngrps = 1\<rparr>)] @ [(GENL_TEST_FAMILY_NAME, \<lparr>ce_id = 19, ce_grp0 = 2, ce_ngrps = 3\<rparr>)], genl_test_init (Some (19, 2)) (kstate_boot 0)) \<and>
   ks_fam_id (snd (genl_test_init (Some (19, 2)) (kstate_boot 0))) = 19 \<and>
   ks_mcgrp_offset (snd (genl_test_init (Some (19, 2)) (kstate_boot 0))) = 2 \<and>
   ks_loaded (snd (genl_test_init (Some (19, 2)) (kstate_boot 0)))"
proof -
  have l: "ctrl_lookup [(''nlctrl'', \<lparr>ce_id = 16, ce_grp0 = 1, ce_ngrps = 1\<rparr>)] GENL_TEST_FAMILY_NAME = None"
    by (simp add: ctrl_lookup_def genl_consts)
  have u: "[GENL_START_ALLOC..<Suc GENL_MAX_ID] = 19 # [20..<1024]"
    by (simp add: GENL_START_ALLOC_def GENL_MAX_ID_def upt_conv_Cons del: upt_Suc)
  have f: "free_family_id [(''nlctrl'', \<lparr>ce_id = 16, ce_grp0 = 1, ce_ngrps = 1\<rparr>)] = Some 19"
    by (simp add: free_family_id_def u del: upt_Suc)
  have g: "grp_next [(''nlctrl'', \<lparr>ce_id = 16, ce_grp0 = 1, ce_ngrps = 1\<rparr>)] = 2"
    by (simp add: grp_next_def GENL_FIRST_MCGRP_def)
  show ?thesis
    using l f genl_test_init_ctrl_ok [OF l f, of "kstate_boot 0"] g by (simp add: genl_test_init_fields)
qed

text \<open>The system after the module has loaded at jiffies 0 beside the
  controller.\<close>

lemma sreach_loaded: "sreach (fst (genl_test_init_ctrl [(''nlctrl'', \<lparr>ce_id = 16, ce_grp0 = 1, ce_ngrps = 1\<rparr>)] (kstate_boot 0)), snd (snd (genl_test_init_ctrl [(''nlctrl'', \<lparr>ce_id = 16, ce_grp0 = 1, ce_ngrps = 1\<rparr>)] (kstate_boot 0))))"
proof -
  have l: "ctrl_lookup [(''nlctrl'', \<lparr>ce_id = 16, ce_grp0 = 1, ce_ngrps = 1\<rparr>)] GENL_TEST_FAMILY_NAME = None"
    by (simp add: ctrl_lookup_def genl_consts)
  have "\<not> ks_loaded (kstate_boot 0)"
    by (simp add: kstate_boot_def)
  then show ?thesis
    by (rule sr_step [OF sr_boot [OF l] s_init])
qed

theorem sreach_ctrl_agrees_witness:
  "sreach (fst (genl_test_init_ctrl [(''nlctrl'', \<lparr>ce_id = 16, ce_grp0 = 1, ce_ngrps = 1\<rparr>)] (kstate_boot 0)), snd (snd (genl_test_init_ctrl [(''nlctrl'', \<lparr>ce_id = 16, ce_grp0 = 1, ce_ngrps = 1\<rparr>)] (kstate_boot 0)))) \<and>
   env_of_ctrl (fst (genl_test_init_ctrl [(''nlctrl'', \<lparr>ce_id = 16, ce_grp0 = 1, ce_ngrps = 1\<rparr>)] (kstate_boot 0))) \<lparr>env_family = None, env_port = 100, env_seq = 1, env_sock_ok = True, env_connect_ok = True,
       env_join_ok = True, env_alloc_ok = True, env_send_ok = True\<rparr> = env_of_kstate (snd (snd (genl_test_init_ctrl [(''nlctrl'', \<lparr>ce_id = 16, ce_grp0 = 1, ce_ngrps = 1\<rparr>)] (kstate_boot 0)))) \<lparr>env_family = None, env_port = 100, env_seq = 1, env_sock_ok = True, env_connect_ok = True,
       env_join_ok = True, env_alloc_ok = True, env_send_ok = True\<rparr>"
  using sreach_loaded sreach_ctrl_agrees [OF sreach_loaded] by simp

text \<open>A client started with \<open>-l 0,2\<close> beside the loaded module joins the
  module's groups 2 and 4.\<close>

theorem sreach_client_joins_witness:
  "sreach (fst (genl_test_init_ctrl [(''nlctrl'', \<lparr>ce_id = 16, ce_grp0 = 1, ce_ngrps = 1\<rparr>)] (kstate_boot 0)), snd (snd (genl_test_init_ctrl [(''nlctrl'', \<lparr>ce_id = 16, ce_grp0 = 1, ce_ngrps = 1\<rparr>)] (kstate_boot 0)))) \<and> ks_loaded (snd (snd (genl_test_init_ctrl [(''nlctrl'', \<lparr>ce_id = 16, ce_grp0 = 1, ce_ngrps = 1\<rparr>)] (kstate_boot 0)))) \<and>
   parse_cmd_line [Opt_l ''0,2''] = Cont (client_init\<lparr>mcgroups := 5\<rparr>) \<and>
   (\<exists>sk. prep_nl_sock (env_of_ctrl (fst (genl_test_init_ctrl [(''nlctrl'', \<lparr>ce_id = 16, ce_grp0 = 1, ce_ngrps = 1\<rparr>)] (kstate_boot 0))) \<lparr>env_family = None, env_port = 100, env_seq = 1, env_sock_ok = True, env_connect_ok = True,
       env_join_ok = True, env_alloc_ok = True, env_send_ok = True\<rparr>) (client_init\<lparr>mcgroups := 5\<rparr>) = Cont sk \<and>
      sk_groups sk = [2, 4])"
proof -
  have e: "ks_loaded (snd (snd (genl_test_init_ctrl [(''nlctrl'', \<lparr>ce_id = 16, ce_grp0 = 1, ce_ngrps = 1\<rparr>)] (kstate_boot 0))))" "ks_mcgrp_offset (snd (snd (genl_test_init_ctrl [(''nlctrl'', \<lparr>ce_id = 16, ce_grp0 = 1, ce_ngrps = 1\<rparr>)] (kstate_boot 0)))) = 2"
    using init_ctrl_example by simp_all
  have p: "parse_cmd_line [Opt_l ''0,2''] = Cont (client_init\<lparr>mcgroups := 5\<rparr>)"
    by (simp add: cli_eval)
  have m: "map (\<lambda>i. (2::u32) + of_nat i) (filter (bit (5::u32)) [0..<4]) = [2, 4]"
    by (simp add: upt_rec)
  show ?thesis
    using sreach_loaded e p sreach_client_joins [OF sreach_loaded e(1) p, of "\<lparr>env_family = None, env_port = 100, env_seq = 1, env_sock_ok = True, env_connect_ok = True,
       env_join_ok = True, env_alloc_ok = True, env_send_ok = True\<rparr>"] m by simp
qed

text \<open>Registration beside the controller alone, resolution and
  unregistration.\<close>

theorem module_family_roundtrip_witness:
  "ctrl_lookup [(''nlctrl'', \<lparr>ce_id = 16, ce_grp0 = 1, ce_ngrps = 1\<rparr>)] GENL_TEST_FAMILY_NAME = None \<and> free_family_id [(''nlctrl'', \<lparr>ce_id = 16, ce_grp0 = 1, ce_ngrps = 1\<rparr>)] = Some 19 \<and>
   fst (snd (genl_test_init_ctrl [(''nlctrl'', \<lparr>ce_id = 16, ce_grp0 = 1, ce_ngrps = 1\<rparr>)] (kstate_boot 0))) = None \<and>
   genl_ctrl_resolve (env_of_ctrl (fst (genl_test_init_ctrl [(''nlctrl'', \<lparr>ce_id = 16, ce_grp0 = 1, ce_ngrps = 1\<rparr>)] (kstate_boot 0))) \<lparr>env_family = None, env_port = 100, env_seq = 1, env_sock_ok = True, env_connect_ok = True,
       env_join_ok = True, env_alloc_ok = True, env_send_ok = True\<rparr>) GENL_TEST_FAMILY_NAME = 19 \<and>
   genl_ctrl_resolve_grp (env_of_ctrl (fst (genl_test_init_ctrl [(''nlctrl'', \<lparr>ce_id = 16, ce_grp0 = 1, ce_ngrps = 1\<rparr>)] (kstate_boot 0))) \<lparr>env_family = None, env_port = 100, env_seq = 1, env_sock_ok = True, env_connect_ok = True,
       env_join_ok = True, env_alloc_ok = True, env_send_ok = True\<rparr>) GENL_TEST_FAMILY_NAME
     (genl_test_mcgrp_names ! 2) = 4 \<and>
   genl_ctrl_resolve (env_of_ctrl (fst (genl_test_exit_ctrl (fst (genl_test_init_ctrl [(''nlctrl'', \<lparr>ce_id = 16, ce_grp0 = 1, ce_ngrps = 1\<rparr>)] (kstate_boot 0)))
     (snd (snd (genl_test_init_ctrl [(''nlctrl'', \<lparr>ce_id = 16, ce_grp0 = 1, ce_ngrps = 1\<rparr>)] (kstate_boot 0)))))) \<lparr>env_family = None, env_port = 100, env_seq = 1, env_sock_ok = True, env_connect_ok = True,
       env_join_ok = True, env_alloc_ok = True, env_send_ok = True\<rparr>) GENL_TEST_FAMILY_NAME < 0"
proof -
  have l: "ctrl_lookup [(''nlctrl'', \<lparr>ce_id = 16, ce_grp0 = 1, ce_ngrps = 1\<rparr>)] GENL_TEST_FAMILY_NAME = None" and f: "free_family_id [(''nlctrl'', \<lparr>ce_id = 16, ce_grp0 = 1, ce_ngrps = 1\<rparr>)] = Some 19"
    and ok: "genl_test_init_ctrl [(''nlctrl'', \<lparr>ce_id = 16, ce_grp0 = 1, ce_ngrps = 1\<rparr>)] (kstate_boot 0) =
      ([(''nlctrl'', \<lparr>ce_id = 16, ce_grp0 = 1, ce_ngrps = 1\<rparr>)] @ [(GENL_TEST_FAMILY_NAME, \<lparr>ce_id = 19, ce_grp0 = 2, ce_ngrps = 3\<rparr>)], genl_test_init (Some (19, 2)) (kstate_boot 0))"
    and i: "ks_fam_id (snd (genl_test_init (Some (19, 2)) (kstate_boot 0))) = 19"
      "ks_mcgrp_offset (snd (genl_test_init (Some (19, 2)) (kstate_boot 0))) = 2"
    using init_ctrl_example by simp_all
  show ?thesis
    using module_family_roundtrip [where c = "[(''nlctrl'', \<lparr>ce_id = 16, ce_grp0 = 1, ce_ngrps = 1\<rparr>)]" and s = "kstate_boot 0" and c' = "fst (genl_test_init_ctrl [(''nlctrl'', \<lparr>ce_id = 16, ce_grp0 = 1, ce_ngrps = 1\<rparr>)] (kstate_boot 0))"
        and r = "fst (snd (genl_test_init_ctrl [(''nlctrl'', \<lparr>ce_id = 16, ce_grp0 = 1, ce_ngrps = 1\<rparr>)] (kstate_boot 0)))" and s' = "snd (snd (genl_test_init_ctrl [(''nlctrl'', \<lparr>ce_id = 16, ce_grp0 = 1, ce_ngrps = 1\<rparr>)] (kstate_boot 0)))" and env = "\<lparr>env_family = None, env_port = 100, env_seq = 1, env_sock_ok = True, env_connect_ok = True,
       env_join_ok = True, env_alloc_ok = True, env_send_ok = True\<rparr>"] l f ok i
    by (simp add: uint_word_ariths)
qed

end
