(* ===== verification/Spec2Isabelle.thy ===== *)
theory Spec2Isabelle
  imports Client_Session Client_Strtok Client_Recv Genl_Registry
begin

text \<open>
  \<^bold>\<open>A verification library for genl_ex, a generic-netlink user/kernel
  example.\<close>

  \<^emph>\<open>The program.\<close>  Two peers share the wire contract of
  \<open>src/genl_ex.h\<close> (family \<open>genl_test\<close>, command \<open>GENL_TEST_C_MSG\<close>,
  the one string attribute \<open>GENL_TEST_ATTR_MSG\<close> with its policy, three
  multicast groups).  The user-space client \<open>src/genl_ex.c\<close> processes its
  options (\<open>parse_cmd_line\<close>, \<open>add_group\<close>) into three globals, prepares
  a libnl socket (\<open>prep_nl_sock\<close>: resolve the family, join the groups of
  the mask), then either sends one request (\<open>send_msg_to_kernel\<close>) or
  loops on \<open>nl_recvmsgs\<close> printing each multicast it receives
  (\<open>print_rx_msg\<close>).  The kernel module \<open>src/kernel/genl_ex.c\<close>
  registers the family, arms a timer whose callback \<open>genl_test_periodic\<close>
  multicasts one "Hello group" message per group (\<open>greet_group\<close>) and
  re-arms itself, and logs each request (\<open>genl_test_rx_msg\<close>).  The peers
  meet in the generic-netlink controller (family and group ids), multicast
  delivery, and the kernel core's dispatch of a request to
  \<open>genl_test_ops\<close>.

  \<^emph>\<open>Library layout\<close> (each theory imports the ones before it that it needs).
  \<^item> \<open>Genl_Prelude\<close>: C types as words (\<open>unsigned int\<close> = \<open>32 word\<close>,
    \<open>unsigned long\<close> = \<open>64 word\<close>, netlink fields \<open>16 word\<close>), buffers as
    byte lists, \<open>cstr\<close> (the C string in a buffer), \<open>strncpy\<close>, host-order
    16-bit fields, netlink alignment, 64-bit subtraction and the sign bit.
  \<^item> \<open>Genl_Defs\<close>: the constants and the attribute policy of
    \<open>src/genl_ex.h\<close>.
  \<^item> \<open>Client_Cli\<close>: argument processing of \<open>src/genl_ex.c\<close> (lines
    14--97).  The globals are the record \<open>client_state\<close>; every \<open>exit()\<close>
    and the NULL pointer passed to \<open>strtoul\<close> are values of the type
    \<open>outcome\<close> (\<open>Exit\<close>, \<open>Fault\<close>, \<open>Cont\<close>); \<open>strtoul\<close> and the token walk
    of \<open>strtok\<close> follow the C standard; \<open>getopt\<close> is replaced by the list
    of options it returns.
  \<^item> \<open>Genl_Attr\<close>: the attribute codec as both peers run it:
    \<open>nla_put_string\<close>'s bytes, the walk of \<open>nla_for_each_attr\<close> (a
    \<open>function\<close> with the measure \<open>length\<close>), libnl's and the Linux 4.x
    \<open>validate_nla\<close> and \<open>nla_parse\<close>.
  \<^item> \<open>Genl_Msg\<close>: \<open>struct nlmsghdr\<close> and \<open>struct genlmsghdr\<close> as bytes,
    the builders both sides call (\<open>genlmsg_new\<close>, \<open>genlmsg_put\<close>,
    \<open>nla_put\<close>, \<open>genlmsg_end\<close>), libnl's \<open>genlmsg_parse\<close>, and the
    well-formedness \<open>nlmsg_wf\<close> of a message.
  \<^item> \<open>Genl_Server\<close>: the module over the record \<open>kstate\<close> (loaded and
    registered flags, family id and first group id, timer, jiffies as
    \<open>64 word\<close>, socket buffers held, multicasts sent, kernel log).  One
    definition per function (\<open>greet_group\<close>, \<open>genl_test_periodic\<close>,
    \<open>genl_test_rx_msg\<close>, \<open>genl_test_init\<close>, \<open>genl_test_exit\<close>), the
    tables \<open>genl_test_ops\<close> and \<open>genl_test_family\<close> as values of the
    records \<open>genl_ops\<close> and \<open>genl_family\<close>, the core's dispatch
    \<open>genl_rcv_msg\<close> over them, and the module's life as the
    \<open>inductive\<close> step relation \<open>kstep\<close> (init, clock tick, timer callback,
    any received message passed to \<open>genl_rcv_msg\<close>, exit) with
    reachability \<open>kreach\<close>.  Allocation and
    registration outcomes are arguments of the steps.
  \<^item> \<open>Client_Session\<close>: \<open>prep_nl_sock\<close> with its bit loop
    \<open>prep_groups\<close> (a \<open>function\<close> with a measure), \<open>send_msg_to_kernel\<close>,
    \<open>print_rx_msg\<close>, the receive loop and \<open>main\<close> (\<open>client_main\<close>).  The
    libnl socket is the record \<open>nl_sock\<close>; what the client cannot see (the
    success of each libnl call, its port and sequence number, the family the
    kernel registered) is the record \<open>genl_env\<close>.
  \<^item> \<open>Client_Strtok\<close>: option \<open>-l\<close> as the code runs it, with glibc's
    \<open>strtok\<close> returning the token and the new saved pointer, and the loop
    \<open>while ((opt_val = strtok(NULL, ",")))\<close> as a \<open>while_option\<close>
    (\<open>listen_loop\<close>, \<open>opt_listen_strtok\<close>).
  \<^item> \<open>Client_Recv\<close>: the unbounded loop
    \<open>do { ret = nl_recvmsgs(nlsock, cb); } while (!ret)\<close> of \<open>main\<close> as
    the \<open>partial_function (option)\<close> \<open>main_listen\<close> over an infinite
    stream of calls, each the messages it delivered and its return value.
  \<^item> \<open>Genl_Registry\<close>: the generic-netlink controller's live family table
    (modelled from the spec: register, unregister, resolve, allocation of a
    family id from 19 to 1023 and of a block of group ids),
    \<open>genl_test_init\<close> and \<open>genl_test_exit\<close> run against it
    (\<open>genl_test_init_ctrl\<close>, \<open>genl_test_exit_ctrl\<close>), and the system step
    relation \<open>sstep\<close> of module, table and other families loading and
    unloading in between, with reachability \<open>sreach\<close>.
  \<^item> This theory: properties that span the kernel, the messages and the
    client.

  \<^emph>\<open>What is proved.\<close>
  \<^item> Arguments (C1--C7): the mode invariant at the hand-over to the socket
    code; the mask refines the set of listed groups, so repetition and order
    do not matter; \<open>add_group\<close> on every decimal token, exposing the range
    check after truncation to 32 bits; \<open>-m\<close> is clamped to 255 bytes; an
    out-of-range group exits; an empty group list is undefined behaviour.
  \<^item> Codec (C8--C13): round trips in user space and in the kernel; an
    absent attribute is \<open>None\<close>; what libnl's parse stores comes from a
    validated attribute; attribute 0 is never the message; the two
    validators disagree on the policy's length 256.
  \<^item> Module (C14--C20): the exact message \<open>greet_group\<close> multicasts (flags
    0x20 from \<open>GFP_ATOMIC\<close>, version 1) and its dead error branches; one tick
    greets the three groups independently, leaks one buffer per group and
    re-arms the timer; the invariant of every reachable state (timer armed
    exactly while registered, at most 1250 jiffies ahead); in every reachable
    state with the module loaded the timer fires after exactly
    \<open>expires - jiffies\<close> ticks, at most 1250; re-arming works across jiffies
    wrap-around for less than 2^63 jiffies; the request handler's two paths
    and its read past an unterminated payload.
  \<^item> Client session (C21--C27): end to end in listen mode (after a tick the
    client prints exactly the greetings of its joined groups) and in send
    mode (one request, logged by the kernel with the first 255 bytes); the
    memberships refine the mask; on every list of \<open>-s\<close>, \<open>-m\<close> and valid
    \<open>-l\<close> options the three mode errors exit, with their diagnostics,
    before any socket call;
    the send result is ignored; a short received message is undefined
    behaviour; the bit loop equals the join step over the set bits.
  \<^item> Across components (C28--C31): every message the module multicasts and
    every request the client sends is well-formed and accepted by the
    kernel, which logs exactly the client's message; the core refuses short,
    unknown and over-long requests before the handler; on everything the
    module has sent the client's receive loop prints one greeting of a group
    below 3 per message.
  \<^item> Loops and shutdown (C32--C36): the \<open>strtok\<close> loop of \<open>-l\<close> always
    ends, and the code's \<open>-l\<close> equals the token-list model \<open>opt_listen\<close>
    the argument claims use; the listening loop runs forever exactly when
    every \<open>nl_recvmsgs\<close> succeeds and every message is handled, and a run
    that stops has printed what \<open>recv_loop\<close> gives on all messages up to
    the failing call; an unloaded module multicasts nothing.
  \<^item> Registry (C38--C40): in every reachable system state with the module
    loaded, a client that parses its options and whose socket calls succeed
    joins, through the table, exactly the module's group ids of its mask
    (the module inside the system is a run of \<open>kstep\<close>,
    \<open>sreach_kreach\<close>, so the kernel lemmas apply); the client always resolves
    exactly the ids the module registered, and nothing once it has
    unregistered; registration gives a fresh id in the dynamic range and
    resolution returns it and the three group ids.
  \<^item> Setup errors (C37): a failed socket allocation, connection, family
    resolution or membership exits with failure and its own diagnostic, in
    the order of the source.

  \<^emph>\<open>Bounds and loops.\<close>  The bit loop runs below \<open>sizeof(unsigned int)\<close>
  = 4 (measure \<open>4 - bit\<close>); the attribute walk shrinks its buffer by at least
  4 bytes per step (\<open>nla_walk_iterations\<close>); the timer is at most 1250
  jiffies (5000 ms at \<open>HZ\<close> = 250) ahead, so the countdown of C17 is
  at most 1250 clock steps.  The \<open>strtok\<close> loop ends by the measure
  \<open>length\<close> of the saved string (\<open>measure_while_option_Some\<close>).  The
  receive loop of \<open>main\<close> has no bound: \<open>main_listen\<close> returns \<open>None\<close>
  on a run that never leaves it, and C34 says exactly when that happens;
  \<open>client_main\<close> runs \<open>recv_loop\<close> on the finite list of multicasts
  sent so far, and C35 shows that \<open>recv_loop\<close> prints what the unbounded
  loop prints on every run that ends in a failed receive.  The kernel
  configuration (\<open>GFP_ATOMIC\<close>, \<open>HZ\<close>, \<open>NLMSG_DEFAULT_SIZE\<close>, libnl's
  page-sized messages) is Linux 4.14 on x86-64.

  \<^emph>\<open>Not modelled.\<close>  \<open>getopt\<close>'s argument permutation; \<open>printf\<close> and
  \<open>printk\<close> formatting (diagnostics are constructors of \<open>diag\<close> and
  \<open>klog\<close>); the kernel's allocator and scheduler beyond the order of
  callbacks (each step of \<open>kstep\<close> is one whole callback, as the timer and
  the request handler never overlap); unicast acknowledgements and error
  replies to the client (the client exits right after sending); the
  freeing of messages (\<open>nlmsg_free\<close>; only the kernel's count of socket
  buffers is kept, which shows the leak of \<open>greet_group\<close>); the
  controller's locking and its group bitmap (the table gives each family
  a fresh block of group ids after those in use, where the kernel reuses
  the first free block; no claim's statement depends on where the block
  lies); the success of \<open>nl_socket_add_membership\<close> is one flag of
  \<open>genl_env\<close> for every group, so a join that fails for one group only
  is not distinguished (C37 covers the failure of the first join);
  \<open>nlmsg_alloc\<close> starts from an empty buffer, which is what
  \<open>genlmsg_put\<close> sees on the code's path; \<open>recv_loop\<close> hands every
  received message to \<open>print_rx_msg\<close>, as the \<open>NL_CB_VALID\<close> callback set by
  \<open>nl_cb_set\<close> (line 232, sequence check skipped) receives each valid
  message.  Library constants and byte-layout helpers are definitions
  without an entry in the map of the manifest; the library operations the
  code calls are listed there as modelled from their specification.
\<close>

text \<open>Everything the module has multicast is a greeting of one of its three
  groups, built for some family id.\<close>

definition kout_greets :: "kstate \<Rightarrow> bool" where
  "kout_greets s \<longleftrightarrow> (\<forall>x \<in> set (ks_out s). \<exists>fid grp. grp < 3 \<and> snd x = greet_msg_bytes fid grp)"

subsection \<open>Helper lemmas\<close>

lemma greet_msg_wf: "grp < 3 \<Longrightarrow> nlmsg_wf (greet_msg_bytes fid grp)"
  using greet_msg_layout [of grp fid] by (simp add: nlmsg_wf_hdr)

lemma greet_out_greets:
  "g < 3 \<Longrightarrow> \<forall>x \<in> set (greet_out s g b). \<exists>fid grp. grp < 3 \<and> snd x = greet_msg_bytes fid grp"
  by (auto simp: greet_out_def)

lemma ks_out_unchanged [simp]:
  "ks_out (snd (genl_test_init reg s)) = ks_out s"
  "ks_out (snd (genl_test_rx_msg portid attr s)) = ks_out s"
  "ks_out (genl_test_exit s) = ks_out s"
  by (cases reg; cases attr; auto simp: genl_test_init_def Let_def mod_timer_def genl_test_rx_msg_def
        genl_test_exit_def del_timer_def)+

lemma ks_out_rcv [simp]: "ks_out (snd (genl_rcv_msg portid msg after s)) = ks_out s"
  using genl_rcv_msg_cases [of portid msg after s] by auto

lemma kstep_kout_greets:
  assumes "kstep s t" "kout_greets s"
  shows "kout_greets t"
  using assms(1)
proof (cases rule: kstep.cases)
  case (k_fire allocs)
  obtain a0 b0 a1 b1 a2 b2 where a: "allocs = ((a0, b0), (a1, b1), (a2, b2))"
    by (cases allocs) auto
  let ?s = "s\<lparr>ks_timer_pending := False\<rparr>"
  have o: "set (ks_out t) = set (ks_out s) \<union> set (greet_out ?s 0 b0) \<union> set (greet_out ?s 1 b1) \<union> set (greet_out ?s 2 b2)"
    using k_fire by (simp add: a periodic_out Un_assoc)
  have A: "\<forall>x \<in> set (ks_out s). \<exists>fid grp. grp < 3 \<and> snd x = greet_msg_bytes fid grp"
    using assms(2) by (simp add: kout_greets_def)
  have B: "\<forall>x \<in> set (greet_out ?s 0 b0). \<exists>fid grp. grp < 3 \<and> snd x = greet_msg_bytes fid grp"
      "\<forall>x \<in> set (greet_out ?s 1 b1). \<exists>fid grp. grp < 3 \<and> snd x = greet_msg_bytes fid grp"
      "\<forall>x \<in> set (greet_out ?s 2 b2). \<exists>fid grp. grp < 3 \<and> snd x = greet_msg_bytes fid grp"
    by (rule greet_out_greets; simp)+
  show ?thesis
    unfolding kout_greets_def o ball_Un by (intro conjI) (rule A B)+
qed (insert assms(2), simp_all add: kout_greets_def)

lemma kreach_kout_greets: "kreach s \<Longrightarrow> kout_greets s"
proof (induction rule: kreach.induct)
  case (kr_boot j)
  then show ?case
    by (simp add: kout_greets_def kstate_boot_def)
next
  case (kr_step s t)
  then show ?case
    using kstep_kout_greets by blast
qed

lemma kreach_steps: "kstep\<^sup>*\<^sup>* s t \<Longrightarrow> kreach s \<Longrightarrow> kreach t"
  by (induction rule: rtranclp_induct) (auto intro: kr_step)

lemma nla_parse_kernel_long:
  assumes "GENL_TEST_ATTR_MSG_MAX < length d" "length d < 65000"
  shows "nla_parse_kernel genl_test_policy GENL_TEST_ATTR_MAX (nla_attr_bytes 1 (d @ [0])) = (Some ERANGE, [None, None])"
proof -
  have v: "nla_validate_kernel genl_test_policy 1 1 (d @ [0]) = Some ERANGE"
    using assms(1) by (simp add: nla_validate_kernel_def genl_test_policy_def)
  show ?thesis
    using assms(2) v by (simp add: nla_parse_kernel_def nla_walk_single)
qed

text \<open>The module after registration at jiffies 7 (family 21, first group
  id 5) and its first timer tick with every allocation succeeding.\<close>

lemma first_tick_reach:
  "kreach (genl_test_periodic ((True, True), (True, True), (True, True))
     ((snd (genl_test_init (Some (21, 5)) (kstate_boot 7)))\<lparr>ks_jiffies := 1257, ks_timer_pending := False\<rparr>)) \<and>
   ks_out (genl_test_periodic ((True, True), (True, True), (True, True))
     ((snd (genl_test_init (Some (21, 5)) (kstate_boot 7)))\<lparr>ks_jiffies := 1257, ks_timer_pending := False\<rparr>)) = [(5, greet_msg_bytes 21 0), (6, greet_msg_bytes 21 1), (7, greet_msg_bytes 21 2)]"
proof -
  let ?s1 = "snd (genl_test_init (Some (21, 5)) (kstate_boot 7))"
  have r1: "kreach ?s1"
    by (rule kr_step [OF kr_boot k_init]) (simp add: kstate_boot_def)
  have p: "ks_timer_pending ?s1" "ks_timer_expires ?s1 - ks_jiffies ?s1 = 1250" "ks_jiffies ?s1 = 7"
    by (simp_all add: genl_test_init_def mod_timer_def kstate_boot_def)
  have "kstep\<^sup>*\<^sup>* ?s1 (?s1\<lparr>ks_jiffies := ks_jiffies ?s1 + word_of_nat 1250\<rparr>)"
    using ticks_reach [of ?s1 1250] p by simp
  then have r2: "kreach (?s1\<lparr>ks_jiffies := 1257\<rparr>)"
    using kreach_steps r1 p by simp
  have d: "timer_due (?s1\<lparr>ks_jiffies := 1257\<rparr>)"
    by (simp add: timer_due_def time_after_eq_def genl_test_init_def mod_timer_def kstate_boot_def)
  have "kreach (genl_test_periodic ((True, True), (True, True), (True, True))
     ((snd (genl_test_init (Some (21, 5)) (kstate_boot 7)))\<lparr>ks_jiffies := 1257, ks_timer_pending := False\<rparr>))"
    using kr_step [OF r2 k_fire [OF d]] by simp
  moreover have "ks_out (genl_test_periodic ((True, True), (True, True), (True, True))
     ((snd (genl_test_init (Some (21, 5)) (kstate_boot 7)))\<lparr>ks_jiffies := 1257, ks_timer_pending := False\<rparr>)) = [(5, greet_msg_bytes 21 0), (6, greet_msg_bytes 21 1), (7, greet_msg_bytes 21 2)]"
    by (simp add: periodic_out greet_out_def genl_test_init_def mod_timer_def kstate_boot_def)
  ultimately show ?thesis
    by simp
qed

lemma recv_loop_greets:
  "\<forall>m \<in> set ms. \<exists>fid grp. grp < 3 \<and> m = greet_msg_bytes fid grp \<Longrightarrow>
   \<exists>outs. recv_loop ms = Cont outs \<and> length outs = length ms \<and> (\<forall>x \<in> set outs. \<exists>grp < 3. x = CO_says (hello_text grp))"
proof (induction ms)
  case (Cons m ms)
  then obtain fid grp outs where g: "grp < 3" "m = greet_msg_bytes fid grp" and r: "recv_loop ms = Cont outs"
      "length outs = length ms" "\<forall>x \<in> set outs. \<exists>grp < 3. x = CO_says (hello_text grp)"
    by auto
  have "print_rx_msg m = Cont (CO_says (hello_text grp))"
    using print_rx_greet [OF g(1)] g(2) by simp
  then have "recv_loop (m # ms) = Cont (CO_says (hello_text grp) # outs)"
    using r(1) by simp
  then show ?case
    using r(2,3) g(1) by (intro exI [of _ "CO_says (hello_text grp) # outs"]) auto
qed simp

text \<open>What \<open>send_msg_to_kernel\<close> transmits is well-formed whatever it
  is given; the libnl builders keep the length field right.\<close>

lemma send_msg_wf:
  assumes "send_msg_to_kernel env st sk = Cont (r, d, sk')" "\<forall>m \<in> set (sk_sent sk). nlmsg_wf m"
  shows "\<forall>m \<in> set (sk_sent sk'). nlmsg_wf m"
proof -
  consider msg m1 m2 where "nlmsg_alloc env = Some msg"
      and "genlmsg_put_user msg NL_AUTO_PORT NL_AUTO_SEQ (word_of_int (genl_ctrl_resolve env GENL_TEST_FAMILY_NAME))
                 NLM_F_REQUEST GENL_TEST_C_MSG 0 = Some m1"
      and "nla_put_user m1 (of_nat GENL_TEST_ATTR_MSG) (nla_string_payload (message st)) = Inr m2"
      and "sk' = snd (nl_send_auto env sk (nb_data m2))"
    | "sk' = sk"
    using assms(1)
    by (auto simp: send_msg_to_kernel_def Let_def split: if_splits option.splits sum.splits prod.splits)
  then show ?thesis
  proof cases
    case (1 msg m1 m2)
    have "nb_cap msg \<le> 4096"
      using 1(1) by (auto simp: nlmsg_alloc_def NL_DEFAULT_MSG_SIZE_def split: if_splits)
    then have "nlmsg_wf (fst (nl_complete_msg sk (nb_data m2)))"
      using nla_put_user_wf [OF 1(2,3)] by (intro nl_complete_msg_wf)
    then show ?thesis
      using assms(2) 1(4) by (auto simp: nl_send_auto_def nl_complete_msg_def Let_def split: if_splits)
  next
    case 2
    then show ?thesis
      using assms(2) by simp
  qed
qed

subsection \<open>Properties across components\<close>

text \<open>C28.  Type of the kernel's output: in every reachable module state,
  every message the module has multicast is a well-formed generic-netlink
  message (both headers present, the length field equal to the byte count,
  4-byte aligned).\<close>

theorem kreach_multicasts_wf: "kreach s \<Longrightarrow> \<forall>(g, m) \<in> set (ks_out s). nlmsg_wf m"
  using kreach_kout_greets greet_msg_wf unfolding kout_greets_def by fastforce

text \<open>C29.  What the client sends is what the kernel accepts: for every
  client state whose message buffer holds a C string shorter than 256
  bytes, and every socket with acknowledgements off, a request
  \<open>send_msg_to_kernel\<close> transmits is appended once to what the socket
  sent, is a well-formed generic-netlink message, and the kernel core hands
  it to \<open>genl_test_rx_msg\<close>, which logs the sender and exactly that C
  string.\<close>

theorem sent_requests_wf:
  assumes "send_msg_to_kernel env st sk = Cont (r, d, sk')" "\<not> sk_auto_ack sk"
    "length (cstr (message st)) < GENL_TEST_ATTR_MSG_MAX"
  shows "sk_sent sk' = sk_sent sk \<or>
         (\<exists>m. sk_sent sk' = sk_sent sk @ [m] \<and> nlmsg_wf m \<and>
              genl_rcv_msg portid m after ks = (None, ks\<lparr>ks_log := ks_log ks @ [KL_says portid (Some (cstr (message st)))]\<rparr>))"
proof -
  have "genl_ctrl_resolve env GENL_TEST_FAMILY_NAME \<ge> 0" and al: "env_alloc_ok env"
    using assms(1) by (auto simp: send_msg_to_kernel_def Let_def nlmsg_alloc_def split: if_splits)
  then obtain fid off where f: "env_family env = Some (fid, off)"
    by (cases "env_family env") (auto simp: genl_ctrl_resolve_def NLE_OBJ_NOTFOUND_def)
  let ?m = "request_bytes fid (sk_port sk) (sk_seq_next sk) (cstr (message st))"
  have n: "0 \<notin> set (cstr (message st))"
    by (rule cstr_nul_free)
  show ?thesis
  proof (cases "env_send_ok env")
    case True
    then have sk': "sk_sent sk' = sk_sent sk @ [?m]"
      using send_msg_ok [OF f al assms(2,3)] assms(1) by auto
    obtain r0 d0 sk0 where e0: "send_msg_to_kernel env st (sk\<lparr>sk_sent := []\<rparr>) = Cont (r0, d0, sk0)"
        and s0: "sk_sent sk0 = [?m]"
      using send_msg_ok [OF f al, of "sk\<lparr>sk_sent := []\<rparr>" st] assms(2,3) True by simp
    have "nlmsg_wf ?m"
      using send_msg_wf [OF e0] s0 by simp
    then show ?thesis
      using sk' genl_rcv_request [OF n assms(3)] by blast
  next
    case False
    then show ?thesis
      using send_msg_ok [OF f al assms(2,3)] assms(1) by auto
  qed
qed

text \<open>C30.  The kernel's generic-netlink core refuses, before the handler
  runs and without changing the module state: a request too short for the
  generic header with \<open>-EINVAL\<close>, a command other than
  \<open>GENL_TEST_C_MSG\<close> (the only entry of \<open>genl_test_ops\<close>) with
  \<open>-EOPNOTSUPP\<close>, and a request whose string is longer than the policy's
  256 bytes with \<open>-ERANGE\<close>.\<close>

theorem genl_rcv_msg_errors:
  "(unat (nlmsg_len (get_nlmsghdr msg)) < NLMSG_HDRLEN + GENL_HDRLEN \<longrightarrow>
      genl_rcv_msg portid msg after s = (Some EINVAL, s)) \<and>
   (NLMSG_HDRLEN + GENL_HDRLEN \<le> unat (nlmsg_len (get_nlmsghdr msg)) \<and> msg ! NLMSG_HDRLEN \<noteq> GENL_TEST_C_MSG \<longrightarrow>
      genl_rcv_msg portid msg after s = (Some EOPNOTSUPP, s)) \<and>
   (GENL_TEST_ATTR_MSG_MAX < length d \<and> length d < 65000 \<longrightarrow>
      genl_rcv_msg portid (request_bytes fid port seq d) after s = (Some ERANGE, s))"
proof (intro conjI impI)
  assume "unat (nlmsg_len (get_nlmsghdr msg)) < NLMSG_HDRLEN + GENL_HDRLEN"
  then show "genl_rcv_msg portid msg after s = (Some EINVAL, s)"
    by (simp add: genl_rcv_msg_def)
next
  assume "NLMSG_HDRLEN + GENL_HDRLEN \<le> unat (nlmsg_len (get_nlmsghdr msg)) \<and> msg ! NLMSG_HDRLEN \<noteq> GENL_TEST_C_MSG"
  then show "genl_rcv_msg portid msg after s = (Some EOPNOTSUPP, s)"
    by (simp add: genl_rcv_msg_def Let_def genl_test_family_def genl_test_ops_def)
next
  assume a: "GENL_TEST_ATTR_MSG_MAX < length d \<and> length d < 65000"
  have t: "nla_total_size (Suc (length d)) < 65010"
    using a nl_align_less [of "4 + Suc (length d)"] by (simp add: nla_total_size_def)
  then have "unat (word_of_nat (20 + nla_total_size (Suc (length d))) :: u32) = 20 + nla_total_size (Suc (length d))"
    by (subst unat_of_nat) simp
  then have l: "unat (20 + word_of_nat (nla_total_size (Suc (length d))) :: u32) = 20 + nla_total_size (Suc (length d))"
    by simp
  show "genl_rcv_msg portid (request_bytes fid port seq d) after s = (Some ERANGE, s)"
    using nla_parse_kernel_long [of d] a l
    by (simp add: genl_rcv_msg_def request_bytes_def genlmsghdr_bytes_def NLMSG_HDRLEN_def GENL_HDRLEN_def nth_append
                  genl_test_family_def genl_test_ops_def)
qed

text \<open>C31.  What the client prints of the module's broadcasts: in every
  reachable module state, whatever groups the client joined, the receive
  loop of \<open>main\<close> handles every delivered message without undefined
  behaviour and prints for each exactly one line, \<open>Kernel says: Hello group
  \<dots>\<close> with the name of one of the three groups.\<close>

theorem recv_multicasts_greetings:
  assumes "kreach s"
  shows "\<exists>outs. recv_loop (nl_deliver G (ks_out s)) = Cont outs \<and> length outs = length (nl_deliver G (ks_out s)) \<and>
           (\<forall>x \<in> set outs. \<exists>grp < 3. x = CO_says (hello_text grp))"
proof -
  have "\<forall>m \<in> set (nl_deliver G (ks_out s)). \<exists>fid grp. grp < 3 \<and> m = greet_msg_bytes fid grp"
    using kreach_kout_greets [OF assms] by (fastforce simp: kout_greets_def nl_deliver_def)
  then show ?thesis
    by (rule recv_loop_greets)
qed

subsection \<open>Witnesses\<close>

theorem kreach_multicasts_wf_witness:
  "kreach (genl_test_periodic ((True, True), (True, True), (True, True))
     ((snd (genl_test_init (Some (21, 5)) (kstate_boot 7)))\<lparr>ks_jiffies := 1257, ks_timer_pending := False\<rparr>)) \<and>
   length (ks_out (genl_test_periodic ((True, True), (True, True), (True, True))
     ((snd (genl_test_init (Some (21, 5)) (kstate_boot 7)))\<lparr>ks_jiffies := 1257, ks_timer_pending := False\<rparr>))) = 3 \<and>
   nlmsg_wf (snd (ks_out (genl_test_periodic ((True, True), (True, True), (True, True))
     ((snd (genl_test_init (Some (21, 5)) (kstate_boot 7)))\<lparr>ks_jiffies := 1257, ks_timer_pending := False\<rparr>)) ! 0)) \<and>
   nlmsg_wf (snd (ks_out (genl_test_periodic ((True, True), (True, True), (True, True))
     ((snd (genl_test_init (Some (21, 5)) (kstate_boot 7)))\<lparr>ks_jiffies := 1257, ks_timer_pending := False\<rparr>)) ! 2))"
proof -
  have r: "kreach (genl_test_periodic ((True, True), (True, True), (True, True))
     ((snd (genl_test_init (Some (21, 5)) (kstate_boot 7)))\<lparr>ks_jiffies := 1257, ks_timer_pending := False\<rparr>))"
    and o: "ks_out (genl_test_periodic ((True, True), (True, True), (True, True))
     ((snd (genl_test_init (Some (21, 5)) (kstate_boot 7)))\<lparr>ks_jiffies := 1257, ks_timer_pending := False\<rparr>)) = [(5, greet_msg_bytes 21 0), (6, greet_msg_bytes 21 1), (7, greet_msg_bytes 21 2)]"
    using first_tick_reach by simp_all
  have "\<forall>x \<in> set (ks_out (genl_test_periodic ((True, True), (True, True), (True, True))
     ((snd (genl_test_init (Some (21, 5)) (kstate_boot 7)))\<lparr>ks_jiffies := 1257, ks_timer_pending := False\<rparr>))). nlmsg_wf (snd x)"
    using kreach_multicasts_wf [OF r] by (auto simp: case_prod_unfold)
  then show ?thesis
    using r by (simp add: o)
qed

theorem sent_requests_wf_witness:
  "\<exists>r d sk'. send_msg_to_kernel \<lparr>env_family = Some (21, 5), env_port = 100, env_seq = 1, env_sock_ok = True,
       env_connect_ok = True, env_join_ok = True, env_alloc_ok = True, env_send_ok = True\<rparr>
     (opt_message ''ping'' (client_init\<lparr>send_to_kernel := 1\<rparr>)) \<lparr>sk_seq_check = False, sk_auto_ack = False, sk_connected = True, sk_port = 100,
      sk_seq_next = 1, sk_groups = [], sk_sent = []\<rparr> = Cont (r, d, sk') \<and>
     \<not> sk_auto_ack \<lparr>sk_seq_check = False, sk_auto_ack = False, sk_connected = True, sk_port = 100,
      sk_seq_next = 1, sk_groups = [], sk_sent = []\<rparr> \<and>
     length (cstr (message (opt_message ''ping'' (client_init\<lparr>send_to_kernel := 1\<rparr>)))) < GENL_TEST_ATTR_MSG_MAX \<and>
     sk_sent sk' \<noteq> [] \<and> nlmsg_wf (hd (sk_sent sk')) \<and>
     genl_rcv_msg 100 (hd (sk_sent sk')) [] (kstate_boot 0) =
       (None, (kstate_boot 0)\<lparr>ks_log := [KL_says 100 (Some (bytes ''ping''))]\<rparr>)"
proof -
  let ?env = "\<lparr>env_family = Some (21, 5), env_port = 100, env_seq = 1, env_sock_ok = True,
       env_connect_ok = True, env_join_ok = True, env_alloc_ok = True, env_send_ok = True\<rparr>"
  let ?st = "opt_message ''ping'' (client_init\<lparr>send_to_kernel := 1\<rparr>)"
  let ?sk = "\<lparr>sk_seq_check = False, sk_auto_ack = False, sk_connected = True, sk_port = 100,
      sk_seq_next = 1, sk_groups = [], sk_sent = []\<rparr>"
  have c: "cstr (message ?st) = bytes ''ping''"
    using parse_send [of "''ping''"] by simp
  have l: "length (cstr (message ?st)) < GENL_TEST_ATTR_MSG_MAX"
    by (simp add: c GENL_TEST_ATTR_MSG_MAX_def)
  obtain r d sk' where e: "send_msg_to_kernel ?env ?st ?sk = Cont (r, d, sk')" and ne: "sk_sent sk' \<noteq> []"
    using send_msg_ok [of ?env 21 5 ?sk ?st] c by simp
  have a: "\<not> sk_auto_ack ?sk"
    by simp
  obtain m where "sk_sent sk' = [m]" "nlmsg_wf m"
      "genl_rcv_msg 100 m [] (kstate_boot 0) =
         (None, (kstate_boot 0)\<lparr>ks_log := ks_log (kstate_boot 0) @ [KL_says 100 (Some (cstr (message ?st)))]\<rparr>)"
    using sent_requests_wf [OF e a l, of 100 "[]" "kstate_boot 0"] ne by auto
  then show ?thesis
    using e a l by (auto simp: c kstate_boot_def)
qed

theorem genl_rcv_msg_errors_witness:
  "genl_rcv_msg 100 (request_bytes 21 100 1 (replicate 300 65)) [] (kstate_boot 0) = (Some ERANGE, kstate_boot 0) \<and>
   genl_rcv_msg 100 (nlmsghdr_bytes \<lparr>nlmsg_len = 16, nlmsg_type = 21, nlmsg_flags = 0, nlmsg_seq = 0, nlmsg_pid = 0\<rparr>)
     [] (kstate_boot 0) = (Some EINVAL, kstate_boot 0)"
proof -
  have h: "get_nlmsghdr (nlmsghdr_bytes \<lparr>nlmsg_len = 16, nlmsg_type = 21, nlmsg_flags = 0, nlmsg_seq = 0, nlmsg_pid = 0\<rparr>) =
      \<lparr>nlmsg_len = 16, nlmsg_type = 21, nlmsg_flags = 0, nlmsg_seq = 0, nlmsg_pid = 0\<rparr>"
    using get_nlmsghdr_bytes [of "\<lparr>nlmsg_len = 16, nlmsg_type = 21, nlmsg_flags = 0, nlmsg_seq = 0, nlmsg_pid = 0\<rparr>" "[]"]
    by simp
  show ?thesis
    using genl_rcv_msg_errors [where d = "replicate 300 65" and portid = 100 and fid = 21 and port = 100 and seq = 1
        and after = "[]" and s = "kstate_boot 0"
        and msg = "nlmsghdr_bytes \<lparr>nlmsg_len = 16, nlmsg_type = 21, nlmsg_flags = 0, nlmsg_seq = 0, nlmsg_pid = 0\<rparr>"]
    by (simp add: h NLMSG_HDRLEN_def GENL_HDRLEN_def)
qed

theorem recv_multicasts_greetings_witness:
  "kreach (genl_test_periodic ((True, True), (True, True), (True, True))
     ((snd (genl_test_init (Some (21, 5)) (kstate_boot 7)))\<lparr>ks_jiffies := 1257, ks_timer_pending := False\<rparr>)) \<and>
   (\<exists>outs. recv_loop (nl_deliver [5, 7] (ks_out (genl_test_periodic ((True, True), (True, True), (True, True))
     ((snd (genl_test_init (Some (21, 5)) (kstate_boot 7)))\<lparr>ks_jiffies := 1257, ks_timer_pending := False\<rparr>)))) = Cont outs \<and> length outs = 2)"
proof -
  have r: "kreach (genl_test_periodic ((True, True), (True, True), (True, True))
     ((snd (genl_test_init (Some (21, 5)) (kstate_boot 7)))\<lparr>ks_jiffies := 1257, ks_timer_pending := False\<rparr>))"
    and o: "ks_out (genl_test_periodic ((True, True), (True, True), (True, True))
     ((snd (genl_test_init (Some (21, 5)) (kstate_boot 7)))\<lparr>ks_jiffies := 1257, ks_timer_pending := False\<rparr>)) = [(5, greet_msg_bytes 21 0), (6, greet_msg_bytes 21 1), (7, greet_msg_bytes 21 2)]"
    using first_tick_reach by simp_all
  have d: "nl_deliver [5, 7] (ks_out (genl_test_periodic ((True, True), (True, True), (True, True))
     ((snd (genl_test_init (Some (21, 5)) (kstate_boot 7)))\<lparr>ks_jiffies := 1257, ks_timer_pending := False\<rparr>))) = [greet_msg_bytes 21 0, greet_msg_bytes 21 2]"
    by (simp add: o nl_deliver_def)
  have "\<exists>outs. recv_loop (nl_deliver [5, 7] (ks_out (genl_test_periodic ((True, True), (True, True), (True, True))
     ((snd (genl_test_init (Some (21, 5)) (kstate_boot 7)))\<lparr>ks_jiffies := 1257, ks_timer_pending := False\<rparr>)))) = Cont outs \<and>
      length outs = length (nl_deliver [5, 7] (ks_out (genl_test_periodic ((True, True), (True, True), (True, True))
     ((snd (genl_test_init (Some (21, 5)) (kstate_boot 7)))\<lparr>ks_jiffies := 1257, ks_timer_pending := False\<rparr>))))"
    using recv_multicasts_greetings [OF r, of "[5, 7]"] by blast
  then show ?thesis
    using r unfolding d by (simp del: recv_loop.simps add: numeral_2_eq_2)
qed

end
